(* ===== verification/Prelude.thy ===== *)
theory Prelude
  imports Main "HOL-Library.Code_Target_Numeral"
begin

text \<open>
  What every component of the development shares: the outcome of a Go call (a value, an
  error value, or a panic), the traversal of a list by a call that can fail, a few facts
  about lists, and the collections of rewrite rules the components add to.
\<close>

section \<open>Outcomes of Go calls\<close>

text \<open>
  A Go function that returns \<open>(T, error)\<close> ends in one of three ways: it returns a value, it
  returns an error, or it panics. A panic is a value of the model, so that a theorem can
  say that it does not happen.
\<close>

datatype panic =
    Nil_Deref       \<comment> \<open>a method call or a field access through nil\<close>
  | Nil_Map_Write   \<comment> \<open>an assignment to an entry of a nil map\<close>
  | Slice_Bounds    \<comment> \<open>a slice expression out of range\<close>
  | Exit            \<comment> \<open>a fatal log entry, which ends the process\<close>

datatype (errs: 'e, vals: 'a) outcome = Ok 'a | Err 'e | Panic panic

fun panics :: "('e, 'a) outcome \<Rightarrow> bool" where
  "panics (Panic _) = True"
| "panics _ = False"

fun obind :: "('e, 'a) outcome \<Rightarrow> ('a \<Rightarrow> ('e, 'b) outcome) \<Rightarrow> ('e, 'b) outcome" where
  "obind (Ok x) f = f x"
| "obind (Err e) f = Err e"
| "obind (Panic p) f = Panic p"

named_theorems outcome_simps "inversion of outcomes of composed calls"

lemma obind_eq_Ok [outcome_simps]: "obind r f = Ok y \<longleftrightarrow> (\<exists>x. r = Ok x \<and> f x = Ok y)"
  by (cases r) auto

lemma obind_eq_Err [outcome_simps]:
  "obind r f = Err e \<longleftrightarrow> r = Err e \<or> (\<exists>x. r = Ok x \<and> f x = Err e)"
  by (cases r) auto

lemma panics_obind [simp]: "panics (obind r f) \<longleftrightarrow> panics r \<or> (\<exists>x. r = Ok x \<and> panics (f x))"
  by (cases r) auto

lemma panics_iff: "panics r \<longleftrightarrow> (\<exists>p. r = Panic p)"
  by (cases r) auto

lemma obind_cong [fundef_cong]:
  "r = r' \<Longrightarrow> (\<And>x. r' = Ok x \<Longrightarrow> f x = f' x) \<Longrightarrow> obind r f = obind r' f'"
  by (cases r') auto

lemma obind_assoc: "obind (obind r f) g = obind r (\<lambda>x. obind (f x) g)"
  by (cases r) auto

text \<open>The loop \<open>for _, x := range xs { y, err := f(x); if err != nil { return } ... }\<close>.\<close>

fun traverse :: "('a \<Rightarrow> ('e, 'b) outcome) \<Rightarrow> 'a list \<Rightarrow> ('e, 'b list) outcome" where
  "traverse f [] = Ok []"
| "traverse f (x # xs) = obind (f x) (\<lambda>y. obind (traverse f xs) (\<lambda>ys. Ok (y # ys)))"

lemma traverse_cong [fundef_cong]:
  "xs = ys \<Longrightarrow> (\<And>x. x \<in> set ys \<Longrightarrow> f x = g x) \<Longrightarrow> traverse f xs = traverse g ys"
  by (induction ys arbitrary: xs) (auto intro!: obind_cong)

lemma traverse_eq_Ok [outcome_simps]:
  "traverse f xs = Ok ys \<longleftrightarrow> list_all2 (\<lambda>x y. f x = Ok y) xs ys"
  by (induction xs arbitrary: ys) (auto simp: outcome_simps list_all2_Cons1)

lemma traverse_Ok_map: "(\<And>x. x \<in> set xs \<Longrightarrow> f x = Ok (g x)) \<Longrightarrow> traverse f xs = Ok (map g xs)"
  by (induction xs) auto

lemma traverse_Ok_all:
  "traverse f xs = Ok ys \<Longrightarrow> (\<And>x y. x \<in> set xs \<Longrightarrow> f x = Ok y \<Longrightarrow> P y) \<Longrightarrow> list_all P ys"
proof (induction xs arbitrary: ys)
  case (Cons x xs)
  from Cons.prems(1) obtain y zs where "f x = Ok y" "traverse f xs = Ok zs" "ys = y # zs"
    by (auto simp: obind_eq_Ok)
  moreover from this(2) have "list_all P zs"
    by (rule Cons.IH) (rule Cons.prems(2), simp_all)
  moreover from calculation(1) have "P y" by (rule Cons.prems(2) [rotated]) simp
  ultimately show ?case by simp
qed simp

lemma traverse_no_panic: "(\<And>x. x \<in> set xs \<Longrightarrow> \<not> panics (f x)) \<Longrightarrow> \<not> panics (traverse f xs)"
  by (induction xs) auto

section \<open>Lists\<close>

lemma list_all_filter: "list_all P xs \<Longrightarrow> list_all P (filter Q xs)"
  by (induction xs) auto

lemma list_all_concat: "list_all P (concat xss) \<longleftrightarrow> list_all (list_all P) xss"
  by (induction xss) auto

lemma list_all_mono: "list_all P xs \<Longrightarrow> (\<And>x. P x \<Longrightarrow> Q x) \<Longrightarrow> list_all Q xs"
  by (induction xs) auto

lemma in_set_enumerate: "(i, c) \<in> set (List.enumerate n cs) \<Longrightarrow> c \<in> set cs"
  by (auto simp: in_set_enumerate_eq)

lemma dropWhile_length_le: "length (dropWhile P xs) \<le> length xs"
  by (induction xs) auto

lemma drop_less: "xs \<noteq> [] \<Longrightarrow> 0 < n \<Longrightarrow> length (drop n xs) < length xs"
  by (cases xs) auto

text \<open>Lists of keys and values without a key twice.\<close>

lemma distinct_keys_filter:
  "distinct (map fst xs) \<Longrightarrow> (k, v) \<in> set xs \<Longrightarrow> filter (\<lambda>(i, _). i = k) xs = [(k, v)]"
proof (induction xs)
  case (Cons x xs)
  show ?case
  proof (cases "x = (k, v)")
    case True
    with Cons.prems(1) have "\<forall>y \<in> set xs. fst y \<noteq> k" by (auto simp: image_iff)
    then have "filter (\<lambda>(i, _). i = k) xs = []" by (auto simp: filter_empty_conv)
    with True show ?thesis by simp
  next
    case False
    with Cons.prems have "(k, v) \<in> set xs" by auto
    moreover from this Cons.prems(1) have "fst x \<noteq> k" by (auto simp: image_iff)
    ultimately show ?thesis using Cons by (cases x) simp
  qed
qed simp

lemma distinct_keys_singleton: "distinct (map fst xs) \<Longrightarrow> set xs = {x} \<Longrightarrow> xs = [x]"
  by (cases xs) (auto simp: image_iff subset_singleton_iff)

end
