(* ===== verification/Go_Strings.thy ===== *)
theory Go_Strings
  imports Prelude "HOL-Library.Char_ord"
begin

text \<open>
  What the program uses of Go's packages \<open>strings\<close>, \<open>unicode\<close>, \<open>unicode/utf8\<close> and
  \<open>net/textproto\<close>. A Go \<open>string\<close> and a Go \<open>[]byte\<close> are both a sequence of bytes and both
  the type \<open>string\<close> here: a \<open>char\<close> is one byte, and \<open>byte\<close> reads it as a number. Runes
  are numbers; a range loop over a string decodes UTF-8 with \<open>decode_rune\<close>.
\<close>

type_synonym bytes = string
type_synonym rune = nat

abbreviation byte :: "char \<Rightarrow> nat" where
  "byte c \<equiv> of_char c"

abbreviation CR :: char where "CR \<equiv> CHR 0x0D"
abbreviation LF :: char where "LF \<equiv> CHR 0x0A"
abbreviation TAB :: char where "TAB \<equiv> CHR 0x09"
abbreviation DQUOTE :: char where "DQUOTE \<equiv> CHR 0x22"
abbreviation SQUOTE :: char where "SQUOTE \<equiv> CHR 0x27"
abbreviation BACKSLASH :: char where "BACKSLASH \<equiv> CHR 0x5C"

named_theorems byte_simps "facts on the value of a byte"

lemma byte_char_of [byte_simps]: "n < 256 \<Longrightarrow> byte (char_of n) = n"
  by simp

lemma byte_less_256 [simp]: "byte c < 256"
  by simp

lemma byte_lt_imp: "byte c < n \<Longrightarrow> n \<le> m \<Longrightarrow> byte c < m"
  by simp

section \<open>strings\<close>

fun has_prefix :: "string \<Rightarrow> string \<Rightarrow> bool" where
  "has_prefix s [] = True"
| "has_prefix [] (p # ps) = False"
| "has_prefix (c # s) (p # ps) = (c = p \<and> has_prefix s ps)"

lemma has_prefix_iff: "has_prefix s p \<longleftrightarrow> (\<exists>r. s = p @ r)"
  by (induction s p rule: has_prefix.induct) auto

lemma has_prefix_append [simp]: "has_prefix (p @ r) p"
  by (auto simp: has_prefix_iff)

lemma has_prefix_drop: "has_prefix s p \<Longrightarrow> s = p @ drop (length p) s"
  by (auto simp: has_prefix_iff)

text \<open>\<open>strings.ReplaceAll(s, old, new)\<close> for a non-empty \<open>old\<close>: leftmost, without overlap.\<close>

function replace_all :: "string \<Rightarrow> string \<Rightarrow> string \<Rightarrow> string" where
  "replace_all [] old new = []"
| "replace_all (c # s) old new =
     (if old \<noteq> [] \<and> has_prefix (c # s) old then new @ replace_all (drop (length old) (c # s)) old new
      else c # replace_all s old new)"
  by pat_completeness auto
termination
  by (relation "measure (\<lambda>(s, old, new). length s)") (auto simp: drop_less)

text \<open>\<open>strings.Split(s, sep)\<close> and \<open>strings.SplitSeq(s, sep)\<close> for a non-empty \<open>sep\<close>.\<close>

fun split_acc :: "string \<Rightarrow> string \<Rightarrow> nat \<Rightarrow> string \<Rightarrow> string list" where
  "split_acc sep acc k [] = [rev acc]"
| "split_acc sep acc (Suc k) (c # s) = split_acc sep acc k s"
| "split_acc sep acc 0 (c # s) =
     (if has_prefix (c # s) sep then rev acc # split_acc sep [] (length sep - 1) s
      else split_acc sep (c # acc) 0 s)"

definition split_on :: "string \<Rightarrow> string \<Rightarrow> string list" where
  "split_on sep s = split_acc sep [] 0 s"

text \<open>\<open>strings.Cut(s, sep)\<close> for a one-byte separator: before, after, found.\<close>

definition cut :: "char \<Rightarrow> string \<Rightarrow> string \<times> string \<times> bool" where
  "cut c s = (case dropWhile (\<lambda>d. d \<noteq> c) s of
      [] \<Rightarrow> (s, [], False)
    | d # r \<Rightarrow> (takeWhile (\<lambda>d. d \<noteq> c) s, r, True))"

fun join :: "string \<Rightarrow> string list \<Rightarrow> string" where
  "join sep [] = []"
| "join sep [x] = x"
| "join sep (x # y # zs) = x @ sep @ join sep (y # zs)"

definition lower_byte :: "char \<Rightarrow> char" where
  "lower_byte c = (if 0x41 \<le> byte c \<and> byte c \<le> 0x5A then char_of (byte c + 32) else c)"

definition upper_byte :: "char \<Rightarrow> char" where
  "upper_byte c = (if 0x61 \<le> byte c \<and> byte c \<le> 0x7A then char_of (byte c - 32) else c)"

section \<open>unicode/utf8\<close>

definition rune_error :: rune where
  "rune_error = 0xFFFD"

definition is_cont :: "char \<Rightarrow> bool" where
  "is_cont c \<longleftrightarrow> 0x80 \<le> byte c \<and> byte c \<le> 0xBF"

text \<open>The range of the second byte that a lead byte allows (no overlong form, no surrogate,
  nothing above U+10FFFF).\<close>

definition second_ok :: "nat \<Rightarrow> char \<Rightarrow> bool" where
  "second_ok b0 c \<longleftrightarrow>
     (if b0 = 0xE0 then 0xA0 \<le> byte c \<and> byte c \<le> 0xBF
      else if b0 = 0xED then 0x80 \<le> byte c \<and> byte c \<le> 0x9F
      else if b0 = 0xF0 then 0x90 \<le> byte c \<and> byte c \<le> 0xBF
      else if b0 = 0xF4 then 0x80 \<le> byte c \<and> byte c \<le> 0x8F
      else is_cont c)"

text \<open>\<open>utf8.DecodeRuneInString\<close>: the rune and the number of bytes it takes; an invalid
  sequence is \<open>rune_error\<close> and takes one byte.\<close>

definition decode_rune :: "string \<Rightarrow> rune \<times> nat" where
  "decode_rune s = (case s of
      [] \<Rightarrow> (rune_error, 0)
    | c0 # r0 \<Rightarrow>
      let b0 = byte c0 in
      if b0 < 0x80 then (b0, 1)
      else if 0xC2 \<le> b0 \<and> b0 \<le> 0xDF then
        (case r0 of
           c1 # _ \<Rightarrow> if is_cont c1 then ((b0 - 0xC0) * 64 + (byte c1 - 0x80), 2) else (rune_error, 1)
         | _ \<Rightarrow> (rune_error, 1))
      else if 0xE0 \<le> b0 \<and> b0 \<le> 0xEF then
        (case r0 of
           c1 # c2 # _ \<Rightarrow>
             if second_ok b0 c1 \<and> is_cont c2
             then ((b0 - 0xE0) * 4096 + (byte c1 - 0x80) * 64 + (byte c2 - 0x80), 3)
             else (rune_error, 1)
         | _ \<Rightarrow> (rune_error, 1))
      else if 0xF0 \<le> b0 \<and> b0 \<le> 0xF4 then
        (case r0 of
           c1 # c2 # c3 # _ \<Rightarrow>
             if second_ok b0 c1 \<and> is_cont c2 \<and> is_cont c3
             then ((b0 - 0xF0) * 262144 + (byte c1 - 0x80) * 4096
                     + (byte c2 - 0x80) * 64 + (byte c3 - 0x80), 4)
             else (rune_error, 1)
         | _ \<Rightarrow> (rune_error, 1))
      else (rune_error, 1))"

lemma decode_rune_size_pos: "s \<noteq> [] \<Longrightarrow> 0 < snd (decode_rune s)"
  by (auto simp: decode_rune_def Let_def split: list.splits)

lemma decode_rune_ascii [simp]: "byte c < 0x80 \<Longrightarrow> decode_rune (c # s) = (byte c, 1)"
  by (simp add: decode_rune_def)

text \<open>The runes of a string with the bytes each was read from: a range loop over it.\<close>

function rune_chunks :: "string \<Rightarrow> (rune \<times> string) list" where
  "rune_chunks [] = []"
| "rune_chunks (c # s) =
     (let p = decode_rune (c # s) in
      (fst p, take (snd p) (c # s)) # rune_chunks (drop (snd p) (c # s)))"
  by pat_completeness auto
termination
  by (relation "measure length") (use drop_less decode_rune_size_pos in fastforce)+

definition runes :: "string \<Rightarrow> rune list" where
  "runes s = map fst (rune_chunks s)"

text \<open>\<open>utf8.ValidString\<close>, \<open>utf8.Valid\<close>: no decoding step is an error.\<close>

definition bad_chunk :: "rune \<times> string \<Rightarrow> bool" where
  "bad_chunk p \<longleftrightarrow> fst p = rune_error \<and> length (snd p) = 1"

definition valid_utf8 :: "string \<Rightarrow> bool" where
  "valid_utf8 s \<longleftrightarrow> list_all (\<lambda>p. \<not> bad_chunk p) (rune_chunks s)"

lemma concat_rune_chunks: "concat (map snd (rune_chunks s)) = s"
  by (induction s rule: rune_chunks.induct) (simp_all add: Let_def)

text \<open>A byte from 0x80 on starts a rune from 0x80 on, and all bytes of that rune are from 0x80 on.\<close>

definition ascii :: "string \<Rightarrow> bool" where
  "ascii s \<longleftrightarrow> list_all (\<lambda>c. byte c < 0x80) s"

lemma is_cont_high: "is_cont c \<Longrightarrow> 0x80 \<le> byte c"
  by (simp add: is_cont_def)

lemma second_ok_high: "second_ok b c \<Longrightarrow> 0x80 \<le> byte c"
  by (auto simp: second_ok_def is_cont_def split: if_splits)

lemma decode_rune_high_bytes:
  "0x80 \<le> byte c \<Longrightarrow> list_all (\<lambda>d. 0x80 \<le> byte d) (take (snd (decode_rune (c # s))) (c # s))"
  by (auto simp: decode_rune_def Let_def is_cont_high second_ok_high split: list.splits)

lemma decode_rune_high: "0x80 \<le> byte c \<Longrightarrow> 0x80 \<le> fst (decode_rune (c # s))"
  by (auto simp: decode_rune_def Let_def rune_error_def second_ok_def split: list.splits if_splits)

text \<open>
  A test on runes that every rune from 0x80 on passes (or every one fails) is the same test
  on bytes. These two lemmas turn the code's loops over runes into facts on bytes.
\<close>

lemma runes_pass_high:
  assumes "\<And>r. 0x80 \<le> r \<Longrightarrow> P r"
  shows "list_all P (runes s) \<longleftrightarrow> list_all (\<lambda>c. P (byte c)) s"
proof (induction s rule: rune_chunks.induct)
  case 1
  show ?case by (simp add: runes_def)
next
  case (2 c s)
  let ?p = "decode_rune (c # s)"
  have IH: "list_all P (runes (drop (snd ?p) (c # s)))
      \<longleftrightarrow> list_all (\<lambda>c. P (byte c)) (drop (snd ?p) (c # s))"
    by (rule 2) (rule refl)
  show ?case
  proof (cases "byte c < 0x80")
    case True
    then show ?thesis using IH by (simp add: runes_def Let_def)
  next
    case False
    then have hi: "0x80 \<le> byte c" by simp
    have "list_all (\<lambda>d. P (byte d)) (take (snd ?p) (c # s))"
      using decode_rune_high_bytes [OF hi] by (rule list_all_mono) (rule assms)
    then have "list_all (\<lambda>d. P (byte d)) (c # s)
        \<longleftrightarrow> list_all (\<lambda>d. P (byte d)) (drop (snd ?p) (c # s))"
      by (metis append_take_drop_id list_all_append)
    moreover have "P (fst ?p)" by (rule assms) (rule decode_rune_high [OF hi])
    ultimately show ?thesis using IH by (simp add: runes_def Let_def)
  qed
qed

lemma runes_fail_high:
  assumes "\<And>r. 0x80 \<le> r \<Longrightarrow> \<not> P r"
  shows "list_all P (runes s) \<longleftrightarrow> list_all (\<lambda>c. P (byte c)) s"
proof (induction s rule: rune_chunks.induct)
  case 1
  show ?case by (simp add: runes_def)
next
  case (2 c s)
  let ?p = "decode_rune (c # s)"
  have IH: "list_all P (runes (drop (snd ?p) (c # s)))
      \<longleftrightarrow> list_all (\<lambda>c. P (byte c)) (drop (snd ?p) (c # s))"
    by (rule 2) (rule refl)
  show ?case
  proof (cases "byte c < 0x80")
    case True
    then show ?thesis using IH by (simp add: runes_def Let_def)
  next
    case False
    then have "\<not> P (fst ?p)" and "\<not> P (byte c)"
      using decode_rune_high assms by simp_all
    then show ?thesis by (simp add: runes_def Let_def)
  qed
qed

lemma rune_chunks_ascii: "ascii s \<Longrightarrow> rune_chunks s = map (\<lambda>c. (byte c, [c])) s"
  by (induction s) (auto simp: ascii_def)

lemma ascii_valid_utf8: "ascii s \<Longrightarrow> valid_utf8 s"
  by (auto simp: valid_utf8_def rune_chunks_ascii bad_chunk_def rune_error_def ascii_def
      list_all_iff)

lemma ascii_simps [simp]:
  "ascii []" "ascii (c # s) \<longleftrightarrow> byte c < 0x80 \<and> ascii s" "ascii (s @ t) \<longleftrightarrow> ascii s \<and> ascii t"
  by (simp_all add: ascii_def)

lemma ascii_concat [simp]: "ascii (concat ss) \<longleftrightarrow> list_all ascii ss"
  by (induction ss) auto

section \<open>unicode\<close>

text \<open>\<open>unicode.IsControl\<close>: the category Cc holds these runes and no others.\<close>

definition is_control :: "rune \<Rightarrow> bool" where
  "is_control r \<longleftrightarrow> r < 0x20 \<or> (0x7F \<le> r \<and> r < 0xA0)"

text \<open>\<open>unicode.IsSpace\<close>: the property White_Space.\<close>

definition is_space :: "rune \<Rightarrow> bool" where
  "is_space r \<longleftrightarrow> r \<in> {0x09, 0x0A, 0x0B, 0x0C, 0x0D, 0x20, 0x85, 0xA0, 0x1680, 0x2028, 0x2029,
      0x202F, 0x205F, 0x3000} \<or> (0x2000 \<le> r \<and> r \<le> 0x200A)"

definition trim_left_space :: "string \<Rightarrow> string" where
  "trim_left_space s = concat (map snd (dropWhile (\<lambda>p. is_space (fst p)) (rune_chunks s)))"

definition trim_space :: "string \<Rightarrow> string" where
  "trim_space s = concat (map snd (rev (dropWhile (\<lambda>p. is_space (fst p))
      (rev (dropWhile (\<lambda>p. is_space (fst p)) (rune_chunks s))))))"

lemma length_trim_left_space: "length (trim_left_space s) \<le> length s"
proof -
  have "length (concat (map snd (dropWhile P ps))) \<le> length (concat (map snd ps))"
    for P and ps :: "(rune \<times> string) list"
    by (induction ps) auto
  then show ?thesis unfolding trim_left_space_def by (metis concat_rune_chunks)
qed

text \<open>
  \<open>strings.ToLower\<close> where its result is compared with ASCII text: ASCII letters, and the two
  runes outside ASCII that Unicode lowers to an ASCII letter (U+0130 to i, U+212A to k). A
  rune that is lowered to another rune outside ASCII is left as it is.
\<close>

definition lower_chunk :: "rune \<times> string \<Rightarrow> string" where
  "lower_chunk p = (if fst p = 0x0130 then ''i'' else if fst p = 0x212A then ''k''
      else map lower_byte (snd p))"

definition to_lower :: "string \<Rightarrow> string" where
  "to_lower s = concat (map lower_chunk (rune_chunks s))"

lemma to_lower_ascii: "ascii s \<Longrightarrow> to_lower s = map lower_byte s"
  by (induction s) (auto simp: to_lower_def rune_chunks_ascii lower_chunk_def)

section \<open>net/textproto\<close>

text \<open>A byte that may occur in a header field name, and the canonical form of a name.\<close>

definition alnum :: "char \<Rightarrow> bool" where
  "alnum c \<longleftrightarrow> (0x30 \<le> byte c \<and> byte c \<le> 0x39) \<or> (0x41 \<le> byte c \<and> byte c \<le> 0x5A)
      \<or> (0x61 \<le> byte c \<and> byte c \<le> 0x7A)"

definition valid_field_byte :: "char \<Rightarrow> bool" where
  "valid_field_byte c \<longleftrightarrow> alnum c \<or> c = SQUOTE \<or> c \<in> set ''!#$%&*+-.^_`|~''"

fun canon :: "bool \<Rightarrow> string \<Rightarrow> string" where
  "canon upper [] = []"
| "canon upper (c # s) =
     (if upper then upper_byte c else lower_byte c) # canon (c = CHR ''-'') s"

definition canonical_key :: "string \<Rightarrow> string" where
  "canonical_key s = (if list_all valid_field_byte s then canon True s else s)"

section \<open>Hexadecimal digits and encoded words (mime)\<close>

definition upper_hex :: "nat \<Rightarrow> char" where
  "upper_hex n = (if n < 10 then char_of (0x30 + n) else char_of (0x41 + (n - 10)))"

definition hex_byte :: "char \<Rightarrow> string" where
  "hex_byte c = [upper_hex (byte c div 16), upper_hex (byte c mod 16)]"

definition needs_encoding :: "string \<Rightarrow> bool" where
  "needs_encoding s \<longleftrightarrow> \<not> list_all (\<lambda>r. (0x20 \<le> r \<and> r \<le> 0x7E) \<or> r = 0x09) (runes s)"

text \<open>\<open>mime.QEncoding.Encode("utf-8", s)\<close>: text that is printable ASCII stays as it is, other
  text becomes encoded words of at most 63 encoded bytes each, never split inside a rune.\<close>

definition q_plain :: "char \<Rightarrow> bool" where
  "q_plain c \<longleftrightarrow> 0x21 \<le> byte c \<and> byte c \<le> 0x7E \<and> c \<noteq> CHR ''='' \<and> c \<noteq> CHR ''?'' \<and> c \<noteq> CHR ''_''"

definition q_byte :: "char \<Rightarrow> string" where
  "q_byte c = (if c = CHR '' '' then ''_'' else if q_plain c then [c] else CHR ''='' # hex_byte c)"

definition q_open :: string where "q_open = ''=?utf-8?q?''"
definition q_close :: string where "q_close = ''?=''"

fun q_words :: "nat \<Rightarrow> (rune \<times> string) list \<Rightarrow> string" where
  "q_words cur [] = []"
| "q_words cur ((r, chunk) # ps) =
     (let one = (case chunk of [c] \<Rightarrow> q_plain c \<or> c = CHR '' '' | _ \<Rightarrow> False);
          enc_len = (if one then 1 else 3 * length chunk);
          body = concat (map q_byte chunk)
      in if cur + enc_len > 63
         then q_close @ '' '' @ q_open @ body @ q_words enc_len ps
         else body @ q_words (cur + enc_len) ps)"

definition q_encode :: "string \<Rightarrow> string" where
  "q_encode s = (if needs_encoding s then q_open @ q_words 0 (rune_chunks s) @ q_close else s)"

text \<open>Printable ASCII with the tab: what an unfolded header value may hold.\<close>

definition printable :: "char \<Rightarrow> bool" where
  "printable c \<longleftrightarrow> (0x20 \<le> byte c \<and> byte c \<le> 0x7E) \<or> c = TAB"

lemma needs_encoding_printable: "needs_encoding s \<longleftrightarrow> \<not> list_all printable s"
proof -
  have "list_all (\<lambda>r. (0x20 \<le> r \<and> r \<le> 0x7E) \<or> r = 0x09) (runes s)
      \<longleftrightarrow> list_all (\<lambda>c. (0x20 \<le> byte c \<and> byte c \<le> 0x7E) \<or> byte c = 0x09) s"
    by (rule runes_fail_high) auto
  moreover have "byte c = 0x09 \<longleftrightarrow> c = TAB" for c
    using of_char_eq_iff [of c TAB, where ?'a = nat] by simp
  ultimately show ?thesis unfolding needs_encoding_def printable_def by simp
qed

lemma byte_upper_hex: "n < 16 \<Longrightarrow> byte (upper_hex n) = (if n < 10 then 0x30 + n else 0x37 + n)"
  by (simp add: upper_hex_def)

lemma byte_div_16 [simp]: "byte c div 16 < 16"
  using byte_less_256 [of c] by linarith

lemma byte_mod_16 [simp]: "byte c mod 16 < 16"
  by simp

lemma printable_upper_hex: "n < 16 \<Longrightarrow> printable (upper_hex n)"
  by (simp add: printable_def byte_upper_hex)

lemma printable_q_byte: "list_all printable (q_byte c)"
proof -
  have "list_all printable (hex_byte c)"
    by (simp add: hex_byte_def printable_upper_hex del: of_char_mod_256)
  then show ?thesis by (simp add: q_byte_def q_plain_def printable_def)
qed

lemma printable_q_words: "list_all printable (q_words cur ps)"
proof -
  have "list_all printable (concat (map q_byte chunk))" for chunk
    by (induction chunk) (auto simp: printable_q_byte)
  moreover have "list_all printable q_open" "list_all printable q_close"
    by (simp_all add: q_open_def q_close_def printable_def)
  moreover have "printable CHR '' ''" by (simp add: printable_def)
  ultimately show ?thesis
    by (induction cur ps rule: q_words.induct) (auto simp: Let_def)
qed

text \<open>An encoded header value has no control character but the tab, whatever the input.\<close>

lemma q_encode_printable: "list_all printable (q_encode s)"
  by (auto simp: q_encode_def needs_encoding_printable printable_q_words q_open_def q_close_def)
     (simp_all add: printable_def)

lemma printable_ascii: "list_all printable s \<Longrightarrow> ascii s"
  by (auto simp: ascii_def list_all_iff printable_def)

end
