(* ===== verification/Newlines.thy ===== *)
theory Newlines
  imports Go_Strings
begin

text \<open>
  Line ends. The mailer brings text to CRLF form with three calls of \<open>strings.ReplaceAll\<close>:
  every CRLF to LF, every CR that is left to LF, every LF to CRLF. This theory gives the
  composition by one recursion over the string and shows that it produces CRLF form, keeps
  text that is in CRLF form, and commutes with concatenation where no CRLF is cut.
\<close>

abbreviation CRLF :: string where "CRLF \<equiv> [CR, LF]"

lemma CR_neq_LF [simp]: "CR \<noteq> LF" "LF \<noteq> CR"
  by simp_all

definition normalize_newlines :: "string \<Rightarrow> string" where
  "normalize_newlines s = replace_all (replace_all (replace_all s CRLF [LF]) [CR] [LF]) [LF] CRLF"

lemma replace_all_single:
  "replace_all s [c] new = concat (map (\<lambda>d. if d = c then new else [d]) s)"
  by (induction s) auto

text \<open>The recursion that the three passes amount to, and its equations.\<close>

fun crlf_form :: "string \<Rightarrow> string" where
  "crlf_form [] = []"
| "crlf_form [c] = (if c = CR \<or> c = LF then CRLF else [c])"
| "crlf_form (c # d # s) =
     (if c = CR \<and> d = LF then CRLF @ crlf_form s
      else if c = CR \<or> c = LF then CRLF @ crlf_form (d # s)
      else c # crlf_form (d # s))"

lemma normalize_newlines_eq: "normalize_newlines s = crlf_form s"
  by (induction s rule: crlf_form.induct) (auto simp: normalize_newlines_def replace_all_single)

text \<open>CRLF form: a CR only before an LF, an LF only after a CR.\<close>

fun in_crlf_form :: "string \<Rightarrow> bool" where
  "in_crlf_form [] = True"
| "in_crlf_form [c] = (c \<noteq> CR \<and> c \<noteq> LF)"
| "in_crlf_form (c # d # s) =
     (if c = CR then d = LF \<and> in_crlf_form s else c \<noteq> LF \<and> in_crlf_form (d # s))"

lemma crlf_form_neq_LF: "crlf_form s = c # r \<Longrightarrow> c \<noteq> LF"
  by (induction s rule: crlf_form.induct) (auto split: if_splits)

lemma in_crlf_form_CRLF [simp]: "in_crlf_form (CR # LF # s) = in_crlf_form s"
  by simp

lemma in_crlf_form_Cons: "c \<noteq> CR \<Longrightarrow> c \<noteq> LF \<Longrightarrow> in_crlf_form (c # s) = in_crlf_form s"
  by (cases s) auto

lemma in_crlf_form_crlf_form: "in_crlf_form (crlf_form s)"
  by (induction s rule: crlf_form.induct) (auto simp: in_crlf_form_Cons)

lemma crlf_form_id: "in_crlf_form s \<Longrightarrow> crlf_form s = s"
  by (induction s rule: in_crlf_form.induct) (auto split: if_splits)

lemma crlf_form_append: "in_crlf_form s \<Longrightarrow> crlf_form (s @ t) = s @ crlf_form t"
proof (induction s rule: in_crlf_form.induct)
  case (2 c)
  then show ?case by (cases t) auto
qed (auto split: if_splits)

lemma in_crlf_form_append: "in_crlf_form s \<Longrightarrow> in_crlf_form (s @ t) = in_crlf_form t"
  by (induction s rule: in_crlf_form.induct) (auto simp: in_crlf_form_Cons split: if_splits)

lemma in_crlf_form_concat: "list_all in_crlf_form ss \<Longrightarrow> in_crlf_form (concat ss)"
  by (induction ss) (auto simp: in_crlf_form_append)

text \<open>Text without any CR or LF: a line.\<close>

definition no_newline :: "string \<Rightarrow> bool" where
  "no_newline s \<longleftrightarrow> list_all (\<lambda>c. c \<noteq> CR \<and> c \<noteq> LF) s"

lemma no_newline_simps [simp]:
  "no_newline []" "no_newline (c # s) \<longleftrightarrow> c \<noteq> CR \<and> c \<noteq> LF \<and> no_newline s"
  "no_newline (s @ t) \<longleftrightarrow> no_newline s \<and> no_newline t"
  by (simp_all add: no_newline_def)

lemma no_newline_in_crlf_form: "no_newline s \<Longrightarrow> in_crlf_form s"
  by (induction s rule: in_crlf_form.induct) auto

lemma crlf_form_line: "no_newline s \<Longrightarrow> crlf_form (s @ LF # t) = s @ CRLF @ crlf_form t"
proof -
  assume "no_newline s"
  then have "crlf_form (s @ LF # t) = s @ crlf_form (LF # t)"
    by (intro crlf_form_append no_newline_in_crlf_form)
  also have "crlf_form (LF # t) = CRLF @ crlf_form t" by (cases t) auto
  finally show ?thesis by simp
qed

lemma printable_no_newline: "list_all printable s \<Longrightarrow> no_newline s"
  by (induction s) (auto simp: printable_def)

lemma crlf_form_chars: "set (crlf_form s) \<subseteq> set s \<union> {CR, LF}"
  by (induction s rule: crlf_form.induct) auto

lemma crlf_form_ascii: "ascii s \<Longrightarrow> ascii (crlf_form s)"
  by (induction s rule: crlf_form.induct) auto

text \<open>The lines of a text in CRLF form, as the mailer reads them with \<open>SplitSeq(s, "\r\n")\<close>.\<close>

definition lines :: "string \<Rightarrow> string list" where
  "lines s = split_on CRLF s"

lemma split_acc_CRLF:
  "split_acc CRLF acc 0 (CR # LF # s) = rev acc # split_acc CRLF [] 0 s"
  by simp

lemma split_acc_other:
  "\<not> has_prefix (c # s) CRLF \<Longrightarrow> split_acc CRLF acc 0 (c # s) = split_acc CRLF (c # acc) 0 s"
  by auto

lemma split_acc_first:
  "\<exists>x xs. split_acc CRLF acc 0 s = (rev acc @ x) # xs \<and> split_acc CRLF [] 0 s = x # xs"
proof (induction s arbitrary: acc rule: length_induct)
  case (1 s)
  show ?case
  proof (cases s)
    case Nil
    then show ?thesis by simp
  next
    case (Cons c t)
    show ?thesis
    proof (cases "has_prefix s CRLF")
      case True
      with Cons obtain u where "s = CR # LF # u" by (auto simp: has_prefix_iff)
      then show ?thesis by simp
    next
      case False
      with Cons 1 [rule_format, of t "c # acc"] 1 [rule_format, of t "[c]"]
      show ?thesis by (auto simp: split_acc_other)
    qed
  qed
qed

lemma lines_line_append: "no_newline x \<Longrightarrow> lines (x @ CRLF @ s) = x # lines s"
proof -
  have "split_acc CRLF acc 0 (x @ CRLF @ s) = (rev acc @ x) # split_acc CRLF [] 0 s"
    if "no_newline x" for acc
    using that
  proof (induction x arbitrary: acc)
    case (Cons c x)
    then have "\<not> has_prefix (c # x @ CRLF @ s) CRLF" by (cases "x @ CRLF @ s") auto
    with Cons show ?case by (simp add: split_acc_other)
  qed simp
  then show "no_newline x \<Longrightarrow> ?thesis" by (simp add: lines_def split_on_def)
qed

lemma lines_no_newline: "no_newline x \<Longrightarrow> lines x = [x]"
proof -
  have "split_acc CRLF acc 0 x = [rev acc @ x]" if "no_newline x" for acc
    using that by (induction x arbitrary: acc) auto
  then show "no_newline x \<Longrightarrow> ?thesis" by (simp add: lines_def split_on_def)
qed

text \<open>Lines, each ended by a CRLF.\<close>

definition unlines :: "string list \<Rightarrow> string" where
  "unlines ls = concat (map (\<lambda>l. l @ CRLF) ls)"

lemma unlines_simps [simp]:
  "unlines [] = []" "unlines (l # ls) = l @ CRLF @ unlines ls"
  "unlines (ls @ ms) = unlines ls @ unlines ms"
  by (simp_all add: unlines_def)

lemma lines_unlines: "list_all no_newline ls \<Longrightarrow> no_newline x \<Longrightarrow> lines (unlines ls @ x) = ls @ [x]"
  by (induction ls) (auto simp: lines_no_newline lines_line_append [simplified])

lemma in_crlf_form_unlines: "list_all no_newline ls \<Longrightarrow> in_crlf_form (unlines ls)"
  by (induction ls) (auto simp: in_crlf_form_append no_newline_in_crlf_form)

end
