(* ===== verification/Go_Transfer.thy ===== *)
theory Go_Transfer
  imports Newlines
begin

text \<open>
  The content transfer encodings of Go's library that the mailer applies: \<open>base64.StdEncoding\<close>
  and the writer of \<open>mime/quotedprintable\<close> (in its text mode). Both are given with a decoder,
  and the two round trips are instances of one interface, \<open>transfer_codec\<close>.
\<close>

section \<open>The interface\<close>

text \<open>
  What a receiver relies on: on contents in the encoding's domain, the encoded form is
  US-ASCII and decodes to the content.
\<close>

locale transfer_codec =
  fixes enc :: "bytes \<Rightarrow> string"
    and dec :: "string \<Rightarrow> bytes option"
    and dom_ok :: "bytes \<Rightarrow> bool"
  assumes dec_enc: "dom_ok b \<Longrightarrow> dec (enc b) = Some b"
    and enc_ascii: "ascii (enc b)"
begin

lemma enc_inject: "dom_ok b \<Longrightarrow> dom_ok b' \<Longrightarrow> enc b = enc b' \<Longrightarrow> b = b'"
  by (metis dec_enc option.inject)

lemma enc_valid_utf8: "valid_utf8 (enc b)"
  by (rule ascii_valid_utf8) (rule enc_ascii)

end

section \<open>Base64\<close>

definition b64_digit :: "nat \<Rightarrow> char" where
  "b64_digit n = (if n < 26 then char_of (0x41 + n)
      else if n < 52 then char_of (0x61 + (n - 26))
      else if n < 62 then char_of (0x30 + (n - 52))
      else if n = 62 then CHR ''+'' else CHR ''/'')"

definition b64_value :: "char \<Rightarrow> nat option" where
  "b64_value c = (let b = byte c in
      if 0x41 \<le> b \<and> b \<le> 0x5A then Some (b - 0x41)
      else if 0x61 \<le> b \<and> b \<le> 0x7A then Some (b - 0x61 + 26)
      else if 0x30 \<le> b \<and> b \<le> 0x39 then Some (b - 0x30 + 52)
      else if c = CHR ''+'' then Some 62 else if c = CHR ''/'' then Some 63 else None)"

fun b64_encode :: "bytes \<Rightarrow> string" where
  "b64_encode [] = []"
| "b64_encode [a] = (let x = byte a in
     [b64_digit (x div 4), b64_digit (x mod 4 * 16), CHR ''='', CHR ''=''])"
| "b64_encode [a, b] = (let x = byte a; y = byte b in
     [b64_digit (x div 4), b64_digit (x mod 4 * 16 + y div 16), b64_digit (y mod 16 * 4), CHR ''=''])"
| "b64_encode (a # b # c # s) = (let x = byte a; y = byte b; z = byte c in
     b64_digit (x div 4) # b64_digit (x mod 4 * 16 + y div 16)
     # b64_digit (y mod 16 * 4 + z div 64) # b64_digit (z mod 64) # b64_encode s)"

text \<open>The decoder passes over CR and LF; any other byte outside the alphabet is an error, and
  padding is required and ends the text.\<close>

fun b64_groups :: "string \<Rightarrow> bytes option" where
  "b64_groups [] = Some []"
| "b64_groups (a # b # c # d # s) =
     (case (b64_value a, b64_value b) of
        (Some x, Some y) \<Rightarrow>
          (if c = CHR ''='' then
             (if d = CHR ''='' \<and> s = [] then Some [char_of (x * 4 + y div 16)] else None)
           else (case b64_value c of None \<Rightarrow> None
             | Some z \<Rightarrow>
               if d = CHR ''='' then
                 (if s = [] then Some [char_of (x * 4 + y div 16), char_of (y mod 16 * 16 + z div 4)]
                  else None)
               else (case b64_value d of None \<Rightarrow> None
                 | Some w \<Rightarrow> map_option (\<lambda>r. char_of (x * 4 + y div 16)
                     # char_of (y mod 16 * 16 + z div 4) # char_of (z mod 4 * 64 + w) # r)
                     (b64_groups s))))
      | _ \<Rightarrow> None)"
| "b64_groups s = None"

definition b64_decode :: "string \<Rightarrow> bytes option" where
  "b64_decode s = b64_groups (filter (\<lambda>c. c \<noteq> CR \<and> c \<noteq> LF) s)"

lemma b64_value_digit: "n < 64 \<Longrightarrow> b64_value (b64_digit n) = Some n"
  by (auto simp: b64_value_def b64_digit_def Let_def)

lemma b64_digit_byte: "n < 64 \<Longrightarrow> byte (b64_digit n) < 0x80"
  by (auto simp: b64_digit_def)

lemma b64_digit_neq:
  assumes "n < 64"
  shows "b64_digit n \<noteq> CHR ''=''" and "b64_digit n \<noteq> CR" and "b64_digit n \<noteq> LF"
  using b64_value_digit [OF assms] by (auto simp: b64_value_def)

lemma digit_pair: "b < m \<Longrightarrow> (a * m + b) div m = a" "b < m \<Longrightarrow> (a * m + b) mod m = b"
  for a b m :: nat
  by simp_all

lemma octet_parts:
  assumes "x < (256::nat)"
  shows "x div 4 < 64" "x div 16 < 16" "x div 64 < 4" "x mod 4 < 4" "x mod 16 < 16" "x mod 64 < 64"
  using assms by (simp_all add: div_less_iff_less_mult)

lemma sextets [simp]:
  "byte a div 4 < 64" "byte a mod 4 * 16 < 64" "byte a mod 4 * 16 + byte b div 16 < 64"
  "byte b mod 16 * 4 < 64" "byte b mod 16 * 4 + byte c div 64 < 64" "byte c mod 64 < 64"
  using octet_parts [of "byte a"] octet_parts [of "byte b"] octet_parts [of "byte c"]
  by (simp_all del: of_char_mod_256)

lemma b64_octet1: "y < 256 \<Longrightarrow> (x::nat) div 4 * 4 + (x mod 4 * 16 + y div 16) div 16 = x"
  using octet_parts [of y] by (simp only: digit_pair div_mult_mod_eq)

lemma b64_octet2:
  "y < 256 \<Longrightarrow> z < 256 \<Longrightarrow>
    ((x::nat) mod 4 * 16 + y div 16) mod 16 * 16 + (y mod 16 * 4 + z div 64) div 4 = y"
  using octet_parts [of y] octet_parts [of z] by (simp only: digit_pair div_mult_mod_eq)

lemma b64_octet3: "z < 256 \<Longrightarrow> ((y::nat) mod 16 * 4 + z div 64) mod 4 * 64 + z mod 64 = z"
  using octet_parts [of z] by (simp only: digit_pair div_mult_mod_eq)

lemma b64_groups_encode: "b64_groups (b64_encode s) = Some s"
proof (induction s rule: b64_encode.induct)
  case (2 a)
  show ?case
    using b64_octet1 [of 0 "byte a"]
    by (simp add: Let_def b64_value_digit b64_digit_neq del: of_char_mod_256)
next
  case (3 a b)
  show ?case
    using b64_octet2 [of "byte b" 0 "byte a"]
    by (simp add: Let_def b64_value_digit b64_digit_neq b64_octet1 del: of_char_mod_256)
next
  case (4 a b c s)
  then show ?case
    using octet_parts [of "byte c"]
    by (simp add: Let_def b64_value_digit b64_digit_neq b64_octet1 del: of_char_mod_256)
qed simp

definition b64_char :: "char \<Rightarrow> bool" where
  "b64_char c \<longleftrightarrow> byte c < 0x80 \<and> c \<noteq> CR \<and> c \<noteq> LF"

lemma b64_encode_chars: "list_all b64_char (b64_encode s)"
  by (induction s rule: b64_encode.induct)
     (simp_all add: Let_def b64_char_def b64_digit_byte b64_digit_neq)

lemma b64_encode_filter: "filter (\<lambda>c. c \<noteq> CR \<and> c \<noteq> LF) (b64_encode s) = b64_encode s"
  using b64_encode_chars [of s] by (auto simp: list_all_iff b64_char_def intro: filter_True)

lemma length_b64_encode: "length (b64_encode s) = 4 * ((length s + 2) div 3)"
proof (induction s rule: b64_encode.induct)
  case (4 a b c s)
  have "(length s + 3 + 2) div 3 = Suc ((length s + 2) div 3)" by simp
  with 4 show ?case by (simp add: Let_def)
qed (simp_all add: Let_def)

lemma ascii_b64_encode: "ascii (b64_encode s)"
  using b64_encode_chars [of s] by (auto simp: ascii_def list_all_iff b64_char_def)

interpretation b64: transfer_codec b64_encode b64_decode "\<lambda>_. True"
  by unfold_locales
     (simp_all add: b64_decode_def b64_encode_filter b64_groups_encode ascii_b64_encode)

end
