(* ===== verification/Go_Media_Type.thy ===== *)
theory Go_Media_Type
  imports Go_Strings "HOL-Library.AList" "HOL-Library.List_Lexorder"
begin

text \<open>
  \<open>mime.ParseMediaType\<close>, \<open>mime.FormatMediaType\<close> and the boundary check of
  \<open>mime/multipart\<close>, as the mailer uses them. A parameter map is an association list with
  distinct keys; its order never matters, because \<open>FormatMediaType\<close> sorts the keys.
\<close>

section \<open>Tokens\<close>

definition tspecial :: "char \<Rightarrow> bool" where
  "tspecial c \<longleftrightarrow> c = DQUOTE \<or> c = BACKSLASH \<or> c \<in> set ''()<>@,;:/[]?=''"

definition token_char :: "char \<Rightarrow> bool" where
  "token_char c \<longleftrightarrow> 0x20 < byte c \<and> byte c < 0x7F \<and> \<not> tspecial c"

definition is_token :: "string \<Rightarrow> bool" where
  "is_token s \<longleftrightarrow> s \<noteq> [] \<and> list_all token_char s"

definition consume_token :: "string \<Rightarrow> string \<times> string" where
  "consume_token s = (takeWhile token_char s, dropWhile token_char s)"

section \<open>Parsing\<close>

text \<open>The body of a quoted string after the opening quote: its value and the rest, or nothing
  when it has a line break or does not end.\<close>

fun quoted_value :: "string \<Rightarrow> string \<Rightarrow> (string \<times> string) option" where
  "quoted_value acc [] = None"
| "quoted_value acc (c # s) =
     (if c = DQUOTE then Some (rev acc, s)
      else if c = BACKSLASH \<and> s \<noteq> [] \<and> tspecial (hd s) then quoted_value (hd s # acc) (tl s)
      else if c = CR \<or> c = LF then None
      else quoted_value (c # acc) s)"

definition consume_value :: "string \<Rightarrow> string \<times> string" where
  "consume_value s = (case s of
      [] \<Rightarrow> ([], [])
    | c # r \<Rightarrow> if c \<noteq> DQUOTE then consume_token s
        else (case quoted_value [] r of None \<Rightarrow> ([], s) | Some p \<Rightarrow> p))"

text \<open>One parameter \<open>; key = value\<close>: the key (in lower case), the value and the rest; the
  empty key where there is none.\<close>

definition consume_media_param :: "string \<Rightarrow> string \<times> string \<times> string" where
  "consume_media_param v = (case trim_left_space v of
      [] \<Rightarrow> ([], [], v)
    | c # r1 \<Rightarrow>
      if c \<noteq> CHR '';'' then ([], [], v)
      else let (param, r2) = consume_token (trim_left_space r1) in
        if param = [] then ([], [], v)
        else (case trim_left_space r2 of
            [] \<Rightarrow> ([], [], v)
          | d # r3 \<Rightarrow>
            if d \<noteq> CHR ''='' then ([], [], v)
            else let r4 = trim_left_space r3; (val, r5) = consume_value r4 in
              if val = [] \<and> r5 = r4 then ([], [], v)
              else (map lower_byte param, val, r5)))"

lemma length_consume_token: "length (snd (consume_token s)) \<le> length s"
  by (simp add: consume_token_def dropWhile_length_le)

lemma length_quoted_value: "quoted_value acc s = Some (v, r) \<Longrightarrow> length r \<le> length s"
  by (induction acc s rule: quoted_value.induct) (auto split: if_splits simp: le_SucI)

lemma length_consume_value: "length (snd (consume_value s)) \<le> length s"
  using length_consume_token [of s]
  by (auto simp: consume_value_def le_SucI dest: length_quoted_value split: list.splits option.splits)

lemma length_consume_media_param:
  "consume_media_param v = (k, x, r) \<Longrightarrow> k \<noteq> [] \<Longrightarrow> length r < length v"
proof -
  assume eq: "consume_media_param v = (k, x, r)" and k: "k \<noteq> []"
  from eq k obtain c r1 d r3 where tl: "trim_left_space v = c # r1"
    and tr: "trim_left_space (snd (consume_token (trim_left_space r1))) = d # r3"
    and r: "r = snd (consume_value (trim_left_space r3))"
    by (auto simp: consume_media_param_def Let_def split: list.splits if_splits prod.splits)
  have "length r \<le> length r3"
    using r length_consume_value length_trim_left_space le_trans by metis
  also have "\<dots> < length (d # r3)" by simp
  also have "\<dots> \<le> length r1"
    using tr length_consume_token length_trim_left_space le_trans by metis
  also have "\<dots> < length (c # r1)" by simp
  also have "\<dots> \<le> length v"
    using tl length_trim_left_space by metis
  finally show ?thesis .
qed

datatype media_error =
    No_Media_Type | No_Slash | No_Subtype | Unexpected_Content | Invalid_Parameter
  | Duplicate_Parameter

text \<open>\<open>checkMediaTypeDisposition\<close>: \<open>None\<close> is success.\<close>

definition check_media_type :: "string \<Rightarrow> media_error option" where
  "check_media_type s =
     (let (typ, r) = consume_token s in
      if typ = [] then Some No_Media_Type
      else case r of [] \<Rightarrow> None
        | c # r' \<Rightarrow> if c \<noteq> CHR ''/'' then Some No_Slash
            else let (sub, r2) = consume_token r' in
              if sub = [] then Some No_Subtype
              else if r2 \<noteq> [] then Some Unexpected_Content else None)"

type_synonym params = "(string \<times> string) list"
type_synonym pieces = "(string \<times> params) list"  \<comment> \<open>base name to the parameters with a star\<close>

text \<open>
  The loop over the parameters. A key with a star goes to the pieces of its base name, any
  other key to the parameters; a key that is there with another value is an error.
\<close>

function media_params :: "params \<Rightarrow> pieces \<Rightarrow> string \<Rightarrow> media_error + params \<times> pieces" where
  "media_params ps cont v =
     (let v' = trim_left_space v in
      if v' = [] then Inr (ps, cont)
      else let (key, val, rest) = consume_media_param v' in
        if key = [] then
          (if trim_space rest = '';'' then Inr (ps, cont) else Inl Invalid_Parameter)
        else let (base, _, star) = cut (CHR ''*'') key;
                 pmap = (if star then (case map_of cont base of None \<Rightarrow> [] | Some m \<Rightarrow> m) else ps)
          in if (case map_of pmap key of None \<Rightarrow> False | Some x \<Rightarrow> x \<noteq> val)
             then Inl Duplicate_Parameter
             else if star
               then media_params ps (AList.update base (AList.update key val pmap) cont) rest
               else media_params (AList.update key val pmap) cont rest)"
  by pat_completeness auto
termination
proof (relation "measure (\<lambda>(ps, cont, v). length v)", goal_cases)
  case 1
  show ?case by simp
next
  case (2 ps cont v v' p key q val rest b base c d star pmap)
  then have "length rest < length v'" by (metis length_consume_media_param)
  with 2 show ?case using length_trim_left_space [of v] by simp
next
  case (3 ps cont v v' p key q val rest b base c d star pmap)
  then have "length rest < length v'" by (metis length_consume_media_param)
  with 3 show ?case using length_trim_left_space [of v] by simp
qed

declare media_params.simps [simp del]

text \<open>
  RFC 2231: \<open>key*=charset'language'value\<close> and the numbered pieces \<open>key*0\<close>, \<open>key*1*\<close>, and
  so on. The loop over the pieces stops at the first number that is missing; as the keys of
  an association list with distinct keys, at most \<open>length pm\<close> numbers are there, so the search
  over \<open>[0..<Suc (length pm)]\<close> always meets the missing one.
\<close>

definition is_hex :: "char \<Rightarrow> bool" where
  "is_hex c \<longleftrightarrow> (0x30 \<le> byte c \<and> byte c \<le> 0x39) \<or> (0x61 \<le> byte c \<and> byte c \<le> 0x66)
      \<or> (0x41 \<le> byte c \<and> byte c \<le> 0x46)"

definition unhex :: "char \<Rightarrow> nat" where
  "unhex c = (if byte c \<le> 0x39 then byte c - 0x30
      else if byte c \<le> 0x46 then byte c - 0x41 + 10 else byte c - 0x61 + 10)"

fun percent_unescape :: "string \<Rightarrow> string option" where
  "percent_unescape [] = Some []"
| "percent_unescape (c # s) =
     (if c \<noteq> CHR ''%'' then map_option (Cons c) (percent_unescape s)
      else (case s of
          a # b # s' \<Rightarrow>
            if is_hex a \<and> is_hex b
            then map_option (Cons (char_of (unhex a * 16 + unhex b))) (percent_unescape s')
            else None
        | _ \<Rightarrow> None))"

definition decode_2231 :: "string \<Rightarrow> string option" where
  "decode_2231 v =
     (let (charset, r1, ok1) = cut SQUOTE v; (_, enc, ok2) = cut SQUOTE r1 in
      if \<not> ok1 \<or> \<not> ok2 \<or> charset = []
         \<or> (to_lower charset \<noteq> ''us-ascii'' \<and> to_lower charset \<noteq> ''utf-8'') then None
      else percent_unescape enc)"

function show_nat :: "nat \<Rightarrow> string" where
  "show_nat n = (if n < 10 then [char_of (0x30 + n)] else show_nat (n div 10) @ [char_of (0x30 + n mod 10)])"
  by pat_completeness auto
termination by (relation "measure id") auto

declare show_nat.simps [simp del]

fun from_option :: "'a \<Rightarrow> 'a option \<Rightarrow> 'a" where
  "from_option d None = d"
| "from_option d (Some x) = x"

definition stitch :: "string \<Rightarrow> params \<Rightarrow> string option" where
  "stitch key pm =
     (case map_of pm (key @ ''*'') of
        Some v \<Rightarrow> decode_2231 v
      | None \<Rightarrow>
        let simple = (\<lambda>n. key @ ''*'' @ show_nat n);
            present = (\<lambda>n. map_of pm (simple n) \<noteq> None \<or> map_of pm (simple n @ ''*'') \<noteq> None);
            ns = takeWhile present [0..<Suc (length pm)];
            piece = (\<lambda>n. case map_of pm (simple n) of
                Some v \<Rightarrow> v
              | None \<Rightarrow>
                let v = from_option [] (map_of pm (simple n @ ''*'')) in
                from_option [] (if n = 0 then decode_2231 v else percent_unescape v))
        in if ns = [] then None else Some (concat (map piece ns)))"

definition stitch_all :: "params \<Rightarrow> pieces \<Rightarrow> params" where
  "stitch_all ps cont = foldl (\<lambda>ps (key, pm).
     case stitch key pm of None \<Rightarrow> ps | Some v \<Rightarrow> AList.update key v ps) ps cont"

text \<open>
  \<open>mime.ParseMediaType\<close>: the media type (in lower case), the parameters (\<open>None\<close> is the nil
  map) and the error. On a malformed parameter Go returns the media type with the error.
\<close>

definition parse_media_type :: "string \<Rightarrow> string \<times> params option \<times> media_error option" where
  "parse_media_type v =
     (let base = takeWhile (\<lambda>c. c \<noteq> CHR '';'') v; mt = trim_space (to_lower base) in
      case check_media_type mt of
        Some e \<Rightarrow> ([], None, Some e)
      | None \<Rightarrow>
        (case media_params [] [] (drop (length base) v) of
           Inl Duplicate_Parameter \<Rightarrow> ([], None, Some Duplicate_Parameter)
         | Inl e \<Rightarrow> (mt, None, Some e)
         | Inr (ps, cont) \<Rightarrow> (mt, Some (stitch_all ps cont), None)))"

text \<open>The parameter map is nil exactly when there is an error.\<close>

lemma parse_media_type_params:
  "parse_media_type v = (mt, ps, e) \<Longrightarrow> ps = None \<longleftrightarrow> e \<noteq> None"
  by (auto simp: parse_media_type_def Let_def
      split: option.splits sum.splits media_error.splits prod.splits) metis

section \<open>Formatting\<close>

definition attr_char :: "char \<Rightarrow> bool" where
  "attr_char c \<longleftrightarrow> 0x20 < byte c \<and> byte c < 0x7F \<and> c \<noteq> CHR ''*'' \<and> c \<noteq> SQUOTE \<and> c \<noteq> CHR ''%''
      \<and> \<not> tspecial c"

definition format_value :: "string \<Rightarrow> string" where
  "format_value v =
     (if needs_encoding v then ''*=utf-8'' @ [SQUOTE, SQUOTE]
        @ concat (map (\<lambda>c. if attr_char c then [c] else CHR ''%'' # hex_byte c) v)
      else if is_token v then ''='' @ v
      else ''='' @ [DQUOTE]
        @ concat (map (\<lambda>c. if c = DQUOTE \<or> c = BACKSLASH then [BACKSLASH, c] else [c]) v) @ [DQUOTE])"

text \<open>\<open>mime.FormatMediaType\<close>: the empty string when the type or a key is not a token.\<close>

definition format_media_type :: "string \<Rightarrow> params \<Rightarrow> string" where
  "format_media_type t ps =
     (let (major, sub, slash) = cut (CHR ''/'') t in
      if (if slash then \<not> is_token major \<or> \<not> is_token sub else \<not> is_token t)
         \<or> \<not> list_all (is_token \<circ> fst) ps then []
      else map lower_byte t
        @ concat (map (\<lambda>(k, v). ''; '' @ map lower_byte k @ format_value v) (sort_key fst ps)))"

text \<open>A formatted media type is one printable line, whatever its parameters hold.\<close>

lemma token_printable: "is_token t \<Longrightarrow> list_all printable t"
  by (auto simp: is_token_def list_all_iff token_char_def printable_def)

lemma printable_map_lower: "list_all printable s \<Longrightarrow> list_all printable (map lower_byte s)"
  by (auto simp: list_all_iff lower_byte_def printable_def)

lemma printable_hex_byte [simp]: "list_all printable (hex_byte c)"
  by (simp add: hex_byte_def printable_upper_hex del: of_char_mod_256)

lemma list_all_concat_map: "list_all P (concat (map f xs)) \<longleftrightarrow> list_all (\<lambda>x. list_all P (f x)) xs"
  by (induction xs) auto

lemma printable_punctuation [simp]:
  "printable CHR ''%''" "printable CHR ''*''" "printable CHR ''=''" "printable DQUOTE"
  "printable BACKSLASH" "printable SQUOTE" "printable CHR '';''" "printable CHR '' ''"
  "printable CHR ''/''"
  by (simp_all add: printable_def)

lemma format_value_printable: "list_all printable (format_value v)"
proof (cases "needs_encoding v")
  case True
  have "list_all printable (if attr_char c then [c] else CHR ''%'' # hex_byte c)" for c
    by (simp add: attr_char_def printable_def [of c])
  moreover have "list_all printable ''*=utf-8''" by (simp add: printable_def)
  ultimately show ?thesis
    using True by (simp add: format_value_def list_all_concat_map list.pred_True)
next
  case False
  then have "list_all printable v" by (simp add: needs_encoding_printable)
  then show ?thesis
    using False by (auto simp: format_value_def list_all_iff)
qed

lemma cut_append: "cut c s = (a, b, True) \<Longrightarrow> s = a @ c # b"
proof -
  assume "cut c s = (a, b, True)"
  then obtain d where "dropWhile (\<lambda>d. d \<noteq> c) s = d # b" and "a = takeWhile (\<lambda>d. d \<noteq> c) s"
    by (auto simp: cut_def split: list.splits)
  moreover from this have "d = c" by (auto dest!: dropWhile_eq_Cons_conv [THEN iffD1])
  ultimately show ?thesis by (metis takeWhile_dropWhile_id)
qed

lemma format_media_type_printable: "list_all printable (format_media_type t ps)"
proof (cases "format_media_type t ps = []")
  case False
  then have keys: "list_all (is_token \<circ> fst) ps" and t: "list_all printable t"
    by (auto simp: format_media_type_def Let_def token_printable
        dest!: cut_append split: prod.splits if_splits)
  have "list_all printable (map lower_byte k)" if "(k, v) \<in> set ps" for k v
    using keys that printable_map_lower [OF token_printable, of k] by (auto simp: list_all_iff)
  with t show ?thesis
    by (auto simp: format_media_type_def Let_def list_all_concat_map printable_map_lower
        format_value_printable list_all_iff [of _ "sort_key fst ps"] split: prod.splits)
qed simp

section \<open>Boundaries (mime/multipart)\<close>

definition boundary_char :: "char \<Rightarrow> bool" where
  "boundary_char c \<longleftrightarrow> alnum c \<or> c = SQUOTE \<or> c \<in> set ''()+_,-./:=?''"

text \<open>\<open>Writer.SetBoundary\<close> accepts a boundary of 1 to 70 of these bytes; a space may occur, but
  not at the end.\<close>

definition boundary_ok :: "string \<Rightarrow> bool" where
  "boundary_ok b \<longleftrightarrow> 1 \<le> length b \<and> length b \<le> 70
      \<and> list_all (\<lambda>c. boundary_char c \<or> c = CHR '' '') b \<and> last b \<noteq> CHR '' ''"

end
