(* ===== verification/Go_Quoted_Printable.thy ===== *)
theory Go_Quoted_Printable
  imports Go_Transfer Go_Media_Type
begin

text \<open>
  The writer of \<open>mime/quotedprintable\<close> in text mode. Its state is the text flushed so far, the
  current line and whether the last byte was a CR. The decoder is the one of RFC 2045.
\<close>

record qp_state =
  q_out :: string
  q_line :: string
  q_cr :: bool

definition qp_start :: qp_state where
  "qp_start = \<lparr>q_out = [], q_line = [], q_cr = False\<rparr>"

definition qp_flush :: "string \<Rightarrow> qp_state \<Rightarrow> qp_state" where
  "qp_flush end st = st\<lparr>q_out := q_out st @ q_line st @ end, q_line := []\<rparr>"

definition soft_break :: "qp_state \<Rightarrow> qp_state" where
  "soft_break st = qp_flush (CHR ''='' # CRLF) st"

definition qp_hex :: "char \<Rightarrow> qp_state \<Rightarrow> qp_state" where
  "qp_hex c st = (let st' = (if 72 < length (q_line st) then soft_break st else st) in
     st'\<lparr>q_line := q_line st' @ CHR ''='' # hex_byte c\<rparr>)"

definition blank :: "char \<Rightarrow> bool" where
  "blank c \<longleftrightarrow> c = CHR '' '' \<or> c = TAB"

text \<open>\<open>checkLastByte\<close>: a blank at the end of a line is written as a hexadecimal escape.\<close>

definition check_last :: "qp_state \<Rightarrow> qp_state" where
  "check_last st =
     (if q_line st \<noteq> [] \<and> blank (last (q_line st))
      then qp_hex (last (q_line st)) (st\<lparr>q_line := butlast (q_line st)\<rparr>) else st)"

text \<open>\<open>write\<close>: a line break ends the line, an LF after a CR is already written.\<close>

definition qp_put :: "char \<Rightarrow> qp_state \<Rightarrow> qp_state" where
  "qp_put c st =
     (if c = CR \<or> c = LF then
        (if q_cr st \<and> c = LF then st\<lparr>q_cr := False\<rparr>
         else (let st' = qp_flush CRLF (check_last st) in
               if c = CR then st'\<lparr>q_cr := True\<rparr> else st'))
      else (let st' = (if length (q_line st) = 75 then soft_break st else st) in
            st'\<lparr>q_line := q_line st' @ [c], q_cr := False\<rparr>))"

definition qp_literal :: "char \<Rightarrow> bool" where
  "qp_literal c \<longleftrightarrow> 0x21 \<le> byte c \<and> byte c \<le> 0x7E \<and> c \<noteq> CHR ''=''"

definition qp_byte :: "char \<Rightarrow> qp_state \<Rightarrow> qp_state" where
  "qp_byte c st = (if qp_literal c \<or> blank c \<or> c = CR \<or> c = LF then qp_put c st else qp_hex c st)"

definition qp_encode :: "bytes \<Rightarrow> string" where
  "qp_encode b = (let st = check_last (fold qp_byte b qp_start) in q_out st @ q_line st)"

definition hex_value :: "char \<Rightarrow> nat option" where
  "hex_value c = (if 0x30 \<le> byte c \<and> byte c \<le> 0x39 then Some (byte c - 0x30)
      else if 0x41 \<le> byte c \<and> byte c \<le> 0x46 then Some (byte c - 0x37) else None)"

fun qp_decode :: "string \<Rightarrow> bytes option" where
  "qp_decode [] = Some []"
| "qp_decode (c # s) =
     (if c \<noteq> CHR ''='' then map_option (Cons c) (qp_decode s)
      else (case s of
          a # b # s' \<Rightarrow>
            if a = CR \<and> b = LF then qp_decode s'
            else (case (hex_value a, hex_value b) of
                (Some x, Some y) \<Rightarrow> map_option (Cons (char_of (x * 16 + y))) (qp_decode s')
              | _ \<Rightarrow> None)
        | _ \<Rightarrow> None))"

section \<open>Line lengths and the alphabet\<close>

lemmas qp_defs = qp_start_def qp_flush_def soft_break_def qp_hex_def check_last_def qp_put_def qp_byte_def

text \<open>
  What the writer keeps: the open line has at most 75 bytes and holds no line break, and what
  is flushed is in CRLF form. All bytes are printable or a line break.
\<close>

definition qp_char :: "char \<Rightarrow> bool" where
  "qp_char c \<longleftrightarrow> printable c \<or> c = CR \<or> c = LF"

definition qp_inv :: "qp_state \<Rightarrow> bool" where
  "qp_inv st \<longleftrightarrow> length (q_line st) \<le> 75 \<and> list_all printable (q_line st)
      \<and> (\<exists>ls. q_out st = unlines ls \<and> list_all (\<lambda>l. length l \<le> 76 \<and> list_all printable l) ls)"

lemma qp_inv_start: "qp_inv qp_start"
  by (auto simp: qp_inv_def qp_start_def intro: exI [of _ "[]"])

lemma length_hex_byte [simp]: "length (hex_byte c) = 2"
  by (simp add: hex_byte_def)

lemma qp_inv_flush:
  assumes "qp_inv st" and "length end \<le> 1" and "list_all printable end"
  shows "qp_inv (qp_flush (end @ CRLF) st)"
proof -
  from assms(1) obtain ls where ls: "q_out st = unlines ls"
    "list_all (\<lambda>l. length l \<le> 76 \<and> list_all printable l) ls"
    by (auto simp: qp_inv_def)
  with assms show ?thesis
    by (auto simp: qp_inv_def qp_flush_def intro!: exI [of _ "ls @ [q_line st @ end]"])
qed

lemma qp_inv_soft_break: "qp_inv st \<Longrightarrow> qp_inv (soft_break st)"
  using qp_inv_flush [of st "[CHR ''='']"] by (simp add: soft_break_def)

lemma soft_break_line [simp]: "q_line (soft_break st) = []" "q_cr (soft_break st) = q_cr st"
  by (simp_all add: soft_break_def qp_flush_def)

lemma qp_inv_line:
  "qp_inv st \<Longrightarrow> length (q_line st @ x) \<le> 75 \<Longrightarrow> list_all printable x
    \<Longrightarrow> qp_inv (st\<lparr>q_line := q_line st @ x\<rparr>)"
  by (auto simp: qp_inv_def)

lemma qp_inv_hex: "qp_inv st \<Longrightarrow> qp_inv (qp_hex c st)"
  using qp_inv_line [of "soft_break st" "CHR ''='' # hex_byte c"]
    qp_inv_line [of st "CHR ''='' # hex_byte c"] qp_inv_soft_break [of st]
  by (auto simp: qp_hex_def Let_def)

lemma qp_inv_butlast: "qp_inv st \<Longrightarrow> qp_inv (st\<lparr>q_line := butlast (q_line st)\<rparr>)"
  by (auto simp: qp_inv_def list_all_iff dest: in_set_butlastD)

lemma qp_inv_check_last: "qp_inv st \<Longrightarrow> qp_inv (check_last st)"
  by (simp add: check_last_def qp_inv_hex qp_inv_butlast)

lemma qp_inv_cr [simp]: "qp_inv (st\<lparr>q_cr := x\<rparr>) = qp_inv st"
  by (simp add: qp_inv_def)

lemma qp_inv_newline: "qp_inv st \<Longrightarrow> qp_inv (qp_flush CRLF (check_last st))"
  using qp_inv_flush [of "check_last st" "[]"] by (simp add: qp_inv_check_last)

lemma qp_inv_literal:
  assumes "qp_inv st" and "printable c" and "c \<noteq> CR" and "c \<noteq> LF"
  shows "qp_inv (qp_put c st)"
proof -
  define st' where "st' = (if length (q_line st) = 75 then soft_break st else st)"
  have "qp_inv st'" using assms(1) by (simp add: st'_def qp_inv_soft_break)
  moreover have "length (q_line st') < 75" using assms(1) by (auto simp: st'_def qp_inv_def)
  ultimately have "qp_inv (st'\<lparr>q_line := q_line st' @ [c]\<rparr>)"
    using assms(2) by (intro qp_inv_line) simp_all
  then have "qp_inv (st'\<lparr>q_line := q_line st' @ [c], q_cr := False\<rparr>)"
    by (simp add: qp_inv_def)
  with assms(3,4) show ?thesis by (simp add: qp_put_def st'_def Let_def)
qed

lemma qp_inv_byte: "qp_inv st \<Longrightarrow> qp_inv (qp_byte c st)"
proof (cases "c = CR \<or> c = LF")
  case True
  then show "qp_inv st \<Longrightarrow> ?thesis" by (auto simp: qp_byte_def qp_put_def Let_def qp_inv_newline)
next
  case False
  then show "qp_inv st \<Longrightarrow> ?thesis"
    by (auto simp: qp_byte_def qp_literal_def blank_def printable_def qp_inv_hex
        intro!: qp_inv_literal)
qed

lemma qp_inv_fold: "qp_inv st \<Longrightarrow> qp_inv (fold qp_byte b st)"
  by (induction b arbitrary: st) (auto simp: qp_inv_byte)

text \<open>Every output is printable lines of at most 76 bytes, joined by CRLF.\<close>

lemma qp_encode_lines:
  obtains ls x where "qp_encode b = unlines ls @ x"
    and "list_all (\<lambda>l. length l \<le> 76 \<and> list_all printable l) (ls @ [x])"
proof -
  define st where "st = check_last (fold qp_byte b qp_start)"
  have inv: "qp_inv st"
    by (simp add: st_def qp_inv_check_last qp_inv_fold qp_inv_start)
  then obtain ls where "q_out st = unlines ls"
    "list_all (\<lambda>l. length l \<le> 76 \<and> list_all printable l) ls"
    by (auto simp: qp_inv_def)
  with inv that [of ls "q_line st"] show ?thesis
    by (auto simp: qp_encode_def st_def [symmetric] Let_def qp_inv_def)
qed

section \<open>The round trip\<close>

text \<open>\<open>qp_reads x y\<close>: the text \<open>x\<close> is a sequence of complete items (a literal byte, an escape, a
  soft line break) that stand for the bytes \<open>y\<close>.\<close>

inductive qp_reads :: "string \<Rightarrow> bytes \<Rightarrow> bool" where
  reads_nil: "qp_reads [] []"
| reads_literal: "qp_reads x y \<Longrightarrow> c \<noteq> CHR ''='' \<Longrightarrow> qp_reads (x @ [c]) (y @ [c])"
| reads_hex: "qp_reads x y \<Longrightarrow> qp_reads (x @ CHR ''='' # hex_byte c) (y @ [c])"
| reads_soft: "qp_reads x y \<Longrightarrow> qp_reads (x @ CHR ''='' # CRLF) y"

lemma hex_value_upper_hex: "n < 16 \<Longrightarrow> hex_value (upper_hex n) = Some n"
  by (simp add: hex_value_def byte_upper_hex)

lemma upper_hex_neq_CR: "n < 16 \<Longrightarrow> upper_hex n \<noteq> CR"
  using hex_value_upper_hex [of n] by (auto simp: hex_value_def)

lemma qp_decode_hex: "qp_decode (CHR ''='' # hex_byte c @ s) = map_option (Cons c) (qp_decode s)"
  by (simp add: hex_byte_def hex_value_upper_hex upper_hex_neq_CR div_mult_mod_eq
      del: of_char_mod_256)

lemma qp_reads_decode: "qp_reads x y \<Longrightarrow> qp_decode (x @ s) = map_option ((@) y) (qp_decode s)"
proof (induction arbitrary: s rule: qp_reads.induct)
  case (reads_hex x y c)
  then show ?case by (simp add: qp_decode_hex option.map_comp comp_def del: qp_decode.simps(2))
next
  case reads_nil
  show ?case by (cases "qp_decode s") simp_all
next
  case (reads_literal x y c)
  then show ?case by (cases "qp_decode s") simp_all
qed (simp_all add: option.map_comp comp_def)

lemma not_blank_upper_hex: "n < 16 \<Longrightarrow> \<not> blank (upper_hex n)"
  using hex_value_upper_hex [of n] by (auto simp: blank_def hex_value_def)

lemma qp_reads_blank: "qp_reads x y \<Longrightarrow> x = x' @ [d] \<Longrightarrow> blank d \<Longrightarrow>
    \<exists>y'. y = y' @ [d] \<and> qp_reads x' y'"
proof (induction rule: qp_reads.cases)
  case (reads_hex x y c)
  then show ?case by (auto simp: hex_byte_def not_blank_upper_hex simp del: of_char_mod_256)
next
  case (reads_soft x y)
  then show ?case by (auto simp: blank_def)
qed auto

definition qp_text :: "qp_state \<Rightarrow> string" where
  "qp_text st = q_out st @ q_line st"

lemma qp_reads_soft_break: "qp_reads (qp_text st) y \<Longrightarrow> qp_reads (qp_text (soft_break st)) y"
  using reads_soft [of "qp_text st" y] by (simp add: qp_text_def soft_break_def qp_flush_def)

lemma qp_reads_qp_hex: "qp_reads (qp_text st) y \<Longrightarrow> qp_reads (qp_text (qp_hex c st)) (y @ [c])"
  using reads_hex [of "qp_text st" y c] reads_hex [OF qp_reads_soft_break, of st y c]
  by (auto simp: qp_hex_def qp_text_def Let_def)

lemma qp_reads_check_last: "qp_reads (qp_text st) y \<Longrightarrow> qp_reads (qp_text (check_last st)) y"
proof (cases "q_line st \<noteq> [] \<and> blank (last (q_line st))")
  case True
  let ?st = "st\<lparr>q_line := butlast (q_line st)\<rparr>"
  assume "qp_reads (qp_text st) y"
  moreover have "qp_text st = qp_text ?st @ [last (q_line st)]"
    using True by (simp add: qp_text_def)
  ultimately obtain y' where "y = y' @ [last (q_line st)]" and "qp_reads (qp_text ?st) y'"
    using qp_reads_blank True by blast
  with True show ?thesis by (simp add: check_last_def qp_reads_qp_hex)
next
  case False
  assume "qp_reads (qp_text st) y"
  with False show ?thesis unfolding check_last_def by (simp only: if_False)
qed

lemma qp_reads_newline:
  assumes "qp_reads (qp_text st) y"
  shows "qp_reads (qp_text (qp_flush CRLF (check_last st))) (y @ CRLF)"
proof -
  have "qp_reads (qp_text (check_last st) @ [CR] @ [LF]) (y @ [CR] @ [LF])"
    using qp_reads_check_last [OF assms] reads_literal [of "qp_text (check_last st)" y CR]
      reads_literal [of "qp_text (check_last st) @ [CR]" "y @ [CR]" LF] by simp
  then show ?thesis by (simp add: qp_text_def qp_flush_def)
qed

lemma qp_reads_put:
  assumes "qp_reads (qp_text st) y" and "c \<noteq> CR" "c \<noteq> LF" "c \<noteq> CHR ''=''"
  shows "qp_reads (qp_text (qp_put c st)) (y @ [c])"
  using assms reads_literal [of "qp_text st" y c] reads_literal [OF qp_reads_soft_break, of st y c]
  by (auto simp: qp_put_def Let_def qp_text_def)

text \<open>
  Text in CRLF form is read back as it is: each CRLF pair is one line break of the writer, and
  the CR flag is down between the pairs.
\<close>

lemma q_cr_simps [simp]:
  "q_cr (qp_hex c st) = q_cr st" "q_cr (check_last st) = q_cr st" "q_cr (qp_flush e st) = q_cr st"
  by (auto simp: qp_hex_def check_last_def qp_flush_def Let_def)

lemma q_text_cr [simp]: "qp_text (st\<lparr>q_cr := x\<rparr>) = qp_text st"
  by (simp add: qp_text_def)

lemma qp_byte_CRLF:
  "\<not> q_cr st \<Longrightarrow> qp_byte LF (qp_byte CR st) = qp_flush CRLF (check_last st)"
  by (cases "qp_flush CRLF (check_last st)")
     (auto simp: qp_byte_def qp_put_def Let_def dest!: arg_cong [where f = q_cr])

lemma qp_reads_byte:
  assumes "qp_reads (qp_text st) y" and "c \<noteq> CR" "c \<noteq> LF"
  shows "qp_reads (qp_text (qp_byte c st)) (y @ [c])"
proof (cases "qp_literal c \<or> blank c")
  case True
  then have "c \<noteq> CHR ''=''" by (auto simp: qp_literal_def blank_def)
  with True assms show ?thesis by (simp add: qp_byte_def qp_reads_put)
next
  case False
  with assms show ?thesis by (simp add: qp_byte_def qp_reads_qp_hex)
qed

lemma qp_byte_cr: "\<not> q_cr st \<Longrightarrow> c \<noteq> CR \<Longrightarrow> c \<noteq> LF \<Longrightarrow> \<not> q_cr (qp_byte c st)"
  by (simp add: qp_byte_def qp_put_def Let_def)

lemma qp_reads_fold:
  "in_crlf_form s \<Longrightarrow> qp_reads (qp_text st) y \<Longrightarrow> \<not> q_cr st
    \<Longrightarrow> qp_reads (qp_text (fold qp_byte s st)) (y @ s)"
proof (induction s arbitrary: st y rule: in_crlf_form.induct)
  case (2 c)
  then show ?case by (simp add: qp_reads_byte)
next
  case (3 c d s)
  show ?case
  proof (cases "c = CR")
    case True
    then have "d = LF" "in_crlf_form s" using 3 by auto
    moreover have "fold qp_byte (CR # LF # s) st = fold qp_byte s (qp_flush CRLF (check_last st))"
      using 3 by (simp add: qp_byte_CRLF)
    ultimately show ?thesis
      using 3(1) [OF True, of "qp_flush CRLF (check_last st)" "y @ CRLF"] 3 True
      by (simp add: qp_reads_newline)
  next
    case False
    then have "c \<noteq> LF" "in_crlf_form (d # s)" using 3 by auto
    then show ?thesis
      using 3(2) [OF False, of "qp_byte c st" "y @ [c]"] 3 False
      by (simp add: qp_reads_byte qp_byte_cr del: in_crlf_form.simps)
  qed
qed simp

lemma qp_decode_encode: "in_crlf_form b \<Longrightarrow> qp_decode (qp_encode b) = Some b"
proof -
  assume "in_crlf_form b"
  then have "qp_reads (qp_text (check_last (fold qp_byte b qp_start))) ([] @ b)"
    by (intro qp_reads_check_last qp_reads_fold)
       (simp_all add: qp_start_def qp_text_def qp_reads.intros)
  from qp_reads_decode [OF this, of "[]"] show ?thesis
    by (simp add: qp_encode_def qp_text_def Let_def)
qed

lemma unlines_ascii: "list_all ascii ls \<Longrightarrow> ascii (unlines ls)"
  by (induction ls) auto

lemma qp_encode_ascii: "ascii (qp_encode b)"
proof (rule qp_encode_lines [of b])
  fix ls x
  assume eq: "qp_encode b = unlines ls @ x"
    and l: "list_all (\<lambda>l. length l \<le> 76 \<and> list_all printable l) (ls @ [x])"
  then have "list_all ascii ls" "ascii x"
    by (auto simp: list_all_iff printable_ascii)
  then show ?thesis by (simp add: eq unlines_ascii)
qed

lemma qp_encode_in_crlf_form: "in_crlf_form (qp_encode b)"
proof (rule qp_encode_lines [of b])
  fix ls x
  assume eq: "qp_encode b = unlines ls @ x"
    and l: "list_all (\<lambda>l. length l \<le> 76 \<and> list_all printable l) (ls @ [x])"
  then have "list_all no_newline ls" "no_newline x"
    by (auto simp: list_all_iff printable_no_newline)
  then show ?thesis
    by (simp add: eq in_crlf_form_unlines in_crlf_form_append no_newline_in_crlf_form)
qed

interpretation quoted_printable: transfer_codec qp_encode qp_decode in_crlf_form
  by unfold_locales (simp_all add: qp_decode_encode qp_encode_ascii)

end
