(* ===== verification/Mailer_Encoding.thy ===== *)
theory Mailer_Encoding
  imports Go_Quoted_Printable
begin

text \<open>
  \<^verbatim>\<open>pkg/mailer/encoding.go\<close>: how the bytes of a part are prepared for transport. The code's
  \<open>int\<close> counters are numbers of bytes held in memory, so they are \<open>nat\<close> here.
\<close>

section \<open>Header values\<close>

definition encodedHeaderVal :: "string \<Rightarrow> string" where
  "encodedHeaderVal v = q_encode v"

section \<open>The size estimate for quoted-printable\<close>

definition isSafe :: "char \<Rightarrow> bool" where
  "isSafe c \<longleftrightarrow> (0x20 \<le> byte c \<and> byte c \<le> 0x7E \<and> c \<noteq> CHR ''='') \<or> c = TAB \<or> c = CR \<or> c = LF"

text \<open>One round of the loop, on the size so far and the length of the current line.\<close>

definition estimate_step :: "char \<Rightarrow> nat \<times> nat \<Rightarrow> nat \<times> nat" where
  "estimate_step c st = (let (size, cur) = st; charLen = (if isSafe c then 1 else 3) in
     if c = LF then (size + charLen, 0)
     else let (size, cur) = (if 75 < cur + charLen then (size + 3, 0) else (size, cur))
       in (size + charLen, cur + charLen))"

definition estimateQuotedPrintableSize :: "bytes \<Rightarrow> nat" where
  "estimateQuotedPrintableSize content = fst (fold estimate_step content (0, 0))"

section \<open>Which bytes may go out unencoded\<close>

definition contentTypeRequires7or8Bit :: "string \<Rightarrow> bool" where
  "contentTypeRequires7or8Bit contentType \<longleftrightarrow>
     has_prefix contentType ''message/'' \<or> has_prefix contentType ''multipart/''"

definition bad_control :: "rune \<Rightarrow> bool" where
  "bad_control r \<longleftrightarrow> (r < 0x20 \<and> r \<noteq> 0x09 \<and> r \<noteq> 0x0A \<and> r \<noteq> 0x0D) \<or> r = 0x7F"

text \<open>The loop over the runes, with its early \<open>break\<close>: (\<open>isASCII\<close>, \<open>hasBadControls\<close>).\<close>

fun scan_runes :: "bool \<times> bool \<Rightarrow> rune list \<Rightarrow> bool \<times> bool" where
  "scan_runes st [] = st"
| "scan_runes (isASCII, hasBad) (r # rs) =
     (let isASCII = (if 128 \<le> r then False else isASCII);
          hasBad = (if bad_control r then True else hasBad)
      in if \<not> isASCII \<and> hasBad then (isASCII, hasBad) else scan_runes (isASCII, hasBad) rs)"

definition isAcceptable7or8Bit :: "bytes \<Rightarrow> bool \<times> bool" where
  "isAcceptable7or8Bit b =
     (if \<not> valid_utf8 b then (False, False)
      else let (isASCII, hasBadControls) = scan_runes (True, False) (runes b);
               needSoftNewLines = list_ex (\<lambda>chunk. 998 < length chunk) (lines b)
        in (isASCII \<and> \<not> hasBadControls \<and> \<not> needSoftNewLines,
            \<not> hasBadControls \<and> \<not> needSoftNewLines))"

section \<open>Choosing the transfer encoding\<close>

function wrap76 :: "string \<Rightarrow> string" where
  "wrap76 enc = (if 76 < length enc then take 76 enc @ [LF] @ wrap76 (drop 76 enc) else enc)"
  by pat_completeness auto
termination by (relation "measure length") auto

declare wrap76.simps [simp del]

definition estimateBase64 :: "bytes \<Rightarrow> nat" where
  "estimateBase64 b = (let raw = 4 * ((length b + 2) div 3) in raw + (1 + raw div 76))"

text \<open>The encoded bytes and the value of Content-Transfer-Encoding.\<close>

definition encodeBytes :: "bool \<Rightarrow> bytes \<Rightarrow> string \<times> string" where
  "encodeBytes has8BitMimeSupport b =
     (let (isAcceptable7Bit, isAcceptable8Bit) = isAcceptable7or8Bit b in
      if isAcceptable7Bit then (b, ''7bit'')
      else if isAcceptable8Bit \<and> has8BitMimeSupport then (b, ''8bit'')
      else if estimateQuotedPrintableSize b \<le> estimateBase64 b
        then (qp_encode b, ''quoted-printable'')
      else (wrap76 (b64_encode b), ''base64''))"

section \<open>The loop over the runes computes what its flags say\<close>

lemma scan_runes_flags:
  "scan_runes (a, h) rs = (a', h') \<Longrightarrow>
    (a' \<and> \<not> h' \<longleftrightarrow> (a \<and> list_all (\<lambda>r. r < 128) rs) \<and> \<not> (h \<or> list_ex bad_control rs))
    \<and> (h' \<longleftrightarrow> h \<or> list_ex bad_control rs)"
  by (induction rs arbitrary: a h) (auto simp: Let_def split: if_splits)

lemma not_bad_control_high: "0x80 \<le> r \<Longrightarrow> \<not> bad_control r"
  by (simp add: bad_control_def)

definition clean_byte :: "char \<Rightarrow> bool" where
  "clean_byte c \<longleftrightarrow> \<not> bad_control (byte c)"

lemma bad_control_runes: "list_ex bad_control (runes b) \<longleftrightarrow> \<not> list_all clean_byte b"
proof -
  have "list_all (\<lambda>r. \<not> bad_control r) (runes b) \<longleftrightarrow> list_all (\<lambda>c. \<not> bad_control (byte c)) b"
    by (rule runes_pass_high) (rule not_bad_control_high)
  then show ?thesis unfolding clean_byte_def list_all_iff list_ex_iff by blast
qed

lemma ascii_runes: "list_all (\<lambda>r. r < 128) (runes b) \<longleftrightarrow> ascii b"
  unfolding ascii_def by (rule runes_fail_high) simp

definition short_lines :: "nat \<Rightarrow> string \<Rightarrow> bool" where
  "short_lines n s \<longleftrightarrow> list_all (\<lambda>l. length l \<le> n) (lines s)"

lemma isAcceptable_spec:
  "isAcceptable7or8Bit b =
     (ascii b \<and> list_all clean_byte b \<and> short_lines 998 b,
      valid_utf8 b \<and> list_all clean_byte b \<and> short_lines 998 b)"
proof -
  obtain a h where sc: "scan_runes (True, False) (runes b) = (a, h)" by fastforce
  from scan_runes_flags [OF this] have
    "a \<and> \<not> h \<longleftrightarrow> ascii b \<and> list_all clean_byte b" "h \<longleftrightarrow> \<not> list_all clean_byte b"
    by (auto simp: ascii_runes bad_control_runes)
  moreover have "list_ex (\<lambda>chunk. 998 < length chunk) (lines b) \<longleftrightarrow> \<not> short_lines 998 b"
    by (simp add: short_lines_def list_all_iff list_ex_iff not_le)
  ultimately show ?thesis
    using ascii_valid_utf8 [of b] by (auto simp: isAcceptable7or8Bit_def sc)
qed

lemma isAcceptable7_imp_8: "fst (isAcceptable7or8Bit b) \<Longrightarrow> snd (isAcceptable7or8Bit b)"
  by (simp add: isAcceptable_spec ascii_valid_utf8)

section \<open>What a receiver gets back\<close>

text \<open>The receiver's side of Content-Transfer-Encoding: 7bit, 8bit and binary are the identity.\<close>

definition decode_transfer :: "string \<Rightarrow> string \<Rightarrow> bytes option" where
  "decode_transfer cte s = (if cte = ''quoted-printable'' then qp_decode s
      else if cte = ''base64'' then b64_decode s else Some s)"

abbreviation not_newline :: "char \<Rightarrow> bool" where
  "not_newline c \<equiv> c \<noteq> CR \<and> c \<noteq> LF"

lemma filter_wrap76: "filter not_newline (wrap76 e) = filter not_newline e"
proof (induction e rule: wrap76.induct)
  case (1 e)
  show ?case
  proof (cases "76 < length e")
    case True
    have "filter not_newline (wrap76 e)
        = filter not_newline (take 76 e) @ filter not_newline (drop 76 e)"
      using 1 [OF True] True by (subst wrap76.simps) simp
    then show ?thesis by (metis append_take_drop_id filter_append)
  qed (simp add: wrap76.simps)
qed

lemma filter_crlf_form: "filter not_newline (crlf_form s) = filter not_newline s"
  by (induction s rule: crlf_form.induct) auto

lemma b64_decode_wrapped: "b64_decode (crlf_form (wrap76 (b64_encode b))) = Some b"
  by (simp add: b64_decode_def filter_crlf_form filter_wrap76 b64_encode_filter b64_groups_encode)

lemma no_newline_take_drop: "no_newline s \<Longrightarrow> no_newline (take n s)" "no_newline s \<Longrightarrow> no_newline (drop n s)"
  by (auto simp: no_newline_def list_all_iff dest: in_set_takeD in_set_dropD)

lemma wrap76_short_lines: "no_newline e \<Longrightarrow> short_lines 76 (crlf_form (wrap76 e))"
proof (induction e rule: wrap76.induct)
  case (1 e)
  show ?case
  proof (cases "76 < length e")
    case True
    with 1 have "short_lines 76 (crlf_form (wrap76 (drop 76 e)))"
      by (simp add: no_newline_take_drop)
    moreover have "crlf_form (wrap76 e) = take 76 e @ CRLF @ crlf_form (wrap76 (drop 76 e))"
      using True 1(2) by (subst wrap76.simps) (simp add: crlf_form_line no_newline_take_drop)
    ultimately show ?thesis
      using lines_line_append [OF no_newline_take_drop(1) [OF 1(2), of 76]]
      by (simp add: short_lines_def)
  next
    case False
    then have "wrap76 e = e" by (simp add: wrap76.simps)
    with False 1(2) show ?thesis
      by (simp add: crlf_form_id no_newline_in_crlf_form short_lines_def lines_no_newline)
  qed
qed

lemma wrap76_ascii: "ascii e \<Longrightarrow> ascii (wrap76 e)"
proof (induction e rule: wrap76.induct)
  case (1 e)
  then show ?case
    by (subst wrap76.simps)
       (auto simp: ascii_def list_all_iff dest: in_set_takeD in_set_dropD)
qed

lemma b64_encode_no_newline: "no_newline (b64_encode b)"
  using b64_encode_chars [of b] by (auto simp: no_newline_def list_all_iff b64_char_def)

lemma qp_encode_short_lines: "short_lines 76 (qp_encode b)"
  by (rule qp_encode_lines [of b])
     (auto simp: short_lines_def lines_unlines list_all_iff printable_no_newline)

lemma short_lines_mono: "short_lines m s \<Longrightarrow> m \<le> n \<Longrightarrow> short_lines n s"
  by (auto simp: short_lines_def list_all_iff)

text \<open>The four ways out of \<open>encodeBytes\<close>.\<close>

lemma encodeBytes_cases [consumes 1, case_names seven eight qp b64]:
  assumes "encodeBytes m b = (s, cte)"
  obtains "s = b" "cte = ''7bit''" "ascii b" "list_all clean_byte b" "short_lines 998 b"
  | "s = b" "cte = ''8bit''" "m" "valid_utf8 b" "list_all clean_byte b" "short_lines 998 b"
  | "s = qp_encode b" "cte = ''quoted-printable''"
      "estimateQuotedPrintableSize b \<le> estimateBase64 b"
  | "s = wrap76 (b64_encode b)" "cte = ''base64''"
      "estimateBase64 b < estimateQuotedPrintableSize b"
proof -
  define seven where "seven \<longleftrightarrow> ascii b \<and> list_all clean_byte b \<and> short_lines 998 b"
  define eight where "eight \<longleftrightarrow> valid_utf8 b \<and> list_all clean_byte b \<and> short_lines 998 b"
  have "isAcceptable7or8Bit b = (seven, eight)"
    by (simp add: isAcceptable_spec seven_def eight_def)
  then have eq: "(s, cte) = (if seven then (b, ''7bit'') else if eight \<and> m then (b, ''8bit'')
      else if estimateQuotedPrintableSize b \<le> estimateBase64 b
        then (qp_encode b, ''quoted-printable'') else (wrap76 (b64_encode b), ''base64''))"
    using assms by (simp add: encodeBytes_def)
  consider seven | "\<not> seven" "eight" "m"
    | "\<not> seven" "\<not> (eight \<and> m)" "estimateQuotedPrintableSize b \<le> estimateBase64 b"
    | "\<not> seven" "\<not> (eight \<and> m)" "\<not> estimateQuotedPrintableSize b \<le> estimateBase64 b"
    by blast
  then show thesis
  proof cases
    case 1
    with eq that(1) show ?thesis by (simp add: seven_def)
  next
    case 2
    with eq have "s = b" "cte = ''8bit''" by simp_all
    with 2 that(2) show ?thesis by (simp add: eight_def)
  next
    case 3
    with eq that(3) show ?thesis by auto
  next
    case 4
    with eq that(4) show ?thesis by auto
  qed
qed

text \<open>Without 8BITMIME, whatever the input: US-ASCII, and a 7-bit encoding is named.\<close>

lemma encodeBytes_7bit:
  assumes "encodeBytes False b = (s, cte)"
  shows "ascii s" and "cte \<in> {''7bit'', ''quoted-printable'', ''base64''}"
proof -
  have "ascii s \<and> cte \<in> {''7bit'', ''quoted-printable'', ''base64''}"
    using assms
    by (cases rule: encodeBytes_cases) (simp_all add: qp_encode_ascii wrap76_ascii ascii_b64_encode)
  then show "ascii s" and "cte \<in> {''7bit'', ''quoted-printable'', ''base64''}" by simp_all
qed

lemma encodeBytes_decode:
  assumes "encodeBytes m b = (s, cte)" and "in_crlf_form b"
  shows "decode_transfer cte (crlf_form s) = Some b"
  using assms
  by (cases rule: encodeBytes_cases)
     (simp_all add: decode_transfer_def crlf_form_id qp_encode_in_crlf_form qp_decode_encode
        b64_decode_wrapped)

lemma encodeBytes_short_lines:
  assumes "encodeBytes m b = (s, cte)" and "in_crlf_form b"
  shows "short_lines 998 (crlf_form s)"
proof -
  have qp: "short_lines 998 (qp_encode b)"
    by (rule short_lines_mono [OF qp_encode_short_lines]) simp
  have b64: "short_lines 998 (crlf_form (wrap76 (b64_encode b)))"
    by (rule short_lines_mono [OF wrap76_short_lines [OF b64_encode_no_newline]]) simp
  from assms(1) show ?thesis
    using assms(2) qp b64
    by (cases rule: encodeBytes_cases) (simp_all add: crlf_form_id qp_encode_in_crlf_form)
qed

text \<open>Base64 is chosen only where its estimate is the smaller one, and its output keeps to it.\<close>

lemma length_wrap76: "length (wrap76 e) = length e + (length e - 1) div 76"
proof (induction e rule: wrap76.induct)
  case (1 e)
  show ?case
  proof (cases "76 < length e")
    case True
    then obtain n where n: "length e = n + 77" by (metis le_add_diff_inverse2 Suc_leI Suc_numeral
      semiring_norm(5) semiring_norm(8))
    have "length (wrap76 e) = 76 + 1 + length (wrap76 (drop 76 e))"
      using True by (subst wrap76.simps) simp
    also have "\<dots> = 77 + (length e - 76 + (length e - 76 - 1) div 76)"
      using 1 [OF True] by simp
    also have "\<dots> = length e + (length e - 1) div 76"
      using n by simp
    finally show ?thesis .
  next
    case False
    then show ?thesis by (simp add: wrap76.simps)
  qed
qed

lemma base64_within_estimate: "length (wrap76 (b64_encode b)) \<le> estimateBase64 b"
proof -
  have "(n - 1) div 76 \<le> 1 + n div 76" for n :: nat
    by (rule le_trans [OF div_le_mono [of "n - 1" n]]) simp_all
  then show ?thesis
    by (simp add: length_wrap76 length_b64_encode estimateBase64_def Let_def)
qed

end
