(* ===== verification/Mailer_Part.thy ===== *)
theory Mailer_Part
  imports Mailer_Encoding Go_Media_Type
begin

text \<open>
  \<^verbatim>\<open>pkg/mailer/part.go\<close>, with the header checks of \<^verbatim>\<open>pkg/mailer/mail.go\<close> that it calls: the
  body of a mail as a tree of parts, its validation and its encoding.
\<close>

section \<open>Header fields\<close>

record header =
  Key :: string
  Value :: string

definition key_rune_bad :: "rune \<Rightarrow> bool" where
  "key_rune_bad r \<longleftrightarrow> r \<le> 0x20 \<or> 0x7F \<le> r \<or> r = 0x3A"

text \<open>\<open>ValidateHeaderKey\<close> and \<open>ValidateHeaderVal\<close>: \<open>True\<close> is the nil error.\<close>

definition ValidateHeaderKey :: "string \<Rightarrow> bool" where
  "ValidateHeaderKey headerKey \<longleftrightarrow> \<not> list_ex key_rune_bad (runes headerKey)"

definition ValidateHeaderVal :: "string \<Rightarrow> bool" where
  "ValidateHeaderVal headerVal \<longleftrightarrow> \<not> list_ex is_control (runes headerVal)"

lemma ValidateHeaderKey_bytes:
  "ValidateHeaderKey k \<longleftrightarrow> list_all (\<lambda>c. 0x20 < byte c \<and> byte c < 0x7F \<and> byte c \<noteq> 0x3A) k"
proof -
  have "list_all (\<lambda>r. \<not> key_rune_bad r) (runes k) \<longleftrightarrow> list_all (\<lambda>c. \<not> key_rune_bad (byte c)) k"
    by (rule runes_fail_high) (simp add: key_rune_bad_def)
  moreover have "\<not> list_ex key_rune_bad (runes k) \<longleftrightarrow> list_all (\<lambda>r. \<not> key_rune_bad r) (runes k)"
    by (simp add: list_all_iff list_ex_iff)
  ultimately show ?thesis
    by (simp add: ValidateHeaderKey_def key_rune_bad_def not_le)
qed

lemma ValidateHeaderKey_no_newline: "ValidateHeaderKey k \<Longrightarrow> no_newline k"
  by (auto simp: ValidateHeaderKey_bytes no_newline_def list_all_iff)

lemma ValidateHeaderVal_no_control:
  assumes "ValidateHeaderVal v"
  shows "list_all (\<lambda>c. 0x20 \<le> byte c \<and> byte c \<noteq> 0x7F) v"
proof -
  have "list_all (\<lambda>r. 0x20 \<le> r \<and> r \<noteq> 0x7F) (runes v)"
    using assms by (auto simp: ValidateHeaderVal_def is_control_def list_all_iff list_ex_iff not_less)
  then show ?thesis by (subst (asm) runes_pass_high) auto
qed

lemma ValidateHeaderVal_no_newline: "ValidateHeaderVal v \<Longrightarrow> no_newline v"
  by (drule ValidateHeaderVal_no_control) (auto simp: no_newline_def list_all_iff)

section \<open>Parts\<close>

text \<open>
  A value of the interface \<open>Part\<close> is nil (\<open>NoPart\<close>) or one of its three implementations.
  (Parts held through a pointer, as in some tests, are not modelled.)
\<close>

datatype part =
    NoPart
  | Text string
  | Binary bytes
  | Multipart "child list"
and child = Child (ChildContentType: string) (ChildHeaders: "header list") (ChildPart: part)

fun is_multipart :: "part \<Rightarrow> bool" where
  "is_multipart (Multipart _) = True"
| "is_multipart _ = False"

datatype part_error =
    Not_7Bit string             \<comment> \<open>the content type asks for 7bit or 8bit\<close>
  | Invalid_Utf8
  | Bad_Media_Type string
  | Bad_Boundary string
  | Not_Multipart_Type string
  | Bad_Header_Key string
  | Bad_Header_Value string
  | Child_Sets_Content_Type

text \<open>Reading \<open>params["boundary"]\<close>; a nil map reads as an empty one.\<close>

definition param :: "params option \<Rightarrow> string \<Rightarrow> string option" where
  "param ps k = (case ps of None \<Rightarrow> None | Some m \<Rightarrow> map_of m k)"

section \<open>Validation\<close>

text \<open>The checks on one header of a child, each followed by \<open>continue\<close>.\<close>

definition child_header_errors :: "header \<Rightarrow> part_error list" where
  "child_header_errors h =
     (if \<not> ValidateHeaderKey (Key h) then [Bad_Header_Key (Key h)]
      else if \<not> ValidateHeaderVal (Value h) then [Bad_Header_Value (Value h)]
      else if canonical_key (Key h) = ''Content-Type'' then [Child_Sets_Content_Type]
      else [])"

definition multipart_type_errors :: "part \<Rightarrow> string \<Rightarrow> params option \<Rightarrow> part_error list" where
  "multipart_type_errors p mt ps =
     (if is_multipart p then
        (case param ps ''boundary'' of
           Some b \<Rightarrow> if boundary_ok b then [] else [Bad_Boundary b]
         | None \<Rightarrow> [])
        @ (if has_prefix mt ''multipart/'' then [] else [Not_Multipart_Type mt])
      else [])"

definition Text_validate :: "string \<Rightarrow> string \<Rightarrow> (part_error list, unit) outcome" where
  [simp]: "Text_validate t contentType =
     (if contentTypeRequires7or8Bit contentType \<and> \<not> fst (isAcceptable7or8Bit t)
      then Err [Not_7Bit contentType]
      else if \<not> valid_utf8 t then Err [Invalid_Utf8] else Ok ())"

definition Binary_validate :: "bytes \<Rightarrow> string \<Rightarrow> (part_error list, unit) outcome" where
  [simp]: "Binary_validate b contentType =
     (if contentTypeRequires7or8Bit contentType \<and> \<not> fst (isAcceptable7or8Bit b)
      then Err [Not_7Bit contentType] else Ok ())"

text \<open>
  \<open>validate\<close> of the three implementations; the call on a nil \<open>Part\<close> panics. The errors of a
  \<open>Multipart\<close> are joined, so they are one list here and the empty list is the nil error.
\<close>

fun validate :: "part \<Rightarrow> string \<Rightarrow> (part_error list, unit) outcome"
  and child_errors :: "child \<Rightarrow> (part_error list, part_error list) outcome" where
  "validate NoPart contentType = Panic Nil_Deref"
| "validate (Text t) contentType = Text_validate t contentType"
| "validate (Binary b) contentType = Binary_validate b contentType"
| "validate (Multipart children) contentType =
     obind (traverse child_errors children)
       (\<lambda>ess. if concat ess = [] then Ok () else Err (concat ess))"
| "child_errors (Child ct hs p) =
     (case parse_media_type ct of
        (mt, ps, Some _) \<Rightarrow> Ok [Bad_Media_Type ct]
      | (mt, ps, None) \<Rightarrow>
          (let errs = multipart_type_errors p mt ps @ concat (map child_header_errors hs) in
           case validate p ct of
             Ok _ \<Rightarrow> Ok errs
           | Err es \<Rightarrow> Ok (errs @ es)
           | Panic x \<Rightarrow> Panic x))"

section \<open>Encoding\<close>

record encodedPart =
  content :: string
  contentTransferEncoding :: string
  contentType :: string

text \<open>A \<open>textproto.MIMEHeader\<close>: its pairs in the order they were added. It is printed by key
  (and by age where keys agree), so the order of the map does not matter.\<close>

type_synonym mime_header = "(string \<times> string) list"

definition mime_add :: "string \<Rightarrow> string \<Rightarrow> mime_header \<Rightarrow> mime_header" where
  "mime_add k v h = h @ [(canonical_key k, v)]"

definition mime_set :: "string \<Rightarrow> string \<Rightarrow> mime_header \<Rightarrow> mime_header" where
  "mime_set k v h = filter (\<lambda>p. fst p \<noteq> canonical_key k) h @ [(canonical_key k, v)]"

definition header_lines :: "mime_header \<Rightarrow> string" where
  "header_lines h = concat (map (\<lambda>(k, v). k @ '': '' @ v @ CRLF) (sort_key fst h))"

text \<open>What \<open>multipart.Writer\<close> writes for its parts and on \<open>Close\<close>.\<close>

definition multipart_part :: "string \<Rightarrow> mime_header \<times> string \<Rightarrow> string" where
  "multipart_part boundary p = ''--'' @ boundary @ CRLF @ header_lines (fst p) @ CRLF @ snd p"

definition multipart_body :: "string \<Rightarrow> (mime_header \<times> string) list \<Rightarrow> string" where
  "multipart_body boundary parts =
     join CRLF (map (multipart_part boundary) parts) @ CRLF @ ''--'' @ boundary @ ''--'' @ CRLF"

definition child_mime_header :: "header list \<Rightarrow> encodedPart \<Rightarrow> mime_header" where
  "child_mime_header hs e =
     mime_set ''Content-Type'' (contentType e)
       (mime_set ''Content-Transfer-Encoding'' (contentTransferEncoding e)
         (fold (\<lambda>h. mime_add (canonical_key (Key h)) (Value h)) hs []))"

definition leaf_encode :: "bool \<Rightarrow> bytes \<Rightarrow> string \<Rightarrow> encodedPart" where
  "leaf_encode m b ct = (let (body, cte) = encodeBytes m b in
     \<lparr>content = body, contentTransferEncoding = cte, contentType = ct\<rparr>)"

text \<open>
  The boundary of the writer: the one of the content type (\<open>SetBoundary\<close>, whose error is
  ignored, so that an invalid one leaves the random one in place), else the random one; and
  the parameters with the boundary, where writing to the nil map is a panic (\<open>None\<close>).
\<close>

definition writer_boundary :: "string \<Rightarrow> params option \<Rightarrow> string" where
  "writer_boundary random ps = (case param ps ''boundary'' of
      Some b \<Rightarrow> if boundary_ok b then b else random
    | None \<Rightarrow> random)"

definition boundary_params :: "string \<Rightarrow> params option \<Rightarrow> params option" where
  "boundary_params random ps = (case param ps ''boundary'' of
      Some _ \<Rightarrow> ps
    | None \<Rightarrow> map_option (AList.update ''boundary'' random) ps)"

lemma size_child_less: "c \<in> set cs \<Longrightarrow> size c < Suc (size_list size cs)"
  by (induction cs) auto

text \<open>
  \<open>encode\<close> of the three implementations. \<open>rb\<close> is the outcome of the random boundaries: each
  \<open>multipart.NewWriter\<close> draws one, and \<open>rb path\<close> is what the writer of the part at \<open>path\<close> (the
  indices of the children from the root) draws; the theorems hold for every \<open>rb\<close>.
\<close>

text \<open>\<open>encode\<close> of a text, which switches to CRLF line ends, and of bytes, which does not.\<close>

definition Text_encode :: "bool \<Rightarrow> string \<Rightarrow> string \<Rightarrow> encodedPart" where
  [simp]: "Text_encode m t ct = leaf_encode m (normalize_newlines t) ct"

function encode :: "(nat list \<Rightarrow> string) \<Rightarrow> part \<Rightarrow> string \<Rightarrow> bool \<Rightarrow> ('e, encodedPart) outcome"
  and encode_child :: "(nat list \<Rightarrow> string) \<Rightarrow> child \<Rightarrow> bool \<Rightarrow> ('e, mime_header \<times> string) outcome"
where
  "encode rb NoPart ct m = Panic Nil_Deref"
| "encode rb (Text t) ct m = Ok (Text_encode m t ct)"
| "encode rb (Binary b) ct m = Ok (leaf_encode m b ct)"
| "encode rb (Multipart cs) ct m =
     (let (mt, ps, _) = parse_media_type ct in
      case boundary_params (rb []) ps of
        None \<Rightarrow> Panic Nil_Map_Write
      | Some ps' \<Rightarrow>
        obind (traverse (\<lambda>(i, c). encode_child (\<lambda>path. rb (i # path)) c m) (List.enumerate 0 cs))
          (\<lambda>parts. Ok \<lparr>content = multipart_body (writer_boundary (rb []) ps) parts,
             contentTransferEncoding = (if m then ''8bit'' else ''7bit''),
             contentType = format_media_type mt ps'\<rparr>))"
| "encode_child rb (Child ct hs p) m =
     obind (encode rb p ct m) (\<lambda>e. Ok (child_mime_header hs e, content e))"
  by pat_completeness auto

termination
  by (relation "measure (case_sum (\<lambda>(_, p, _, _). size p) (\<lambda>(_, c, _). size c))")
     (auto simp: in_set_enumerate_eq size_child_less)

lemma writer_boundary_cases: "writer_boundary r ps = r \<or> boundary_ok (writer_boundary r ps)"
  by (auto simp: writer_boundary_def split: option.splits)

lemma boundary_params_None: "boundary_params r ps = None \<longleftrightarrow> ps = None"
  by (auto simp: boundary_params_def param_def split: option.splits)

section \<open>Validated parts encode without a panic\<close>

lemma traverse_Ok_Nil:
  "traverse f xs = Ok ess \<Longrightarrow> concat ess = [] \<Longrightarrow> x \<in> set xs \<Longrightarrow> f x = Ok []"
  by (induction xs arbitrary: ess) (auto simp: outcome_simps(1))

lemma child_errors_not_Err: "child_errors c \<noteq> Err es"
  by (cases c) (auto simp: Let_def split: prod.splits option.splits outcome.splits)

lemma traverse_not_Err: "(\<And>x. x \<in> set xs \<Longrightarrow> f x \<noteq> Err e) \<Longrightarrow> traverse f xs \<noteq> Err e"
  by (induction xs) (auto simp: outcome_simps)

lemma validate_Err: "validate p ct = Err es \<Longrightarrow> es \<noteq> []"
  by (cases p) (auto simp: obind_eq_Err child_errors_not_Err traverse_not_Err split: if_splits)

lemma encode_no_panic:
  "validate p ct = Ok u \<Longrightarrow> (is_multipart p \<longrightarrow> fst (snd (parse_media_type ct)) \<noteq> None)
    \<Longrightarrow> \<not> panics (encode rb p ct m :: ('e, encodedPart) outcome)"
  and encode_child_no_panic:
  "child_errors c = Ok [] \<Longrightarrow> \<not> panics (encode_child rb c m :: ('e, mime_header \<times> string) outcome)"
proof (induction p ct and c arbitrary: u rb and rb rule: validate_child_errors.induct)
  case (1 ct)
  then show ?case by simp
next
  case (4 cs ct)
  from 4(2) have errs: "child_errors c = Ok []" if "c \<in> set cs" for c
    using traverse_Ok_Nil [OF _ _ that] by (auto simp: obind_eq_Ok split: if_splits)
  have enc: "\<not> panics (encode_child rb' c m :: ('e, mime_header \<times> string) outcome)" if "c \<in> set cs" for c rb'
    using 4(1) [OF that errs [OF that]] .
  have "\<not> panics (traverse (\<lambda>(i, c). encode_child (\<lambda>path. rb (i # path)) c m) (List.enumerate 0 cs)
      :: ('e, (mime_header \<times> string) list) outcome)"
    by (rule traverse_no_panic) (auto simp: in_set_enumerate_eq enc)
  with 4(3) show ?case
    by (auto simp: boundary_params_None split: option.splits prod.splits)
next
  case (5 ct hs p)
  from 5(2) obtain mt ps where pm: "parse_media_type ct = (mt, ps, None)"
    by (auto split: prod.splits option.splits)
  moreover from 5(2) pm have val: "validate p ct = Ok ()"
    by (auto simp: Let_def dest: validate_Err split: outcome.splits)
  moreover have "ps \<noteq> None" using parse_media_type_params [OF pm] by simp
  ultimately show ?case
    using 5(1) [of mt "(ps, None)" ps None] by simp
qed simp_all

text \<open>The only panic of \<open>validate\<close> is the call on a part that is missing.\<close>

fun complete :: "part \<Rightarrow> bool" and complete_child :: "child \<Rightarrow> bool" where
  "complete NoPart = False"
| "complete (Text t) = True"
| "complete (Binary b) = True"
| "complete (Multipart cs) = list_all complete_child cs"
| "complete_child (Child ct hs p) = complete p"

lemma validate_no_panic:
  "complete p \<Longrightarrow> \<not> panics (validate p ct)"
  and child_errors_no_panic:
  "complete_child c \<Longrightarrow> \<not> panics (child_errors c)"
proof (induction p ct and c rule: validate_child_errors.induct)
  case (4 cs ct)
  then have "\<not> panics (traverse child_errors cs)"
    by (intro traverse_no_panic) (simp add: list_all_iff)
  then show ?case by auto
next
  case (5 ct hs p)
  obtain mt ps e where pm: "parse_media_type ct = (mt, ps, e)" by (metis prod_cases3)
  show ?case
  proof (cases e)
    case None
    with 5(1) [OF pm [symmetric] _ None] 5(2) have "\<not> panics (validate p ct)" by simp
    with pm None show ?thesis by (auto simp: Let_def split: outcome.split)
  qed (simp add: pm)
qed simp_all

text \<open>The encoders return no error.\<close>

lemma encode_not_Err:
  "encode rb p ct m \<noteq> (Err er :: ('e, encodedPart) outcome)"
  and encode_child_not_Err:
  "encode_child rb c m \<noteq> (Err er :: ('e, mime_header \<times> string) outcome)"
proof (induction rb p ct m and rb c m rule: encode_encode_child.induct)
  case (4 rb cs ct m)
  obtain mt ps e where pm: "parse_media_type ct = (mt, ps, e)" by (metis prod_cases3)
  show ?case
  proof (cases "boundary_params (rb []) ps")
    case (Some ps')
    have "traverse (\<lambda>(i, c). encode_child (\<lambda>path. rb (i # path)) c m) (List.enumerate 0 cs)
        \<noteq> (Err er :: ('e, (mime_header \<times> string) list) outcome)"
      by (rule traverse_not_Err) (use 4 [OF pm [symmetric] refl refl Some] in auto)
    with pm Some show ?thesis by (simp add: obind_eq_Err)
  qed (simp add: pm)
qed (auto simp: obind_eq_Err)

text \<open>A multipart that encodes: its boundary, its parts and its type.\<close>

lemma encode_Multipart:
  assumes "encode rb (Multipart cs) ct m = (Ok e :: ('e, encodedPart) outcome)"
  obtains b ps' parts where "b = writer_boundary (rb []) (fst (snd (parse_media_type ct)))"
    and "boundary_params (rb []) (fst (snd (parse_media_type ct))) = Some ps'"
    and "traverse (\<lambda>(i, c). encode_child (\<lambda>path. rb (i # path)) c m) (List.enumerate 0 cs)
      = (Ok parts :: ('e, (mime_header \<times> string) list) outcome)"
    and "e = \<lparr>content = multipart_body b parts, contentTransferEncoding = (if m then ''8bit'' else ''7bit''),
      contentType = format_media_type (fst (parse_media_type ct)) ps'\<rparr>"
  using assms by (auto simp: obind_eq_Ok split: option.splits prod.splits)

section \<open>The header of an encoded child\<close>

lemma canonical_fixed [simp]:
  "canonical_key ''Content-Type'' = ''Content-Type''"
  "canonical_key ''Content-Transfer-Encoding'' = ''Content-Transfer-Encoding''"
  by code_simp+

text \<open>Whatever headers a child brings: one Content-Transfer-Encoding, the encoder's, and one
  Content-Type, the child's.\<close>

lemma child_header_structural:
  "filter (\<lambda>p. fst p = ''Content-Transfer-Encoding'') (child_mime_header hs e)
     = [(''Content-Transfer-Encoding'', contentTransferEncoding e)]"
  "filter (\<lambda>p. fst p = ''Content-Type'') (child_mime_header hs e)
     = [(''Content-Type'', contentType e)]"
  by (auto simp: child_mime_header_def mime_set_def filter_empty_conv)

lemma mime_add_fold:
  "fold (\<lambda>h. mime_add (canonical_key (Key h)) (Value h)) hs acc
     = acc @ map (\<lambda>h. (canonical_key (canonical_key (Key h)), Value h)) hs"
  by (induction hs arbitrary: acc) (simp_all add: mime_add_def)

section \<open>Encoding without 8BITMIME is 7bit\<close>

text \<open>What the children's own headers and content types must be for a 7bit result: the code
  writes them as they are.\<close>

fun ascii_labels :: "part \<Rightarrow> bool" and ascii_child :: "child \<Rightarrow> bool" where
  "ascii_labels (Multipart cs) = list_all ascii_child cs"
| "ascii_labels _ = True"
| "ascii_child (Child ct hs p) =
     (ascii ct \<and> list_all (\<lambda>h. ascii (Key h) \<and> ascii (Value h)) hs \<and> ascii_labels p)"

lemma ascii_canonical_key: "ascii k \<Longrightarrow> ascii (canonical_key k)"
proof -
  have "ascii s \<Longrightarrow> ascii (canon u s)" for u s
    by (induction u s rule: canon.induct) (auto simp: upper_byte_def lower_byte_def)
  then show "ascii k \<Longrightarrow> ?thesis" by (simp add: canonical_key_def)
qed

lemma ascii_child_mime_header:
  assumes "list_all (\<lambda>h. ascii (Key h) \<and> ascii (Value h)) hs"
    and "ascii (contentTransferEncoding e)" and "ascii (contentType e)"
  shows "list_all (\<lambda>(k, v). ascii k \<and> ascii v) (child_mime_header hs e)"
  using assms
  by (auto simp: child_mime_header_def mime_set_def mime_add_fold list_all_iff ascii_canonical_key)

lemma ascii_header_lines: "list_all (\<lambda>(k, v). ascii k \<and> ascii v) h \<Longrightarrow> ascii (header_lines h)"
  by (auto simp: header_lines_def list_all_iff)

lemma ascii_join: "ascii sep \<Longrightarrow> list_all ascii xs \<Longrightarrow> ascii (join sep xs)"
  by (induction sep xs rule: join.induct) auto

definition ascii_mime :: "mime_header \<times> string \<Rightarrow> bool" where
  "ascii_mime p \<longleftrightarrow> list_all (\<lambda>(k, v). ascii k \<and> ascii v) (fst p) \<and> ascii (snd p)"

lemma ascii_multipart_body:
  assumes "ascii b" and "list_all ascii_mime parts"
  shows "ascii (multipart_body b parts)"
proof -
  have "ascii (multipart_part b p)" if "ascii_mime p" for p
    using that assms(1) by (simp add: multipart_part_def ascii_mime_def ascii_header_lines)
  then show ?thesis
    using assms by (auto simp: multipart_body_def list_all_iff intro!: ascii_join)
qed

lemma boundary_ok_ascii: "boundary_ok b \<Longrightarrow> ascii b"
  by (auto simp: boundary_ok_def boundary_char_def alnum_def ascii_def list_all_iff)

definition ascii_encoded :: "encodedPart \<Rightarrow> bool" where
  "ascii_encoded e \<longleftrightarrow> ascii (content e) \<and> ascii (contentTransferEncoding e) \<and> ascii (contentType e)"

lemma leaf_encode_ascii: "ascii ct \<Longrightarrow> ascii_encoded (leaf_encode False b ct)"
  using encodeBytes_7bit [of b "fst (encodeBytes False b)" "snd (encodeBytes False b)"]
  by (auto simp: ascii_encoded_def leaf_encode_def split: prod.splits)

lemma encode_ascii:
  "encode rb p ct False = (Ok e :: ('e, encodedPart) outcome) \<Longrightarrow> ascii ct \<Longrightarrow> ascii_labels p \<Longrightarrow> (\<forall>path. ascii (rb path))
    \<Longrightarrow> ascii_encoded e"
  and encode_child_ascii:
  "encode_child rb c False = (Ok y :: ('e, mime_header \<times> string) outcome) \<Longrightarrow> ascii_child c \<Longrightarrow> (\<forall>path. ascii (rb path)) \<Longrightarrow> ascii_mime y"
proof (induction p and c arbitrary: rb ct e and rb y rule: ascii_labels_ascii_child.induct)
  case (1 cs)
  from 1(2) obtain b ps' parts where "b = writer_boundary (rb []) (fst (snd (parse_media_type ct)))"
    and parts: "traverse (\<lambda>(i, c). encode_child (\<lambda>path. rb (i # path)) c False) (List.enumerate 0 cs)
      = (Ok parts :: ('e, (mime_header \<times> string) list) outcome)"
    and e: "e = \<lparr>content = multipart_body b parts, contentTransferEncoding = ''7bit'',
      contentType = format_media_type (fst (parse_media_type ct)) ps'\<rparr>"
    by (rule encode_Multipart) simp
  then have b: "ascii b"
    using 1(5) boundary_ok_ascii writer_boundary_cases [of "rb []"] by metis
  from parts have "list_all ascii_mime parts"
  proof (rule traverse_Ok_all)
    fix x y
    assume x: "x \<in> set (List.enumerate 0 cs)"
      and "(case x of (i, c) \<Rightarrow> encode_child (\<lambda>path. rb (i # path)) c False)
        = (Ok y :: ('e, mime_header \<times> string) outcome)"
    then obtain i c where "c \<in> set cs" "encode_child (\<lambda>path. rb (i # path)) c False
        = (Ok y :: ('e, mime_header \<times> string) outcome)"
      by - (cases x, auto dest: in_set_enumerate)
    then show "ascii_mime y" using 1(1,4,5) by (simp add: list_all_iff)
  qed
  with b e show ?case
    by (simp add: ascii_encoded_def ascii_multipart_body printable_ascii format_media_type_printable)
next
  case (3 ct hs p)
  then obtain e where "encode rb p ct False = (Ok e :: ('e, encodedPart) outcome)" "y = (child_mime_header hs e, content e)"
    by (auto simp: obind_eq_Ok)
  with 3 show ?case
    using 3(1) [of rb ct e] ascii_child_mime_header [of hs e]
    by (simp add: ascii_encoded_def ascii_mime_def)
qed (auto simp: leaf_encode_ascii)

end
