(* ===== verification/Go_Address.thy ===== *)
theory Go_Address
  imports Newlines Go_Transfer
begin

text \<open>
  \<open>net/mail.Address\<close> and its \<open>String\<close> method. (The parser \<open>mail.ParseAddress\<close> is a parameter of
  the components that call it.)
\<close>

record address =
  Name :: string
  Address :: string

definition is_vchar :: "rune \<Rightarrow> bool" where
  "is_vchar r \<longleftrightarrow> (0x21 \<le> r \<and> r \<le> 0x7E) \<or> 0x80 \<le> r"

definition is_wsp :: "rune \<Rightarrow> bool" where
  "is_wsp r \<longleftrightarrow> r = 0x20 \<or> r = 0x09"

text \<open>\<open>isAtext(r, false)\<close>: visible, and none of the specials or the dot.\<close>

definition is_atext :: "rune \<Rightarrow> bool" where
  "is_atext r \<longleftrightarrow> is_vchar r
     \<and> r \<notin> {0x2E, 0x28, 0x29, 0x3C, 0x3E, 0x5B, 0x5D, 0x3A, 0x3B, 0x40, 0x5C, 0x2C, 0x22}"

definition is_qtext :: "rune \<Rightarrow> bool" where
  "is_qtext r \<longleftrightarrow> is_vchar r \<and> r \<noteq> 0x5C \<and> r \<noteq> 0x22"

text \<open>\<open>quoteString\<close>: a rune that is neither visible nor blank is dropped; an invalid sequence is
  written as U+FFFD.\<close>

definition rune_bytes :: "rune \<times> string \<Rightarrow> string" where
  "rune_bytes p = (if bad_chunk p then [CHR 0xEF, CHR 0xBF, CHR 0xBD] else snd p)"

definition quote_string :: "string \<Rightarrow> string" where
  "quote_string s = [DQUOTE] @ concat (map (\<lambda>p.
      if is_qtext (fst p) \<or> is_wsp (fst p) then rune_bytes p
      else if is_vchar (fst p) then BACKSLASH # rune_bytes p else []) (rune_chunks s)) @ [DQUOTE]"

text \<open>A local part needs quotes unless it is atext and dots that stand between other bytes.\<close>

fun quote_local :: "string \<Rightarrow> nat \<Rightarrow> (rune \<times> string) list \<Rightarrow> bool" where
  "quote_local local i [] = False"
| "quote_local local i (p # ps) =
     (if is_atext (fst p) then quote_local local (i + length (snd p)) ps
      else if fst p = 0x2E \<and> 0 < i \<and> local ! (i - 1) \<noteq> CHR ''.'' \<and> i < length local - 1
        then quote_local local (i + length (snd p)) ps
      else True)"

text \<open>The address split at its last \<open>@\<close>; without one, all of it is the local part.\<close>

definition local_domain :: "string \<Rightarrow> string \<times> string" where
  "local_domain a = (if CHR ''@'' \<in> set a
     then (rev (tl (dropWhile (\<lambda>c. c \<noteq> CHR ''@'') (rev a))), rev (takeWhile (\<lambda>c. c \<noteq> CHR ''@'') (rev a)))
     else (a, []))"

text \<open>\<open>mime.BEncoding.Encode("utf-8", s)\<close>: words of at most 45 bytes.\<close>

definition b_open :: string where "b_open = ''=?utf-8?b?''"

fun b_words :: "nat \<Rightarrow> string \<Rightarrow> (rune \<times> string) list \<Rightarrow> string" where
  "b_words cur pending [] = b64_encode pending"
| "b_words cur pending ((r, chunk) # ps) =
     (if cur + length chunk \<le> 45 then b_words (cur + length chunk) (pending @ chunk) ps
      else b64_encode pending @ q_close @ '' '' @ b_open @ b_words (length chunk) chunk ps)"

definition b_encode :: "string \<Rightarrow> string" where
  "b_encode s = (if needs_encoding s
     then b_open @ (if 4 * ((length s + 2) div 3) \<le> 63 then b64_encode s
                    else b_words 0 [] (rune_chunks s)) @ q_close
     else s)"

definition name_special :: "char \<Rightarrow> bool" where
  "name_special c \<longleftrightarrow> c = DQUOTE \<or> c = SQUOTE \<or> c \<in> set ''#$%&(),.:;<>@[]^`{|}~''"

definition address_String :: "address \<Rightarrow> string" where
  "address_String a =
     (let (local, domain) = local_domain (Address a);
          local = (if quote_local local 0 (rune_chunks local) then quote_string local else local);
          s = ''<'' @ local @ ''@'' @ domain @ ''>''
      in if Name a = [] then s
         else if list_all (\<lambda>r. (is_vchar r \<or> is_wsp r) \<and> r < 0x80) (runes (Name a))
           then quote_string (Name a) @ '' '' @ s
         else if list_ex name_special (Name a) then b_encode (Name a) @ '' '' @ s
         else q_encode (Name a) @ '' '' @ s)"

section \<open>No line break gets in through the name or the local part\<close>

lemma rune_chunk_no_newline:
  "p \<in> set (rune_chunks s) \<Longrightarrow> fst p \<noteq> 0x0D \<Longrightarrow> fst p \<noteq> 0x0A \<Longrightarrow> no_newline (snd p)"
proof (induction s rule: rune_chunks.induct)
  case (2 c s)
  show ?case
  proof (cases "p = (fst (decode_rune (c # s)), take (snd (decode_rune (c # s))) (c # s))")
    case True
    show ?thesis
    proof (cases "byte c < 0x80")
      case True
      then have "p = (byte c, [c])" using \<open>p = _\<close> by simp
      with 2(3,4) show ?thesis by auto
    next
      case False
      then have "list_all (\<lambda>d. 0x80 \<le> byte d) (snd p)"
        using \<open>p = _\<close> decode_rune_high_bytes [of c s] by simp
      then show ?thesis by (auto simp: no_newline_def list_all_iff)
    qed
  next
    case False
    with 2 show ?thesis by (simp add: Let_def)
  qed
qed simp

lemma no_newline_concat: "(\<And>x. x \<in> set xs \<Longrightarrow> no_newline (f x)) \<Longrightarrow> no_newline (concat (map f xs))"
  by (induction xs) auto

lemma quote_string_no_newline: "no_newline (quote_string s)"
  unfolding quote_string_def
  by (auto intro!: no_newline_concat
      simp: rune_bytes_def is_qtext_def is_vchar_def is_wsp_def dest!: rune_chunk_no_newline)

lemma q_encode_no_newline: "no_newline (q_encode s)"
  by (rule printable_no_newline) (rule q_encode_printable)

lemma b64_no_newline: "no_newline (b64_encode b)"
  using b64_encode_chars [of b] by (auto simp: no_newline_def list_all_iff b64_char_def)

lemma b_encode_no_newline: "no_newline (b_encode s)"
proof -
  have "no_newline (b_words cur pending ps)" for cur pending ps
    by (induction cur pending ps rule: b_words.induct)
       (auto simp: b64_no_newline q_close_def b_open_def)
  then show ?thesis
    by (auto simp: b_encode_def b64_no_newline q_close_def b_open_def needs_encoding_printable
        printable_no_newline)
qed

lemma atext_local_no_newline:
  "\<not> quote_local local i ps \<Longrightarrow> p \<in> set ps \<Longrightarrow> is_atext (fst p) \<or> fst p = 0x2E"
  by (induction local i ps rule: quote_local.induct) (auto split: if_splits)

lemma local_no_newline:
  "\<not> quote_local local 0 (rune_chunks local) \<Longrightarrow> no_newline local"
proof -
  assume q: "\<not> quote_local local 0 (rune_chunks local)"
  have "no_newline (concat (map snd (rune_chunks local)))"
  proof (rule no_newline_concat)
    fix p
    assume p: "p \<in> set (rune_chunks local)"
    with atext_local_no_newline [OF q] have "is_atext (fst p) \<or> fst p = 0x2E" by simp
    then have "fst p \<noteq> 0x0D" "fst p \<noteq> 0x0A" by (auto simp: is_atext_def is_vchar_def)
    with p show "no_newline (snd p)" by (rule rune_chunk_no_newline)
  qed
  then show ?thesis by (simp add: concat_rune_chunks)
qed

text \<open>The domain is written as it is, so it is the one place left for a line break.\<close>

lemma address_String_no_newline:
  "no_newline (snd (local_domain (Address a))) \<Longrightarrow> no_newline (address_String a)"
  by (auto simp: address_String_def Let_def quote_string_no_newline q_encode_no_newline
      b_encode_no_newline local_no_newline split: prod.splits)

section \<open>An address in US-ASCII prints in US-ASCII, whatever the name\<close>

lemma ascii_quote_string: "ascii s \<Longrightarrow> ascii (quote_string s)"
proof -
  have "rune_bytes (byte c, [c]) = [c]" if "byte c < 0x80" for c
    using that by (simp add: rune_bytes_def bad_chunk_def rune_error_def)
  then have "ascii s \<Longrightarrow> list_all ascii (map (\<lambda>p. if is_qtext (fst p) \<or> is_wsp (fst p) then rune_bytes p
      else if is_vchar (fst p) then BACKSLASH # rune_bytes p else []) (map (\<lambda>c. (byte c, [c])) s))"
    by (induction s) auto
  then show "ascii s \<Longrightarrow> ?thesis"
    by (simp add: quote_string_def rune_chunks_ascii)
qed

lemma ascii_b_encode: "ascii (b_encode s)"
proof -
  have "ascii (b_words cur pending ps)" for cur pending ps
    by (induction cur pending ps rule: b_words.induct)
       (auto simp: ascii_b64_encode q_close_def b_open_def)
  then show ?thesis
    by (auto simp: b_encode_def ascii_b64_encode q_close_def b_open_def needs_encoding_printable
        printable_ascii)
qed

lemma set_local_domain:
  assumes "local_domain a = (l, d)"
  shows "set l \<subseteq> set a" and "set d \<subseteq> set a"
proof -
  have "set (tl (dropWhile P xs)) \<subseteq> set xs" for P and xs :: string
    by (induction xs) auto
  from this [of "\<lambda>c. c \<noteq> CHR ''@''" "rev a"] show "set l \<subseteq> set a"
    using assms by (auto simp: local_domain_def split: if_splits)
  show "set d \<subseteq> set a"
    using assms set_takeWhileD [of _ "\<lambda>c. c \<noteq> CHR ''@''" "rev a"]
    by (auto simp: local_domain_def split: if_splits)
qed

lemma ascii_local_domain: "ascii a \<Longrightarrow> local_domain a = (l, d) \<Longrightarrow> ascii l \<and> ascii d"
  using set_local_domain [of a l d] by (auto simp: ascii_def list_all_iff)

lemma ascii_address_String:
  assumes "ascii (Address a)"
  shows "ascii (address_String a)"
proof -
  obtain l d where ld: "local_domain (Address a) = (l, d)" by fastforce
  with assms have "ascii l" "ascii d" by (auto dest: ascii_local_domain)
  moreover have "ascii (Name a)" if "list_all (\<lambda>r. (is_vchar r \<or> is_wsp r) \<and> r < 0x80) (runes (Name a))"
  proof -
    have "list_all (\<lambda>r. r < 0x80) (runes (Name a))"
      using that by (auto simp: list_all_iff)
    then show ?thesis unfolding ascii_def by (subst (asm) runes_fail_high) auto
  qed
  ultimately show ?thesis
    using ld by (auto simp: address_String_def Let_def ascii_quote_string ascii_b_encode printable_ascii
        q_encode_printable)
qed

end
