(* ===== verification/Go_Time.thy ===== *)
theory Go_Time
  imports Newlines Go_Media_Type
begin

text \<open>
  A \<open>time.Time\<close> as the mailer uses it: the seconds since 1 January 1970 UTC and the offset of
  its zone, and the layout \<open>time.RFC1123Z\<close> of the Date header. (Fractions of a second are not
  part of that layout and are not modelled.)
\<close>

record gotime =
  unix :: int       \<comment> \<open>seconds\<close>
  zone :: int       \<comment> \<open>seconds east of UTC\<close>

text \<open>\<open>IsZero\<close>: 1 January of year 1, 00:00:00 UTC.\<close>

definition is_zero_time :: "gotime \<Rightarrow> bool" where
  "is_zero_time t \<longleftrightarrow> unix t = - 62135596800"

text \<open>Year, month (1 to 12) and day of a number of days since 1 January 1970, counted in eras of
  400 years that start on 1 March.\<close>

definition civil_of_days :: "int \<Rightarrow> int \<times> int \<times> int" where
  "civil_of_days days = (let z = days + 719468;
     era = z div 146097;
     doe = z mod 146097;
     yoe = (doe - doe div 1460 + doe div 36524 - doe div 146096) div 365;
     doy = doe - (365 * yoe + yoe div 4 - yoe div 100);
     mp = (5 * doy + 2) div 153;
     d = doy - (153 * mp + 2) div 5 + 1;
     m = (if mp < 10 then mp + 3 else mp - 9)
   in (yoe + era * 400 + (if m \<le> 2 then 1 else 0), m, d))"

definition month_name :: "int \<Rightarrow> string" where
  "month_name m = (if m = 1 then ''Jan'' else if m = 2 then ''Feb'' else if m = 3 then ''Mar''
     else if m = 4 then ''Apr'' else if m = 5 then ''May'' else if m = 6 then ''Jun''
     else if m = 7 then ''Jul'' else if m = 8 then ''Aug'' else if m = 9 then ''Sep''
     else if m = 10 then ''Oct'' else if m = 11 then ''Nov'' else ''Dec'')"

text \<open>1 January 1970 was a Thursday.\<close>

definition day_name :: "int \<Rightarrow> string" where
  "day_name days = (let w = days mod 7 in
     if w = 0 then ''Thu'' else if w = 1 then ''Fri'' else if w = 2 then ''Sat''
     else if w = 3 then ''Sun'' else if w = 4 then ''Mon'' else if w = 5 then ''Tue'' else ''Wed'')"

text \<open>A number in decimal, padded with zeros to a width.\<close>

definition pad :: "nat \<Rightarrow> nat \<Rightarrow> string" where
  "pad w n = replicate (w - length (show_nat n)) CHR ''0'' @ show_nat n"

definition show_int_pad :: "nat \<Rightarrow> int \<Rightarrow> string" where
  "show_int_pad w i = (if i < 0 then CHR ''-'' # pad w (nat (- i)) else pad w (nat i))"

definition format_zone :: "int \<Rightarrow> string" where
  "format_zone off = (let minutes = sgn off * (\<bar>off\<bar> div 60); a = nat \<bar>minutes\<bar> in
     (if minutes < 0 then CHR ''-'' else CHR ''+'') # pad 2 (a div 60) @ pad 2 (a mod 60))"

definition format_RFC1123Z :: "gotime \<Rightarrow> string" where
  "format_RFC1123Z t = (let local = unix t + zone t; days = local div 86400; s = local mod 86400;
     (y, m, d) = civil_of_days days in
     day_name days @ '', '' @ show_int_pad 2 d @ '' '' @ month_name m @ '' '' @ show_int_pad 4 y @ '' ''
     @ pad 2 (nat (s div 3600)) @ '':'' @ pad 2 (nat (s mod 3600 div 60)) @ '':'' @ pad 2 (nat (s mod 60))
     @ '' '' @ format_zone (zone t))"

lemma show_nat_printable: "list_all printable (show_nat n)"
proof (induction n rule: show_nat.induct)
  case (1 n)
  have "printable (char_of (0x30 + k))" if "k < 10" for k :: nat
    using that by (simp add: printable_def)
  with 1 show ?case by (subst show_nat.simps) simp
qed

lemma pad_printable: "list_all printable (pad w n)"
  by (simp add: pad_def show_nat_printable list_all_iff [of _ "replicate _ _"])
     (simp add: printable_def)

lemma show_int_pad_printable: "list_all printable (show_int_pad w i)"
  by (simp add: show_int_pad_def pad_printable) (simp add: printable_def)

lemma format_zone_printable: "list_all printable (format_zone off)"
  by (simp add: format_zone_def Let_def pad_printable) (simp add: printable_def)

lemma day_month_printable: "list_all printable (day_name d)" "list_all printable (month_name m)"
  by (simp_all add: day_name_def month_name_def Let_def printable_def)

lemma format_RFC1123Z_printable: "list_all printable (format_RFC1123Z t)"
  by (simp add: format_RFC1123Z_def Let_def show_int_pad_printable pad_printable
      format_zone_printable day_month_printable split: prod.split) (simp add: printable_def)

lemma format_example:
  "format_RFC1123Z \<lparr>unix = 1080769384, zone = 15600\<rparr> = ''Thu, 01 Apr 2004 02:03:04 +0420''"
  by code_simp

end
