(* ===== verification/Mailer_Mail.thy ===== *)
theory Mailer_Mail
  imports Mailer_Part Go_Address Go_Time
begin

text \<open>
  \<^verbatim>\<open>pkg/mailer/mail.go\<close> and \<^verbatim>\<open>pkg/mailer/imf.go\<close>: the mail, its validation and its rendering in
  Internet Message Format. The lemmas give the shape of the rendered message: its header
  lines, a blank line, the encoded body.
\<close>

section \<open>The mail\<close>

record mail =
  From :: address
  ReplyTo :: "address list"
  To :: "address list"
  Cc :: "address list"
  Bcc :: "address list"
  Subject :: string
  Date :: gotime
  MessageID :: string
  ContentType :: string
  Headers :: "header list"
  Body :: part

definition reservedHeaders :: "string list" where
  "reservedHeaders = [''From'', ''To'', ''Cc'', ''Bcc'', ''Reply-To'', ''Subject'', ''Date'',
     ''Message-Id'', ''Content-Type'']"

definition IsHeaderKeyReserved :: "string \<Rightarrow> bool" where
  "IsHeaderKeyReserved headerKey \<longleftrightarrow> canonical_key headerKey \<in> set reservedHeaders"

section \<open>ValidateMail\<close>

datatype mail_error =
    Invalid_Subject string
  | Invalid_Content_Type string
  | Not_Multipart_Content_Type string
  | Invalid_Boundary string
  | Invalid_Key string
  | Invalid_Value string
  | Reserved_Key string
  | Invalid_Body "part_error list"

definition content_type_errors :: "mail \<Rightarrow> mail_error list" where
  "content_type_errors m =
     (if ContentType m = [] then []
      else let (mt, ps, err) = parse_media_type (ContentType m) in
        (case err of Some _ \<Rightarrow> [Invalid_Content_Type (ContentType m)] | None \<Rightarrow> [])
        @ (if is_multipart (Body m) then
             (if has_prefix mt ''multipart/'' then [] else [Not_Multipart_Content_Type (ContentType m)])
             @ (case param ps ''boundary'' of
                  Some b \<Rightarrow> if boundary_ok b then [] else [Invalid_Boundary b]
                | None \<Rightarrow> [])
           else []))"

text \<open>The three checks on a header of the mail are independent of each other.\<close>

definition header_errors :: "header \<Rightarrow> mail_error list" where
  "header_errors h =
     (if ValidateHeaderKey (Key h) then [] else [Invalid_Key (Key h)])
     @ (if ValidateHeaderVal (Value h) then [] else [Invalid_Value (Key h)])
     @ (if IsHeaderKeyReserved (Key h) then [Reserved_Key (Key h)] else [])"

definition ValidateMail :: "mail \<Rightarrow> (mail_error list, unit) outcome" where
  "ValidateMail m =
     (let errs = (if ValidateHeaderVal (Subject m) then [] else [Invalid_Subject (Subject m)])
        @ content_type_errors m @ concat (map header_errors (Headers m))
      in case validate (Body m) (ContentType m) of
           Panic x \<Rightarrow> Panic x
         | Err es \<Rightarrow> Err (errs @ [Invalid_Body es])
         | Ok _ \<Rightarrow> if errs = [] then Ok () else Err errs)"

section \<open>GetInternetMessageFormat\<close>

definition joinAddresses :: "address list \<Rightarrow> string" where
  "joinAddresses addresses = join '', '' (map address_String addresses)"

definition address_line :: "string \<Rightarrow> address list \<Rightarrow> string list" where
  "address_line k as = (if as = [] then [] else [k @ '': '' @ joinAddresses as])"

text \<open>The loop over the mail's own headers: an empty value is swallowed.\<close>

definition custom_line :: "header \<Rightarrow> string list" where
  "custom_line h = (if Value h = [] then []
     else [canonical_key (Key h) @ '': '' @ encodedHeaderVal (Value h)])"

definition hasMimeVersion :: "mail \<Rightarrow> bool" where
  "hasMimeVersion m \<longleftrightarrow> list_ex (\<lambda>h. canonical_key (Key h) = ''Mime-Version'') (Headers m)"

text \<open>The header lines in the order they are written.\<close>

definition imf_lines :: "mail \<Rightarrow> encodedPart \<Rightarrow> string list" where
  "imf_lines m e =
     [''From: '' @ address_String (From m)]
     @ address_line ''To'' (To m) @ address_line ''Cc'' (Cc m) @ address_line ''Reply-To'' (ReplyTo m)
     @ [''Date: '' @ format_RFC1123Z (Date m), ''Message-Id: <'' @ MessageID m @ ''>'',
        ''Subject: '' @ encodedHeaderVal (Subject m)]
     @ concat (map custom_line (Headers m))
     @ (if \<not> hasMimeVersion m \<and> ContentType m \<noteq> [] then [''Mime-Version: 1.0''] else [])
     @ (if ContentType m \<noteq> [] then [''Content-Type: '' @ encodedHeaderVal (contentType e)] else [])
     @ [''Content-Transfer-Encoding: '' @ encodedHeaderVal (contentTransferEncoding e)]"

definition GetInternetMessageFormat ::
    "(nat list \<Rightarrow> string) \<Rightarrow> mail \<Rightarrow> bool \<Rightarrow> (mail_error list, string) outcome" where
  "GetInternetMessageFormat rb m has8BitMimeSupport =
     obind (ValidateMail m) (\<lambda>_.
     obind (encode rb (Body m) (ContentType m) has8BitMimeSupport) (\<lambda>e.
     Ok (normalize_newlines (concat (map (\<lambda>l. l @ [LF]) (imf_lines m e)) @ [LF] @ content e))))"

section \<open>What ValidateMail accepts\<close>

lemma header_errors_Nil:
  "header_errors h = [] \<longleftrightarrow>
     ValidateHeaderKey (Key h) \<and> ValidateHeaderVal (Value h) \<and> \<not> IsHeaderKeyReserved (Key h)"
  by (simp add: header_errors_def)

lemma ValidateMail_Ok:
  "ValidateMail m = Ok u \<longleftrightarrow> ValidateHeaderVal (Subject m) \<and> content_type_errors m = []
     \<and> list_all (\<lambda>h. header_errors h = []) (Headers m) \<and> validate (Body m) (ContentType m) = Ok ()"
  by (auto simp: ValidateMail_def Let_def list_all_iff concat_eq_Nil_conv split: outcome.splits)

lemma validate_panic_NoPart: "validate NoPart ct = Panic Nil_Deref"
  by simp

lemma ValidateMail_panics: "panics (ValidateMail m) \<longleftrightarrow> panics (validate (Body m) (ContentType m))"
  by (auto simp: ValidateMail_def Let_def split: outcome.splits)

lemma content_type_params:
  "content_type_errors m = [] \<Longrightarrow> ContentType m \<noteq> [] \<Longrightarrow> fst (snd (parse_media_type (ContentType m))) \<noteq> None"
  using parse_media_type_params
  by (fastforce simp: content_type_errors_def split: prod.splits option.splits)

lemma GetInternetMessageFormat_no_panic:
  assumes "ValidateMail m = Ok u" and "is_multipart (Body m) \<Longrightarrow> ContentType m \<noteq> []"
  shows "\<not> panics (GetInternetMessageFormat rb m has8)"
proof -
  have "\<not> panics (encode rb (Body m) (ContentType m) has8 :: (mail_error list, encodedPart) outcome)"
    using assms content_type_params by (intro encode_no_panic) (auto simp: ValidateMail_Ok)
  with assms show ?thesis by (simp add: GetInternetMessageFormat_def)
qed

lemma GetInternetMessageFormat_Ok:
  assumes "ValidateMail m = Ok u" and "is_multipart (Body m) \<Longrightarrow> ContentType m \<noteq> []"
  shows "\<exists>s. GetInternetMessageFormat rb m has8 = Ok s"
proof -
  have "GetInternetMessageFormat rb m has8 \<noteq> Err es" for es
    using assms(1) by (auto simp: GetInternetMessageFormat_def obind_eq_Err encode_not_Err)
  then show ?thesis
    using GetInternetMessageFormat_no_panic [OF assms, of rb has8]
    by (cases "GetInternetMessageFormat rb m has8") auto
qed

section \<open>The header block\<close>

text \<open>
  What the code does not check and a caller has to provide: no line break in the Message-ID
  nor in the domain of an address.
\<close>

definition address_ok :: "address \<Rightarrow> bool" where
  "address_ok a \<longleftrightarrow> no_newline (snd (local_domain (Address a)))"

definition labels_ok :: "mail \<Rightarrow> bool" where
  "labels_ok m \<longleftrightarrow> no_newline (MessageID m) \<and> address_ok (From m)
     \<and> list_all address_ok (To m @ Cc m @ ReplyTo m)"

lemma no_newline_join: "no_newline sep \<Longrightarrow> list_all no_newline xs \<Longrightarrow> no_newline (join sep xs)"
  by (induction sep xs rule: join.induct) auto

lemma joinAddresses_no_newline: "list_all address_ok as \<Longrightarrow> no_newline (joinAddresses as)"
  unfolding joinAddresses_def
  by (rule no_newline_join) (auto simp: list_all_iff address_ok_def address_String_no_newline)

lemma canonical_key_bytes:
  assumes "list_all (\<lambda>c. 0x20 < byte c \<and> byte c < 0x7F \<and> byte c \<noteq> 0x3A) k"
  shows "list_all (\<lambda>c. 0x20 < byte c \<and> byte c < 0x7F \<and> byte c \<noteq> 0x3A) (canonical_key k)"
proof -
  have "list_all (\<lambda>c. 0x20 < byte c \<and> byte c < 0x7F \<and> byte c \<noteq> 0x3A) (canon u s)"
    if "list_all (\<lambda>c. 0x20 < byte c \<and> byte c < 0x7F \<and> byte c \<noteq> 0x3A) s" for u s
    using that by (induction u s rule: canon.induct) (auto simp: upper_byte_def lower_byte_def)
  with assms show ?thesis by (simp add: canonical_key_def)
qed

lemma valid_canonical_key: "ValidateHeaderKey k \<Longrightarrow> ValidateHeaderKey (canonical_key k)"
  by (simp add: ValidateHeaderKey_bytes canonical_key_bytes)

lemma encodedHeaderVal_no_newline: "no_newline (encodedHeaderVal v)"
  by (simp add: encodedHeaderVal_def q_encode_no_newline)

lemma custom_lines_no_newline:
  "list_all (\<lambda>h. header_errors h = []) hs \<Longrightarrow> list_all no_newline (concat (map custom_line hs))"
  by (induction hs)
     (auto simp: custom_line_def header_errors_Nil encodedHeaderVal_no_newline
        dest: valid_canonical_key ValidateHeaderKey_no_newline)

lemma imf_lines_no_newline:
  assumes "labels_ok m" and "list_all (\<lambda>h. header_errors h = []) (Headers m)"
  shows "list_all no_newline (imf_lines m e)"
  using assms custom_lines_no_newline [OF assms(2)]
  by (simp add: imf_lines_def labels_ok_def address_line_def joinAddresses_no_newline
      encodedHeaderVal_no_newline printable_no_newline format_RFC1123Z_printable
      address_String_no_newline address_ok_def)

lemma imf_lines_not_empty: "list_all (\<lambda>l. l \<noteq> []) (imf_lines m e)"
  by (auto simp: imf_lines_def address_line_def custom_line_def list_all_iff)

lemma crlf_form_lines:
  "list_all no_newline ls \<Longrightarrow> crlf_form (concat (map (\<lambda>l. l @ [LF]) ls) @ t) = unlines ls @ crlf_form t"
  by (induction ls) (auto simp: crlf_form_line)

lemma crlf_form_LF: "crlf_form (LF # t) = CRLF @ crlf_form t"
  using crlf_form_line [of "[]" t] by simp

text \<open>The rendered message, line by line.\<close>

lemma GetInternetMessageFormat_shape:
  assumes "GetInternetMessageFormat rb m has8 = Ok s" and "labels_ok m"
  obtains e where "encode rb (Body m) (ContentType m) has8
      = (Ok e :: (mail_error list, encodedPart) outcome)"
    and "s = unlines (imf_lines m e) @ CRLF @ crlf_form (content e)"
    and "list_all no_newline (imf_lines m e)"
proof -
  from assms(1) obtain e where v: "ValidateMail m = Ok ()"
    and e: "encode rb (Body m) (ContentType m) has8 = (Ok e :: (mail_error list, encodedPart) outcome)"
    and s: "s = normalize_newlines (concat (map (\<lambda>l. l @ [LF]) (imf_lines m e)) @ [LF] @ content e)"
    by (auto simp: GetInternetMessageFormat_def obind_eq_Ok)
  have nl: "list_all no_newline (imf_lines m e)"
    using v assms(2) by (simp add: ValidateMail_Ok imf_lines_no_newline)
  with s have "s = unlines (imf_lines m e) @ CRLF @ crlf_form (content e)"
    by (simp add: normalize_newlines_eq crlf_form_lines crlf_form_LF)
  with e nl that show thesis by blast
qed

lemma takeWhile_header:
  "list_all (\<lambda>l. l \<noteq> []) ls \<Longrightarrow> takeWhile (\<lambda>l. l \<noteq> []) (ls @ [] # ms) = ls"
  by (induction ls) auto

lemma lines_unlines_append: "list_all no_newline ls \<Longrightarrow> lines (unlines ls @ x) = ls @ lines x"
  by (induction ls) (auto simp: lines_line_append [simplified])

lemma message_lines:
  "list_all no_newline ls \<Longrightarrow> lines (unlines ls @ CRLF @ x) = ls @ [] # lines x"
  using lines_line_append [of "[]" x] by (simp add: lines_unlines_append)

section \<open>Field names\<close>

definition field_name :: "string \<Rightarrow> string" where
  "field_name l = takeWhile (\<lambda>c. c \<noteq> CHR '':'') l"

definition fields_named :: "string \<Rightarrow> string list \<Rightarrow> string list" where
  "fields_named k ls = filter (\<lambda>l. field_name l = k) ls"

lemma field_name_append:
  "CHR '':'' \<notin> set k \<Longrightarrow> field_name (k @ CHR '':'' # v) = k"
  by (induction k) (auto simp: field_name_def)

lemma valid_key_no_colon: "ValidateHeaderKey k \<Longrightarrow> CHR '':'' \<notin> set k"
  by (auto simp: ValidateHeaderKey_bytes list_all_iff)

lemma custom_fields_not_reserved:
  assumes "list_all (\<lambda>h. header_errors h = []) hs" and "k \<in> set reservedHeaders"
  shows "fields_named k (concat (map custom_line hs)) = []"
proof -
  have "fields_named k (custom_line h) = []" if "h \<in> set hs" for h
  proof -
    have "ValidateHeaderKey (canonical_key (Key h))" "canonical_key (Key h) \<notin> set reservedHeaders"
      using assms(1) that
      by (auto simp: list_all_iff header_errors_Nil IsHeaderKeyReserved_def valid_canonical_key)
    then show ?thesis
      using assms(2) by (auto simp: custom_line_def fields_named_def field_name_append valid_key_no_colon)
  qed
  then show ?thesis by (induction hs) (auto simp: fields_named_def)
qed

lemma fields_named_append [simp]:
  "fields_named k (xs @ ys) = fields_named k xs @ fields_named k ys"
  by (simp add: fields_named_def)

text \<open>Each reserved field, once or not at all, and only from its own field of the mail.\<close>

lemma reserved_fields:
  assumes "list_all (\<lambda>h. header_errors h = []) (Headers m)"
  shows "fields_named ''From'' (imf_lines m e) = [''From: '' @ address_String (From m)]"
    and "fields_named ''To'' (imf_lines m e) = address_line ''To'' (To m)"
    and "fields_named ''Cc'' (imf_lines m e) = address_line ''Cc'' (Cc m)"
    and "fields_named ''Bcc'' (imf_lines m e) = []"
    and "fields_named ''Reply-To'' (imf_lines m e) = address_line ''Reply-To'' (ReplyTo m)"
    and "fields_named ''Subject'' (imf_lines m e) = [''Subject: '' @ encodedHeaderVal (Subject m)]"
    and "fields_named ''Date'' (imf_lines m e) = [''Date: '' @ format_RFC1123Z (Date m)]"
    and "fields_named ''Message-Id'' (imf_lines m e) = [''Message-Id: <'' @ MessageID m @ ''>'']"
    and "fields_named ''Content-Type'' (imf_lines m e) = (if ContentType m = [] then []
      else [''Content-Type: '' @ encodedHeaderVal (contentType e)])"
  using custom_fields_not_reserved [OF assms]
  by (simp_all add: imf_lines_def reservedHeaders_def)
     (simp_all add: fields_named_def field_name_def address_line_def)

section \<open>Without 8BITMIME the message is US-ASCII\<close>

definition ascii_mail :: "mail \<Rightarrow> bool" where
  "ascii_mail m \<longleftrightarrow> ascii (MessageID m) \<and> ascii (ContentType m) \<and> ascii_labels (Body m)
     \<and> list_all (\<lambda>a. ascii (Address a)) (From m # To m @ Cc m @ ReplyTo m)"

lemma ascii_joinAddresses: "list_all (\<lambda>a. ascii (Address a)) as \<Longrightarrow> ascii (joinAddresses as)"
  by (auto simp: joinAddresses_def list_all_iff ascii_address_String intro!: ascii_join)

lemma ascii_encodedHeaderVal: "ascii (encodedHeaderVal v)"
  by (simp add: encodedHeaderVal_def printable_ascii q_encode_printable)

lemma ascii_valid_key: "ValidateHeaderKey k \<Longrightarrow> ascii k"
  by (auto simp: ValidateHeaderKey_bytes ascii_def list_all_iff)

lemma ascii_custom_lines:
  "list_all (\<lambda>h. header_errors h = []) hs \<Longrightarrow> list_all ascii (concat (map custom_line hs))"
  by (induction hs)
     (auto simp: custom_line_def header_errors_Nil ascii_encodedHeaderVal
        dest: valid_canonical_key ascii_valid_key)

lemma ascii_imf_lines:
  assumes "ascii_mail m" and "list_all (\<lambda>h. header_errors h = []) (Headers m)"
  shows "list_all ascii (imf_lines m e)"
  using assms(1) ascii_custom_lines [OF assms(2)]
  by (auto simp: imf_lines_def ascii_mail_def address_line_def ascii_joinAddresses
      ascii_encodedHeaderVal printable_ascii format_RFC1123Z_printable ascii_address_String)

lemma GetInternetMessageFormat_ascii:
  assumes "GetInternetMessageFormat rb m False = Ok s" and "ascii_mail m" and "\<forall>path. ascii (rb path)"
  shows "ascii s"
proof -
  from assms(1) obtain e where v: "ValidateMail m = Ok ()"
    and e: "encode rb (Body m) (ContentType m) False = (Ok e :: (mail_error list, encodedPart) outcome)"
    and s: "s = normalize_newlines (concat (map (\<lambda>l. l @ [LF]) (imf_lines m e)) @ [LF] @ content e)"
    by (auto simp: GetInternetMessageFormat_def obind_eq_Ok)
  have "ascii (content e)"
    using encode_ascii [OF e] assms(2,3) by (simp add: ascii_encoded_def ascii_mail_def)
  moreover have "list_all ascii (imf_lines m e)"
    using v assms(2) by (simp add: ascii_imf_lines ValidateMail_Ok)
  ultimately show ?thesis
    by (auto simp: s normalize_newlines_eq list_all_iff intro!: crlf_form_ascii)
qed

lemma GetInternetMessageFormat_in_crlf_form:
  "GetInternetMessageFormat rb m has8 = Ok s \<Longrightarrow> in_crlf_form s"
  by (auto simp: GetInternetMessageFormat_def obind_eq_Ok normalize_newlines_eq in_crlf_form_crlf_form)

section \<open>A single text body\<close>

lemma encode_Text:
  "encode rb (Text t) ct m = Ok e \<Longrightarrow>
     (content e, contentTransferEncoding e) = encodeBytes m (crlf_form t) \<and> contentType e = ct"
  by (auto simp: leaf_encode_def normalize_newlines_eq split: prod.splits)

lemma encodeBytes_cte:
  "encodeBytes m b = (s, cte) \<Longrightarrow> cte \<in> {''7bit'', ''8bit'', ''quoted-printable'', ''base64''}"
  by (auto simp: encodeBytes_def Let_def split: prod.splits if_splits)

lemma encodedHeaderVal_cte:
  "cte \<in> {''7bit'', ''8bit'', ''quoted-printable'', ''base64''} \<Longrightarrow> encodedHeaderVal cte = cte"
  by (elim insertE emptyE; simp only: encodedHeaderVal_def; code_simp)

text \<open>The reader takes the lines up to the first empty one as the header, and the rest as the
  body: the last field names the transfer encoding, and undoing it gives the text, with its
  line ends in CRLF form.\<close>

lemma Text_mail_roundtrip:
  assumes "GetInternetMessageFormat rb m has8 = Ok s" and "labels_ok m" and "Body m = Text t"
  shows "\<exists>hs cte body. s = unlines hs @ CRLF @ body \<and> list_all no_newline hs \<and> list_all (\<lambda>l. l \<noteq> []) hs
    \<and> last hs = ''Content-Transfer-Encoding: '' @ cte
    \<and> decode_transfer cte body = Some (crlf_form t) \<and> short_lines 998 body"
proof -
  from assms(1,2) obtain e where
    e: "encode rb (Body m) (ContentType m) has8 = (Ok e :: (mail_error list, encodedPart) outcome)"
    and s: "s = unlines (imf_lines m e) @ CRLF @ crlf_form (content e)"
    and nl: "list_all no_newline (imf_lines m e)"
    by (rule GetInternetMessageFormat_shape)
  from e assms(3) have enc: "encodeBytes has8 (crlf_form t) = (content e, contentTransferEncoding e)"
    using encode_Text by fastforce
  have "last (imf_lines m e) = ''Content-Transfer-Encoding: '' @ contentTransferEncoding e"
    using encodedHeaderVal_cte [OF encodeBytes_cte [OF enc]] by (simp add: imf_lines_def)
  with s nl imf_lines_not_empty [of m e] encodeBytes_decode [OF enc] encodeBytes_short_lines [OF enc]
  show ?thesis by (metis in_crlf_form_crlf_form)
qed

end
