(* ===== verification/Database_Mail.thy ===== *)
theory Database_Mail
  imports Mailer_Mail
begin

text \<open>
  \<^verbatim>\<open>internal/database/mail.go\<close>: how a mail is stored as a row of the table \<open>mails\<close> and read
  back. The columns \<open>extra_headers\<close> and \<open>body\<close> are JSONB, so a column holds a JSON value; the
  text of the JSON is left to the library and the database. The parser \<open>mail.ParseAddress\<close> is
  the parameter \<open>parse_address\<close>.
\<close>

section \<open>JSON values\<close>

datatype json =
    JNull
  | JNum int
  | JStr string
  | JArr "json list"
  | JObj "(string \<times> json) list"

text \<open>\<open>json.Marshal\<close> writes U+FFFD for a byte that is not UTF-8.\<close>

definition json_string :: "string \<Rightarrow> json" where
  "json_string s = JStr (concat (map rune_bytes (rune_chunks s)))"

lemma json_string_valid: "valid_utf8 s \<Longrightarrow> json_string s = JStr s"
proof -
  assume "valid_utf8 s"
  then have "map rune_bytes (rune_chunks s) = map snd (rune_chunks s)"
    by (simp add: valid_utf8_def rune_bytes_def list_all_iff)
  then show ?thesis by (simp only: json_string_def concat_rune_chunks)
qed

datatype db_error =
    Unsupported_Body
  | Bad_Json
  | Bad_Address string
  | Bad_From string
  | Bad_Base64

text \<open>\<open>json.Unmarshal\<close> into a struct: of equal keys the last one counts, a missing key or a null
  leaves the zero value, a value of another kind is an error.\<close>

definition field :: "string \<Rightarrow> (string \<times> json) list \<Rightarrow> json" where
  "field k kvs = (case map_of (rev kvs) k of None \<Rightarrow> JNull | Some j \<Rightarrow> j)"

fun get_string :: "json \<Rightarrow> (db_error, string) outcome" where
  "get_string JNull = Ok []"
| "get_string (JStr s) = Ok s"
| "get_string _ = Err Bad_Json"

fun get_bytes :: "json \<Rightarrow> (db_error, bytes) outcome" where
  "get_bytes JNull = Ok []"
| "get_bytes (JStr s) = (case b64_decode s of None \<Rightarrow> Err Bad_Base64 | Some b \<Rightarrow> Ok b)"
| "get_bytes _ = Err Bad_Json"

fun get_int :: "json \<Rightarrow> (db_error, int) outcome" where
  "get_int JNull = Ok 0"
| "get_int (JNum i) = Ok i"
| "get_int _ = Err Bad_Json"

fun elements :: "json \<Rightarrow> json list option" where
  "elements JNull = Some []"
| "elements (JArr js) = Some js"
| "elements _ = None"

section \<open>The stored form of a body\<close>

record headerV1 =
  hKey :: string
  hValue :: string

datatype partV1 = PartV1 (pHeaders: "headerV1 list") (pContentType: string) (pText: string)
  (pData: bytes) (pChildren: "partV1 list")

record bodyV1 =
  V :: int
  Root :: partV1

definition to_headerV1 :: "header \<Rightarrow> headerV1" where
  "to_headerV1 h = \<lparr>hKey = Key h, hValue = Value h\<rparr>"

definition of_headerV1 :: "headerV1 \<Rightarrow> header" where
  "of_headerV1 h = \<lparr>Key = hKey h, Value = hValue h\<rparr>"

text \<open>\<open>buildMailBodyDbObject\<close>, on the root's headers and content type.\<close>

fun buildMailBodyDbObject :: "part \<Rightarrow> headerV1 list \<Rightarrow> string \<Rightarrow> (db_error, partV1) outcome"
  and build_child :: "child \<Rightarrow> (db_error, partV1) outcome" where
  "buildMailBodyDbObject NoPart hs ct = Err Unsupported_Body"
| "buildMailBodyDbObject (Text t) hs ct = Ok (PartV1 hs ct t [] [])"
| "buildMailBodyDbObject (Binary b) hs ct = Ok (PartV1 hs ct [] b [])"
| "buildMailBodyDbObject (Multipart cs) hs ct =
     obind (traverse build_child cs) (\<lambda>children. Ok (PartV1 hs ct [] [] children))"
| "build_child (Child ct hs p) = buildMailBodyDbObject p (map to_headerV1 hs) ct"

text \<open>\<open>reconstructMailBodyFromDbObject\<close>: a part that stores nothing is a nil \<open>Part\<close>.\<close>

fun reconstructMailBodyFromDbObject :: "partV1 \<Rightarrow> part"
  and reconstruct_child :: "partV1 \<Rightarrow> child" where
  "reconstructMailBodyFromDbObject (PartV1 hs ct text data children) =
     (if children \<noteq> [] then Multipart (map reconstruct_child children)
      else if text \<noteq> [] then Text text
      else if data \<noteq> [] then Binary data
      else NoPart)"
| "reconstruct_child (PartV1 hs ct text data children) =
     Child ct (map of_headerV1 hs) (reconstructMailBodyFromDbObject (PartV1 hs ct text data children))"

text \<open>The struct tags: \<open>omitempty\<close> drops what is empty; \<open>[]byte\<close> is a Base64 string.\<close>

definition json_header :: "headerV1 \<Rightarrow> json" where
  "json_header h = JObj [(''k'', json_string (hKey h)), (''v'', json_string (hValue h))]"

fun json_part :: "partV1 \<Rightarrow> json" where
  "json_part (PartV1 hs ct text data children) = JObj (
     (if hs = [] then [] else [(''h'', JArr (map json_header hs))])
     @ [(''ct'', json_string ct)]
     @ (if text = [] then [] else [(''text'', json_string text)])
     @ (if data = [] then [] else [(''data'', JStr (b64_encode data))])
     @ (if children = [] then [] else [(''children'', JArr (map json_part children))]))"

definition json_body :: "bodyV1 \<Rightarrow> json" where
  "json_body b = JObj [(''v'', JNum (V b)), (''root'', json_part (Root b))]"

fun parse_header :: "json \<Rightarrow> (db_error, headerV1) outcome" where
  "parse_header JNull = Ok \<lparr>hKey = [], hValue = []\<rparr>"
| "parse_header (JObj kvs) =
     obind (get_string (field ''k'' kvs)) (\<lambda>k. obind (get_string (field ''v'' kvs)) (\<lambda>v.
     Ok \<lparr>hKey = k, hValue = v\<rparr>))"
| "parse_header _ = Err Bad_Json"

definition parse_headers :: "json \<Rightarrow> (db_error, headerV1 list) outcome" where
  "parse_headers j = (case elements j of None \<Rightarrow> Err Bad_Json | Some js \<Rightarrow> traverse parse_header js)"

lemma size_field: "elements (field k kvs) = Some js \<Longrightarrow> j \<in> set js \<Longrightarrow> size j < size (JObj kvs)"
proof -
  assume js: "elements (field k kvs) = Some js" and j: "j \<in> set js"
  then have f: "field k kvs = JArr js" by (cases "field k kvs") auto
  then have "(k, JArr js) \<in> set kvs"
    by (auto simp: field_def dest: map_of_SomeD split: option.splits)
  then have "size (JArr js) < size (JObj kvs)"
    by (induction kvs) auto
  moreover have "size j < size (JArr js)" using j by (induction js) auto
  ultimately show ?thesis by simp
qed

function parse_part :: "json \<Rightarrow> (db_error, partV1) outcome" where
  "parse_part JNull = Ok (PartV1 [] [] [] [] [])"
| "parse_part (JObj kvs) =
     obind (parse_headers (field ''h'' kvs)) (\<lambda>hs.
     obind (get_string (field ''ct'' kvs)) (\<lambda>ct.
     obind (get_string (field ''text'' kvs)) (\<lambda>text.
     obind (get_bytes (field ''data'' kvs)) (\<lambda>data.
     (case elements (field ''children'' kvs) of
        None \<Rightarrow> Err Bad_Json
      | Some js \<Rightarrow> obind (traverse parse_part js) (\<lambda>cs. Ok (PartV1 hs ct text data cs)))))))"
| "parse_part (JNum i) = Err Bad_Json"
| "parse_part (JStr s) = Err Bad_Json"
| "parse_part (JArr js) = Err Bad_Json"
  by pat_completeness auto
termination
  by (relation "measure size") (use size_field in auto)

fun parse_body :: "json \<Rightarrow> (db_error, bodyV1) outcome" where
  "parse_body JNull = Ok \<lparr>V = 0, Root = PartV1 [] [] [] [] []\<rparr>"
| "parse_body (JObj kvs) =
     obind (get_int (field ''v'' kvs)) (\<lambda>v. obind (parse_part (field ''root'' kvs)) (\<lambda>root.
     Ok \<lparr>V = v, Root = root\<rparr>))"
| "parse_body _ = Err Bad_Json"

section \<open>JSON round trip\<close>

definition header_utf8 :: "headerV1 \<Rightarrow> bool" where
  "header_utf8 h \<longleftrightarrow> valid_utf8 (hKey h) \<and> valid_utf8 (hValue h)"

fun part_utf8 :: "partV1 \<Rightarrow> bool" where
  "part_utf8 (PartV1 hs ct text data children) \<longleftrightarrow>
     list_all header_utf8 hs \<and> valid_utf8 ct \<and> valid_utf8 text \<and> list_all part_utf8 children"

lemma parse_json_header: "header_utf8 h \<Longrightarrow> parse_header (json_header h) = Ok h"
  by (simp add: header_utf8_def json_header_def json_string_valid field_def)

lemma traverse_map_inverse:
  "list_all P xs \<Longrightarrow> (\<And>x. x \<in> set xs \<Longrightarrow> P x \<Longrightarrow> f (g x) = Ok x) \<Longrightarrow> traverse f (map g xs) = Ok xs"
  by (induction xs) auto

lemma parse_json_headers:
  "list_all header_utf8 hs \<Longrightarrow> traverse parse_header (map json_header hs) = Ok hs"
  by (rule traverse_map_inverse [where P = header_utf8]) (simp_all add: parse_json_header)

lemma parse_json_part: "part_utf8 p \<Longrightarrow> parse_part (json_part p) = Ok p"
proof (induction p)
  case (PartV1 hs ct s data children)
  have "traverse parse_part (map json_part children) = Ok children"
    by (rule traverse_map_inverse [where P = part_utf8]) (use PartV1 in auto)
  with PartV1.prems show ?case
    by (simp add: field_def parse_headers_def parse_json_headers json_string_valid b64.dec_enc)
qed

lemma parse_json_body: "part_utf8 (Root b) \<Longrightarrow> parse_body (json_body b) = Ok b"
  by (cases b) (simp add: json_body_def field_def parse_json_part)

section \<open>Rows\<close>

record mail_row =
  row_FromAddress :: "string option"
  row_ReplyTo :: "string list"
  row_ToAddresses :: "string list"
  row_CcAddresses :: "string list"
  row_BccAddresses :: "string list"
  row_ExtraHeaders :: json
  row_Subject :: "string option"
  row_Body :: json
  row_MessageID :: string
  row_DateHeader :: gotime

definition MailToDBEntity :: "mail \<Rightarrow> (db_error, mail_row) outcome" where
  "MailToDBEntity m =
     obind (buildMailBodyDbObject (Body m) [] (ContentType m)) (\<lambda>root. Ok
       \<lparr>row_FromAddress = Some (address_String (From m)),
        row_ReplyTo = map address_String (ReplyTo m),
        row_ToAddresses = map address_String (To m),
        row_CcAddresses = map address_String (Cc m),
        row_BccAddresses = map address_String (Bcc m),
        row_ExtraHeaders = JArr (map (json_header \<circ> to_headerV1) (Headers m)),
        row_Subject = Some (Subject m),
        row_Body = json_body \<lparr>V = 1, Root = root\<rparr>,
        row_MessageID = MessageID m,
        row_DateHeader = Date m\<rparr>)"

type_synonym address_parser = "string \<Rightarrow> address option"

definition fromAddress :: "address_parser \<Rightarrow> string \<Rightarrow> (db_error, address) outcome" where
  "fromAddress parse_address s = (case parse_address s of
      None \<Rightarrow> Err (Bad_Address s)
    | Some a \<Rightarrow> if Address a = [] then Err (Bad_Address s) else Ok a)"

definition fromAddressList :: "address_parser \<Rightarrow> string list \<Rightarrow> (db_error, address list) outcome" where
  "fromAddressList parse_address = traverse (fromAddress parse_address)"

text \<open>The error value of a call, for \<open>errors.Join\<close>, and its result, zero on an error.\<close>

fun error_of :: "('e, 'a) outcome \<Rightarrow> 'e list" where
  "error_of (Err e) = [e]"
| "error_of _ = []"

fun value_or :: "'a \<Rightarrow> ('e, 'a) outcome \<Rightarrow> 'a" where
  "value_or z (Ok x) = x"
| "value_or z _ = z"

definition DBEntityToMail :: "address_parser \<Rightarrow> mail_row \<Rightarrow> (db_error list, mail) outcome" where
  "DBEntityToMail parse_address row =
     (case row_FromAddress row of None \<Rightarrow> Panic Nil_Deref
      | Some from \<Rightarrow>
        (let parsedFrom = parse_address from;
             fromErr = (case parsedFrom of None \<Rightarrow> [Bad_From from]
               | Some a \<Rightarrow> if Address a = [] then [Bad_From from] else []);
             replyTo = fromAddressList parse_address (row_ReplyTo row);
             to = fromAddressList parse_address (row_ToAddresses row);
             cc = fromAddressList parse_address (row_CcAddresses row);
             bcc = fromAddressList parse_address (row_BccAddresses row);
             hdrs = parse_headers (row_ExtraHeaders row);
             errs = fromErr @ error_of replyTo @ error_of to @ error_of cc @ error_of bcc @ error_of hdrs
         in if errs \<noteq> [] then Err errs
            else (case parse_body (row_Body row) of
                Err e \<Rightarrow> Err [e]
              | Panic p \<Rightarrow> Panic p
              | Ok root \<Rightarrow>
                (case row_Subject row of None \<Rightarrow> Panic Nil_Deref
                 | Some subject \<Rightarrow> Ok
                   \<lparr>From = the parsedFrom, ReplyTo = value_or [] replyTo, To = value_or [] to,
                    Cc = value_or [] cc, Bcc = value_or [] bcc, Subject = subject,
                    Date = row_DateHeader row, MessageID = row_MessageID row,
                    ContentType = pContentType (Root root),
                    Headers = map of_headerV1 (value_or [] hdrs),
                    Body = reconstructMailBodyFromDbObject (Root root)\<rparr>))))"

section \<open>What survives the round trip\<close>

definition header_storable :: "header \<Rightarrow> bool" where
  "header_storable h \<longleftrightarrow> valid_utf8 (Key h) \<and> valid_utf8 (Value h)"

fun part_storable :: "part \<Rightarrow> bool" and child_storable :: "child \<Rightarrow> bool" where
  "part_storable NoPart = False"
| "part_storable (Text t) = (t \<noteq> [] \<and> valid_utf8 t)"
| "part_storable (Binary b) = (b \<noteq> [])"
| "part_storable (Multipart cs) = (cs \<noteq> [] \<and> list_all child_storable cs)"
| "child_storable (Child ct hs p) = (valid_utf8 ct \<and> list_all header_storable hs \<and> part_storable p)"

lemma header_inverse [simp]: "of_headerV1 (to_headerV1 h) = h"
  by (simp add: of_headerV1_def to_headerV1_def)

lemma header_utf8_to: "header_utf8 (to_headerV1 h) = header_storable h"
  by (simp add: header_utf8_def to_headerV1_def header_storable_def)

text \<open>A body that can be stored is built, is UTF-8 throughout, and is reconstructed.\<close>

lemma build_storable:
  "part_storable p \<Longrightarrow> list_all header_utf8 hs \<Longrightarrow> valid_utf8 ct \<Longrightarrow>
     \<exists>r. buildMailBodyDbObject p hs ct = Ok r \<and> pHeaders r = hs \<and> pContentType r = ct
       \<and> part_utf8 r \<and> reconstructMailBodyFromDbObject r = p"
  and build_child_storable:
  "child_storable c \<Longrightarrow>
     \<exists>r. build_child c = Ok r \<and> part_utf8 r \<and> reconstruct_child r = c"
proof (induction p and c arbitrary: hs ct and rule: part_storable_child_storable.induct)
  case (4 cs)
  define mk where "mk c = (SOME r. build_child c = Ok r \<and> part_utf8 r \<and> reconstruct_child r = c)" for c
  have mk: "build_child c = Ok (mk c) \<and> part_utf8 (mk c) \<and> reconstruct_child (mk c) = c" if "c \<in> set cs" for c
    unfolding mk_def by (rule someI_ex) (use 4 that in \<open>auto simp: list_all_iff\<close>)
  then have "traverse build_child cs = Ok (map mk cs)"
    by (intro traverse_Ok_map) auto
  with 4 mk show ?case
    by (auto simp: list_all_iff ascii_valid_utf8 intro!: map_idI)
next
  case (5 ct hs p)
  then have "list_all header_utf8 (map to_headerV1 hs)"
    by (simp add: list_all_iff header_utf8_to)
  with 5 obtain r where r: "buildMailBodyDbObject p (map to_headerV1 hs) ct = Ok r"
    "pHeaders r = map to_headerV1 hs" "pContentType r = ct" "part_utf8 r"
    "reconstructMailBodyFromDbObject r = p" by fastforce
  then have "reconstruct_child r = Child ct hs p"
    by (cases r) (simp add: comp_def del: reconstructMailBodyFromDbObject.simps)
  with r show ?case by simp
qed (simp_all add: ascii_valid_utf8)

definition mail_storable :: "mail \<Rightarrow> bool" where
  "mail_storable m \<longleftrightarrow> part_storable (Body m) \<and> valid_utf8 (ContentType m)
     \<and> list_all header_storable (Headers m)"

definition all_addresses :: "mail \<Rightarrow> address list" where
  "all_addresses m = From m # ReplyTo m @ To m @ Cc m @ Bcc m"

lemma fromAddressList_String:
  "list_all (\<lambda>a. parse_address (address_String a) = Some a \<and> Address a \<noteq> []) as \<Longrightarrow>
     fromAddressList parse_address (map address_String as) = Ok as"
  unfolding fromAddressList_def
  by (rule traverse_map_inverse
      [where P = "\<lambda>a. parse_address (address_String a) = Some a \<and> Address a \<noteq> []"])
     (auto simp: fromAddress_def)

lemma DBEntityToMail_built:
  assumes "buildMailBodyDbObject (Body m) [] (ContentType m) = Ok r" and "pContentType r = ContentType m"
    and "part_utf8 r" and "list_all header_storable (Headers m)"
    and "list_all (\<lambda>a. parse_address (address_String a) = Some a \<and> Address a \<noteq> []) (all_addresses m)"
  shows "\<exists>row. MailToDBEntity m = Ok row
    \<and> DBEntityToMail parse_address row = Ok (m\<lparr>Body := reconstructMailBodyFromDbObject r\<rparr>)"
proof -
  have "list_all header_utf8 (map to_headerV1 (Headers m))"
    using assms(4) by (simp add: list_all_iff header_utf8_to)
  then have "parse_headers (JArr (map (json_header \<circ> to_headerV1) (Headers m)))
      = Ok (map to_headerV1 (Headers m))"
    using parse_json_headers by (simp add: parse_headers_def flip: map_map)
  moreover have "fromAddressList parse_address (map address_String as) = Ok as"
    if "as \<in> {ReplyTo m, To m, Cc m, Bcc m}" for as
    by (rule fromAddressList_String) (use assms(5) that in \<open>auto simp: all_addresses_def list_all_iff\<close>)
  moreover have "parse_address (address_String (From m)) = Some (From m)" "Address (From m) \<noteq> []"
    using assms(5) by (simp_all add: all_addresses_def)
  ultimately show ?thesis
    using assms(1,2,3) by (simp add: MailToDBEntity_def DBEntityToMail_def parse_json_body comp_def Let_def)
qed

lemma DBEntityToMail_MailToDBEntity:
  assumes "mail_storable m"
    and "list_all (\<lambda>a. parse_address (address_String a) = Some a \<and> Address a \<noteq> []) (all_addresses m)"
  shows "\<exists>row. MailToDBEntity m = Ok row \<and> DBEntityToMail parse_address row = Ok m"
proof -
  obtain r where r: "buildMailBodyDbObject (Body m) [] (ContentType m) = Ok r"
    "pContentType r = ContentType m" "part_utf8 r" "reconstructMailBodyFromDbObject r = Body m"
    using build_storable [of "Body m" "[]" "ContentType m"] assms(1) by (auto simp: mail_storable_def)
  with DBEntityToMail_built [OF r(1-3) _ assms(2)] assms(1) show ?thesis by (simp add: mail_storable_def)
qed

text \<open>An empty text (and likewise empty data and a multipart without children) comes back as a
  nil part.\<close>

lemma reconstruct_empty:
  "reconstructMailBodyFromDbObject (PartV1 hs ct [] [] []) = NoPart"
  by simp

section \<open>What is read back from a row\<close>

lemma fromAddressList_read_back:
  assumes "list_all (\<lambda>a. pa (address_String a) = Some a) as"
  shows "fromAddressList pa (map address_String as) = Ok as
    \<or> (\<exists>e. fromAddressList pa (map address_String as) = Err e)"
  using assms
proof (induction as)
  case (Cons a as)
  then show ?case by (auto simp: fromAddressList_def fromAddress_def)
qed (simp add: fromAddressList_def)

lemma error_of_Err: "error_of x = [] \<Longrightarrow> x \<noteq> Err e"
  by (cases x) simp_all

lemma DBEntityToMail_Ok:
  assumes "DBEntityToMail pa row = Ok m"
  shows "\<exists>s a. row_FromAddress row = Some s \<and> pa s = Some a \<and> From m = a"
    and "error_of (fromAddressList pa (row_ReplyTo row)) = [] \<and> ReplyTo m = value_or [] (fromAddressList pa (row_ReplyTo row))"
    and "error_of (fromAddressList pa (row_ToAddresses row)) = [] \<and> To m = value_or [] (fromAddressList pa (row_ToAddresses row))"
    and "error_of (fromAddressList pa (row_CcAddresses row)) = [] \<and> Cc m = value_or [] (fromAddressList pa (row_CcAddresses row))"
    and "error_of (fromAddressList pa (row_BccAddresses row)) = [] \<and> Bcc m = value_or [] (fromAddressList pa (row_BccAddresses row))"
    and "row_Subject row = Some (Subject m) \<and> Date m = row_DateHeader row \<and> MessageID m = row_MessageID row"
  using assms unfolding DBEntityToMail_def Let_def
  by (auto split: option.splits if_splits outcome.splits)

text \<open>Whatever becomes of the parts: a mail that is read back from the row of a mail has its
  addresses, subject, date and ID.\<close>

lemma row_read_back:
  assumes "MailToDBEntity m0 = Ok row" and "DBEntityToMail pa row = Ok m"
    and "list_all (\<lambda>a. pa (address_String a) = Some a) (all_addresses m0)"
  shows "m = m0\<lparr>ContentType := ContentType m, Headers := Headers m, Body := Body m\<rparr>"
proof -
  have lists: "fromAddressList pa (map address_String as) = Ok as \<or> (\<exists>e. fromAddressList pa (map address_String as) = Err e)"
    if "as \<in> {ReplyTo m0, To m0, Cc m0, Bcc m0}" for as
    by (rule fromAddressList_read_back) (use assms(3) that in \<open>auto simp: all_addresses_def list_all_iff\<close>)
  have sender: "pa (address_String (From m0)) = Some (From m0)"
    using assms(3) by (simp add: all_addresses_def)
  have row: "row_FromAddress row = Some (address_String (From m0))"
    "row_ReplyTo row = map address_String (ReplyTo m0)" "row_ToAddresses row = map address_String (To m0)"
    "row_CcAddresses row = map address_String (Cc m0)" "row_BccAddresses row = map address_String (Bcc m0)"
    "row_Subject row = Some (Subject m0)" "row_MessageID row = MessageID m0" "row_DateHeader row = Date m0"
    using assms(1) by (auto simp: MailToDBEntity_def obind_eq_Ok)
  have "fromAddressList pa (map address_String as) = Ok as" if "as \<in> {ReplyTo m0, To m0, Cc m0, Bcc m0}" for as
    using lists [OF that] that DBEntityToMail_Ok(2-5) [OF assms(2)] by (auto simp: row error_of_Err)
  with DBEntityToMail_Ok [OF assms(2)] row sender show ?thesis by (intro mail.equality) simp_all
qed

section \<open>The zone of the date\<close>

text \<open>The column \<open>date_header\<close> is a TIMESTAMPTZ: it keeps the instant and not the zone, and whoever reads
  it gets the instant in a zone of their own, \<open>z\<close>, which may depend on the instant.\<close>

definition in_zone :: "(int \<Rightarrow> int) \<Rightarrow> gotime \<Rightarrow> gotime" where
  "in_zone z t = t\<lparr>zone := z (unix t)\<rparr>"

definition row_in_zone :: "(int \<Rightarrow> int) \<Rightarrow> mail_row \<Rightarrow> mail_row" where
  "row_in_zone z row = row\<lparr>row_DateHeader := in_zone z (row_DateHeader row)\<rparr>"

definition mail_in_zone :: "(int \<Rightarrow> int) \<Rightarrow> mail \<Rightarrow> mail" where
  "mail_in_zone z m = m\<lparr>Date := in_zone z (Date m)\<rparr>"

lemma in_zone_sel [simp]: "unix (in_zone z t) = unix t" "in_zone z (in_zone z' t) = in_zone z t"
  by (simp_all add: in_zone_def)

lemma row_in_zone_again [simp]: "row_in_zone z (row_in_zone z' row) = row_in_zone z row"
  by (simp add: row_in_zone_def)

lemma mail_in_zone_sel [simp]:
  "From (mail_in_zone z m) = From m" "ReplyTo (mail_in_zone z m) = ReplyTo m" "To (mail_in_zone z m) = To m"
  "Cc (mail_in_zone z m) = Cc m" "Bcc (mail_in_zone z m) = Bcc m" "Subject (mail_in_zone z m) = Subject m"
  "Date (mail_in_zone z m) = in_zone z (Date m)" "MessageID (mail_in_zone z m) = MessageID m"
  "ContentType (mail_in_zone z m) = ContentType m" "Headers (mail_in_zone z m) = Headers m" "Body (mail_in_zone z m) = Body m"
  by (simp_all add: mail_in_zone_def)

text \<open>Nothing but the date depends on it.\<close>

lemma DBEntityToMail_in_zone:
  "DBEntityToMail pa (row_in_zone z row) = (case DBEntityToMail pa row of
      Ok m \<Rightarrow> Ok (mail_in_zone z m) | Err es \<Rightarrow> Err es | Panic p \<Rightarrow> Panic p)"
  by (cases "row_FromAddress row"; cases "row_Subject row")
     (auto simp: DBEntityToMail_def row_in_zone_def mail_in_zone_def Let_def split: outcome.splits)

lemma MailToDBEntity_in_zone: "MailToDBEntity m = Ok row \<Longrightarrow> MailToDBEntity (mail_in_zone z m) = Ok (row_in_zone z row)"
  by (auto simp: MailToDBEntity_def obind_eq_Ok row_in_zone_def)

end
