(* ===== verification/Grpc_Mailer.thy ===== *)
theory Grpc_Mailer
  imports Database_Mail
begin

text \<open>
  \<^verbatim>\<open>internal/grpcservers/mailer.go\<close>: from the messages of \<^verbatim>\<open>servis/sip/notifications/mail.proto\<close>
  to the mailer's mail. A message field that may be absent is an option, a pointer to a
  message that may be nil is an option or has a constructor for nil, a \<open>oneof\<close> is a datatype.
  The clock (\<open>now\<close>) and \<open>mail.ParseAddress\<close> are parameters.
\<close>

section \<open>The messages\<close>

datatype pb_address =
    Mail_Address (pb_name: string) (pb_addr: string)
  | Vseth_User_Id string
  | Address_Unset

datatype mime_part =
    Nil_Part
  | MimePart (pb_part_type: "string option") (pb_part_headers: "header option list") mime_content
and mime_content =
    Content string
  | ContentBytes bytes
  | Nested mime_body
  | Content_Unset
and mime_body =
    Nil_Body
  | MimeBody "mime_part list"

record attachment =
  filename :: string
  att_content_type :: "string option"
  att_content :: bytes
  content_id :: "string option"
  disposition :: nat

record simple_mail =
  plain_text :: "string option"
  html :: "string option"
  attachments :: "attachment option list"

datatype pb_body =
    PlainText string
  | SimpleMail simple_mail
  | MultipartBody mime_body
  | RawBody bytes

record pb_mail =
  pb_From :: "pb_address option"
  pb_ReplyTo :: "pb_address option list"
  pb_To :: "pb_address option list"
  pb_Cc :: "pb_address option list"
  pb_Bcc :: "pb_address option list"
  pb_ExtraHeaders :: "header option list"
  pb_Subject :: string
  pb_ContentType :: "string option"
  pb_BodyOneof :: "pb_body option"

datatype conv_error =
    Address_Nil | Address_Unparsable string | Address_Not_Plain string | Address_Insane string
  | User_Id_Unsupported | Address_Unknown
  | Header_Nil | Header_Key_Invalid string | Header_Key_Reserved string
  | Content_Type_Unparsable string | Simple_With_Content_Type | Simple_Without_Body
  | Attachment_Nil | Body_Unset
  | Part_Nil | Part_Unknown | Mime_Body_Nil
  | Mail_Invalid "mail_error list"

section \<open>Addresses\<close>

definition transformAddressFormatsToPlainAddress ::
    "address_parser \<Rightarrow> pb_address option \<Rightarrow> (conv_error, address) outcome" where
  "transformAddressFormatsToPlainAddress parse_address addr =
     (case addr of
        None \<Rightarrow> Err Address_Nil
      | Some (Mail_Address n a) \<Rightarrow>
          (case parse_address a of
             None \<Rightarrow> Err (Address_Unparsable a)
           | Some parsedAddress \<Rightarrow>
             if Address parsedAddress \<noteq> a then Err (Address_Not_Plain a)
             else (let stdMailAddr = \<lparr>Name = n, Address = a\<rparr> in
               if parse_address (address_String stdMailAddr) = None then Err (Address_Insane a)
               else Ok stdMailAddr))
      | Some (Vseth_User_Id _) \<Rightarrow> Err User_Id_Unsupported
      | Some Address_Unset \<Rightarrow> Err Address_Unknown)"

definition transformAddressLists ::
    "address_parser \<Rightarrow> pb_address option list \<Rightarrow> (conv_error, address list) outcome" where
  "transformAddressLists parse_address = traverse (transformAddressFormatsToPlainAddress parse_address)"

section \<open>MIME bodies\<close>

fun default_type :: "mime_content \<Rightarrow> string" where
  "default_type (Content _) = ''text/plain; charset=utf-8''"
| "default_type (ContentBytes _) = ''application/octet-stream''"
| "default_type (Nested _) = ''multipart/mixed''"
| "default_type Content_Unset = []"

definition part_header :: "header option \<Rightarrow> (conv_error, header) outcome" where
  "part_header h = (case h of
      None \<Rightarrow> Err Header_Nil
    | Some h \<Rightarrow> if ValidateHeaderKey (Key h) then Ok h else Err (Header_Key_Invalid (Key h)))"

text \<open>\<open>transformMimePartsToMailerParts\<close> on a part's content, one round of the loop of
  \<open>transformPbMimeBodyToMailerBody\<close> (which reads \<open>part.ContentType\<close> of a nil part before the
  part is checked), and the loop.\<close>

fun transformMimePartsToMailerParts :: "mime_content \<Rightarrow> (conv_error, part) outcome"
  and transform_child :: "mime_part \<Rightarrow> (conv_error, child) outcome"
  and transformPbMimeBodyToMailerBody :: "mime_body \<Rightarrow> (conv_error, part) outcome" where
  "transformMimePartsToMailerParts (Content s) = Ok (Text s)"
| "transformMimePartsToMailerParts (ContentBytes b) = Ok (Binary b)"
| "transformMimePartsToMailerParts (Nested body) = transformPbMimeBodyToMailerBody body"
| "transformMimePartsToMailerParts Content_Unset = Err Part_Unknown"
| "transform_child Nil_Part = Panic Nil_Deref"
| "transform_child (MimePart ct hs c) =
     obind (transformMimePartsToMailerParts c) (\<lambda>p.
     obind (traverse part_header hs) (\<lambda>headers.
     Ok (Child (case ct of Some t \<Rightarrow> t | None \<Rightarrow> default_type c) headers p)))"
| "transformPbMimeBodyToMailerBody Nil_Body = Err Mime_Body_Nil"
| "transformPbMimeBodyToMailerBody (MimeBody parts) =
     obind (traverse transform_child parts) (\<lambda>children. Ok (Multipart children))"

section \<open>The mail\<close>

text \<open>The loop over the extra headers checks them; it appends nothing to \<open>headers\<close>.\<close>

fun check_extra_headers :: "header option list \<Rightarrow> (conv_error, header list) outcome" where
  "check_extra_headers [] = Ok []"
| "check_extra_headers (None # hs) = Err Header_Nil"
| "check_extra_headers (Some h # hs) =
     (if \<not> ValidateHeaderKey (Key h) then Err (Header_Key_Invalid (Key h))
      else if IsHeaderKeyReserved (Key h) then Err (Header_Key_Reserved (Key h))
      else check_extra_headers hs)"

definition attachment_child :: "attachment option \<Rightarrow> (conv_error, child) outcome" where
  "attachment_child a = (case a of
      None \<Rightarrow> Err Attachment_Nil
    | Some a \<Rightarrow> Ok (Child (case att_content_type a of Some t \<Rightarrow> t | None \<Rightarrow> ''application/octet-stream'')
        [] (Binary (att_content a))))"

text \<open>The content type and the part of a \<open>SimpleMail\<close> without its attachments.\<close>

definition simple_body :: "simple_mail \<Rightarrow> string \<times> part" where
  "simple_body s = (case (plain_text s, html s) of
      (pt, None) \<Rightarrow> (''text/plain; charset=utf-8'', Text (case pt of Some t \<Rightarrow> t | None \<Rightarrow> []))
    | (None, Some h) \<Rightarrow> (''text/html; charset=utf-8'', Text h)
    | (Some t, Some h) \<Rightarrow> (''multipart/alternative'', Multipart
        [Child ''text/plain; charset=utf-8'' [] (Text t), Child ''text/html; charset=utf-8'' [] (Text h)]))"

definition mail_body :: "string option \<Rightarrow> pb_body option \<Rightarrow> (conv_error, string \<times> part) outcome" where
  "mail_body ct body = (case body of
      None \<Rightarrow> Err Body_Unset
    | Some (PlainText t) \<Rightarrow> Ok (case ct of Some c \<Rightarrow> c | None \<Rightarrow> ''text/plain; charset=utf-8'', Text t)
    | Some (SimpleMail s) \<Rightarrow>
        if ct \<noteq> None then Err Simple_With_Content_Type
        else if plain_text s = None \<and> html s = None then Err Simple_Without_Body
        else if attachments s = [] then Ok (simple_body s)
        else obind (traverse attachment_child (attachments s)) (\<lambda>cs.
          Ok (''multipart/mixed'', Multipart (Child (fst (simple_body s)) [] (snd (simple_body s)) # cs)))
    | Some (MultipartBody b) \<Rightarrow>
        obind (transformPbMimeBodyToMailerBody b) (\<lambda>p.
          Ok (case ct of Some c \<Rightarrow> c | None \<Rightarrow> ''multipart/mixed'', p))
    | Some (RawBody b) \<Rightarrow> Ok (case ct of Some c \<Rightarrow> c | None \<Rightarrow> ''application/octet-stream'', Binary b))"

definition check_content_type :: "string option \<Rightarrow> (conv_error, unit) outcome" where
  "check_content_type ct = (case ct of None \<Rightarrow> Ok ()
     | Some c \<Rightarrow> if snd (snd (parse_media_type c)) = None then Ok () else Err (Content_Type_Unparsable c))"

text \<open>The request's sender is overwritten with the sender that was chosen.\<close>

definition with_sender :: "pb_mail \<Rightarrow> address \<Rightarrow> pb_mail" where
  "with_sender mailReq from = mailReq\<lparr>pb_From := Some (Mail_Address (Name from) (Address from))\<rparr>"

definition pbMailToValidatedMail ::
    "address_parser \<Rightarrow> gotime \<Rightarrow> pb_mail \<Rightarrow> address \<Rightarrow> (conv_error, mail) outcome" where
  "pbMailToValidatedMail pa now mailReq from =
     (let mailReq = with_sender mailReq from in
      obind (transformAddressFormatsToPlainAddress pa (pb_From mailReq)) (\<lambda>fromAddr.
      obind (transformAddressLists pa (pb_ReplyTo mailReq)) (\<lambda>replyTo.
      obind (transformAddressLists pa (pb_To mailReq)) (\<lambda>to.
      obind (transformAddressLists pa (pb_Cc mailReq)) (\<lambda>cc.
      obind (transformAddressLists pa (pb_Bcc mailReq)) (\<lambda>bcc.
      obind (check_extra_headers (pb_ExtraHeaders mailReq)) (\<lambda>headers.
      obind (check_content_type (pb_ContentType mailReq)) (\<lambda>_.
      obind (mail_body (pb_ContentType mailReq) (pb_BodyOneof mailReq)) (\<lambda>(ct, body).
      (let m = \<lparr>From = fromAddr, ReplyTo = replyTo, To = to, Cc = cc, Bcc = bcc,
                Subject = pb_Subject mailReq, Date = now, MessageID = [], ContentType = ct,
                Headers = headers, Body = body\<rparr>
       in case ValidateMail m of
            Ok _ \<Rightarrow> Ok m | Err es \<Rightarrow> Err (Mail_Invalid es) | Panic p \<Rightarrow> Panic p))))))))))"

section \<open>What comes out\<close>

text \<open>An address that is let through parses to itself alone, and parses as printed.\<close>

definition address_sane :: "address_parser \<Rightarrow> address \<Rightarrow> bool" where
  "address_sane pa a \<longleftrightarrow> (case pa (Address a) of None \<Rightarrow> False | Some b \<Rightarrow> Address b = Address a)
     \<and> pa (address_String a) \<noteq> None"

lemma address_eta [simp]: "\<lparr>Name = Name a, Address = Address a\<rparr> = (a :: address)"
  by simp

lemma transformAddress_Mail_Address:
  "transformAddressFormatsToPlainAddress pa (Some (Mail_Address n s)) = Ok a \<longleftrightarrow>
     a = \<lparr>Name = n, Address = s\<rparr> \<and> address_sane pa a"
  by (cases "pa s") (auto simp: transformAddressFormatsToPlainAddress_def address_sane_def Let_def)

lemma transformAddress_Ok:
  "transformAddressFormatsToPlainAddress pa x = Ok a \<longleftrightarrow>
     x = Some (Mail_Address (Name a) (Address a)) \<and> address_sane pa a"
proof (cases x)
  case (Some y)
  show ?thesis
  proof (cases y)
    case (Mail_Address n s)
    then show ?thesis using Some by (cases a) (auto simp: transformAddress_Mail_Address)
  qed (simp_all add: Some transformAddressFormatsToPlainAddress_def)
qed (simp add: transformAddressFormatsToPlainAddress_def)

lemma transformAddressLists_Ok:
  "transformAddressLists pa xs = Ok ys \<longleftrightarrow>
     xs = map (\<lambda>a. Some (Mail_Address (Name a) (Address a))) ys \<and> list_all (address_sane pa) ys"
proof (induction xs arbitrary: ys)
  case Nil
  then show ?case by (auto simp: transformAddressLists_def)
next
  case (Cons x xs)
  then show ?case
    by (cases ys) (auto simp: transformAddressLists_def obind_eq_Ok transformAddress_Ok)
qed

lemma check_extra_headers_Ok:
  "check_extra_headers hs = Ok r \<longleftrightarrow> r = [] \<and> list_all (\<lambda>h. case h of None \<Rightarrow> False
     | Some h \<Rightarrow> ValidateHeaderKey (Key h) \<and> \<not> IsHeaderKeyReserved (Key h)) hs"
  by (induction hs rule: check_extra_headers.induct) auto

lemma validated_Ok:
  "(case r of Ok _ \<Rightarrow> Ok m | Err es \<Rightarrow> Err (f es) | Panic p \<Rightarrow> Panic p) = Ok m' \<longleftrightarrow> r = Ok () \<and> m' = m"
  by (cases r) auto

lemma pbMailToValidatedMail_Ok:
  "pbMailToValidatedMail pa now req sender = Ok m \<longleftrightarrow>
    From m = sender \<and> address_sane pa sender
    \<and> transformAddressLists pa (pb_ReplyTo req) = Ok (ReplyTo m)
    \<and> transformAddressLists pa (pb_To req) = Ok (To m)
    \<and> transformAddressLists pa (pb_Cc req) = Ok (Cc m)
    \<and> transformAddressLists pa (pb_Bcc req) = Ok (Bcc m)
    \<and> check_extra_headers (pb_ExtraHeaders req) = Ok (Headers m)
    \<and> check_content_type (pb_ContentType req) = Ok ()
    \<and> mail_body (pb_ContentType req) (pb_BodyOneof req) = Ok (ContentType m, Body m)
    \<and> Subject m = pb_Subject req \<and> Date m = now \<and> MessageID m = [] \<and> ValidateMail m = Ok ()"
  by (cases m)
     (auto simp: pbMailToValidatedMail_def Let_def with_sender_def obind_eq_Ok
      transformAddress_Mail_Address validated_Ok)

lemma ValidateMail_MessageID: "ValidateMail (m\<lparr>MessageID := i\<rparr>) = ValidateMail m"
proof -
  have "content_type_errors (m\<lparr>MessageID := i\<rparr>) = content_type_errors m"
    by (simp add: content_type_errors_def Let_def split: prod.split option.split)
  then show ?thesis by (simp add: ValidateMail_def)
qed

text \<open>A multipart body always has a content type here, so rendering cannot panic.\<close>

lemma parse_media_type_empty: "snd (snd (parse_media_type [])) \<noteq> None"
  by code_simp

lemma mail_body_multipart:
  assumes "mail_body ct b = Ok (c, p)" and "check_content_type ct = Ok ()" and "is_multipart p"
  shows "c \<noteq> []"
  using assms parse_media_type_empty
  by (auto simp: mail_body_def check_content_type_def simple_body_def obind_eq_Ok
      split: option.splits pb_body.splits if_splits)

lemma converted_mail_renders:
  assumes "pbMailToValidatedMail pa now req from = Ok m"
  shows "\<exists>s. GetInternetMessageFormat rb (m\<lparr>MessageID := i\<rparr>) has8 = Ok s"
proof (rule GetInternetMessageFormat_Ok)
  show "ValidateMail (m\<lparr>MessageID := i\<rparr>) = Ok ()"
    using assms by (simp add: ValidateMail_MessageID pbMailToValidatedMail_Ok)
  show "ContentType (m\<lparr>MessageID := i\<rparr>) \<noteq> []" if "is_multipart (Body (m\<lparr>MessageID := i\<rparr>))"
    using assms that mail_body_multipart by (auto simp: pbMailToValidatedMail_Ok)
qed

section \<open>When the conversion panics\<close>

text \<open>A list of parts without a nil element; such a list is never sent by a client of the wire
  format, which cannot write one.\<close>

fun nil_free :: "mime_content \<Rightarrow> bool" and nil_free_part :: "mime_part \<Rightarrow> bool"
  and nil_free_body :: "mime_body \<Rightarrow> bool" where
  "nil_free (Content s) = True"
| "nil_free (ContentBytes b) = True"
| "nil_free (Nested body) = nil_free_body body"
| "nil_free Content_Unset = True"
| "nil_free_part Nil_Part = False"
| "nil_free_part (MimePart ct hs c) = nil_free c"
| "nil_free_body Nil_Body = True"
| "nil_free_body (MimeBody parts) = list_all nil_free_part parts"

lemma part_header_no_panic: "\<not> panics (traverse part_header hs)"
  by (rule traverse_no_panic) (auto simp: part_header_def split: option.split)

lemma transform_nil_free:
  "nil_free c \<Longrightarrow> \<not> panics (transformMimePartsToMailerParts c)
     \<and> (\<forall>p. transformMimePartsToMailerParts c = Ok p \<longrightarrow> complete p)"
  and transform_child_nil_free:
  "nil_free_part mp \<Longrightarrow> \<not> panics (transform_child mp) \<and> (\<forall>ch. transform_child mp = Ok ch \<longrightarrow> complete_child ch)"
  and transform_body_nil_free:
  "nil_free_body b \<Longrightarrow> \<not> panics (transformPbMimeBodyToMailerBody b)
     \<and> (\<forall>p. transformPbMimeBodyToMailerBody b = Ok p \<longrightarrow> complete p)"
proof (induction c and mp and b rule: nil_free_nil_free_part_nil_free_body.induct)
  case (6 ct hs c)
  then show ?case using part_header_no_panic [of hs] by (auto simp: obind_eq_Ok)
next
  case (8 parts)
  then have "\<not> panics (traverse transform_child parts)"
    by (intro traverse_no_panic) (simp add: list_all_iff)
  moreover have "list_all complete_child cs" if "traverse transform_child parts = Ok cs" for cs
    using that by (rule traverse_Ok_all) (use 8 in \<open>auto simp: list_all_iff\<close>)
  ultimately show ?case by (auto simp: obind_eq_Ok)
qed simp_all

definition body_nil_free :: "pb_body option \<Rightarrow> bool" where
  "body_nil_free b = (case b of Some (MultipartBody mb) \<Rightarrow> nil_free_body mb | _ \<Rightarrow> True)"

lemma attachments_no_panic:
  "\<not> panics (traverse attachment_child as)"
  "traverse attachment_child as = Ok cs \<Longrightarrow> list_all complete_child cs"
  by (rule traverse_no_panic, simp add: attachment_child_def split: option.split)
     (erule traverse_Ok_all, auto simp: attachment_child_def split: option.splits)

lemma mail_body_no_panic:
  assumes "body_nil_free b"
  shows "\<not> panics (mail_body ct b)" and "mail_body ct b = Ok (c, p) \<Longrightarrow> complete p"
proof -
  have simple: "complete (snd (simple_body s))" for s
    by (simp add: simple_body_def split: option.split)
  show "\<not> panics (mail_body ct b)"
    using assms attachments_no_panic(1) transform_body_nil_free
    by (auto simp: mail_body_def body_nil_free_def split: option.split pb_body.split)
  show "complete p" if "mail_body ct b = Ok (c, p)"
    using that assms attachments_no_panic(2) transform_body_nil_free simple
    by (auto simp: mail_body_def body_nil_free_def obind_eq_Ok prod_eq_iff
        split: option.splits pb_body.splits if_splits)
qed

lemma transformAddress_no_panic: "\<not> panics (transformAddressFormatsToPlainAddress pa x)"
  by (auto simp: transformAddressFormatsToPlainAddress_def Let_def split: option.split pb_address.split)

lemma transformAddressLists_no_panic: "\<not> panics (transformAddressLists pa xs)"
  unfolding transformAddressLists_def by (rule traverse_no_panic) (rule transformAddress_no_panic)

lemma check_extra_headers_no_panic: "\<not> panics (check_extra_headers hs)"
  by (induction hs rule: check_extra_headers.induct) simp_all

lemma panics_validated:
  "panics (case r of Ok _ \<Rightarrow> Ok m | Err es \<Rightarrow> Err (f es) | Panic p \<Rightarrow> Panic p) \<longleftrightarrow> panics r"
  by (cases r) simp_all

lemma pbMailToValidatedMail_no_panic:
  assumes "body_nil_free (pb_BodyOneof req)"
  shows "\<not> panics (pbMailToValidatedMail pa now req sender)"
proof -
  have ct: "\<not> panics (check_content_type ct)" for ct
    by (simp add: check_content_type_def split: option.split)
  show ?thesis
    using assms transformAddress_no_panic transformAddressLists_no_panic check_extra_headers_no_panic ct
      mail_body_no_panic validate_no_panic
    by (auto simp: pbMailToValidatedMail_def Let_def with_sender_def panics_validated ValidateMail_panics)
qed

end
