(* ===== verification/Auth_Token_Provider.thy ===== *)
theory Auth_Token_Provider
  imports Go_Transfer "HOL-Library.Word"
begin

text \<open>
  \<^verbatim>\<open>internal/auth/service_account.go\<close>: the provider of access tokens for the service accounts,
  with the token it keeps until shortly before the token's expiry. The token endpoint, the
  decoding of JSON and the check that a URL parses are parameters.
\<close>

section \<open>The provider\<close>

type_synonym int64 = "64 word"

record ServiceAccountCredential =
  sa_ClientID :: string
  sa_ClientSecret :: string

record OidcTokenProvider =
  tokenEndpoint :: string
  sa :: "ServiceAccountCredential option"
  scope :: string
  accessToken :: "string option"
  expiry :: "int64 option"

text \<open>An option of \<open>NewOidcTokenProvider\<close> is a function on the provider; the HTTP client that
  \<open>WithHTTPClient\<close> sets is the parameter \<open>token_world\<close> below.\<close>

definition WithScope :: "string \<Rightarrow> OidcTokenProvider \<Rightarrow> OidcTokenProvider" where
  "WithScope s tp = tp\<lparr>scope := s\<rparr>"

definition NewOidcTokenProvider ::
    "string \<Rightarrow> string \<Rightarrow> string \<Rightarrow> (OidcTokenProvider \<Rightarrow> OidcTokenProvider) list \<Rightarrow> OidcTokenProvider" where
  "NewOidcTokenProvider endpoint clientID clientSecret options =
     fold (\<lambda>option tp. option tp) options
       \<lparr>tokenEndpoint = endpoint,
        sa = Some \<lparr>sa_ClientID = clientID, sa_ClientSecret = clientSecret\<rparr>,
        scope = ''openid'', accessToken = None, expiry = None\<rparr>"

section \<open>The expiry of a JWT\<close>

definition url_to_std :: "char \<Rightarrow> char option" where
  "url_to_std c = (if c = CHR ''-'' then Some (CHR ''+'') else if c = CHR ''_'' then Some (CHR ''/'')
     else if c = CHR ''+'' \<or> c = CHR ''/'' \<or> c = CHR ''='' then None else Some c)"

text \<open>\<open>base64.RawURLEncoding\<close>: the URL alphabet, no padding.\<close>

definition raw_url_decode :: "string \<Rightarrow> bytes option" where
  "raw_url_decode s = (let t = filter (\<lambda>c. c \<noteq> CR \<and> c \<noteq> LF) s in
     if list_ex (\<lambda>c. url_to_std c = None) t then None
     else b64_decode (map (\<lambda>c. the (url_to_std c)) t @ replicate ((4 - length t mod 4) mod 4) (CHR ''='')))"

text \<open>What the provider gets from outside. \<open>http_post\<close> is the answer to the token request: none
  at all, or a status and the body (\<open>None\<close> where reading it fails).\<close>

record token_request =
  request_url :: string
  request_form :: "(string \<times> string) list"
  request_auth :: string

record token_world =
  url_ok :: "string \<Rightarrow> bool"
  http_post :: "token_request \<Rightarrow> (int \<times> bytes option) option"
  json_access_token :: "bytes \<Rightarrow> string option"
  json_exp :: "bytes \<Rightarrow> int64 option"

datatype provider_error =
    Not_A_Jwt | Jwt_Not_Base64 | Jwt_Not_Json
  | Bad_Endpoint | No_Response | Unreadable_Response int | Refused int bytes | Bad_Response

definition getExpiryTimestamp :: "token_world \<Rightarrow> string \<Rightarrow> (provider_error, int64) outcome" where
  "getExpiryTimestamp w jwt =
     (let parts = split_on ''.'' jwt in
      if length parts \<noteq> 3 then Err Not_A_Jwt
      else (case raw_url_decode (parts ! 1) of
          None \<Rightarrow> Err Jwt_Not_Base64
        | Some decoded \<Rightarrow> (case json_exp w decoded of
            None \<Rightarrow> Err Jwt_Not_Json
          | Some t \<Rightarrow> Ok t)))"

section \<open>Refreshing\<close>

definition token_request_of :: "OidcTokenProvider \<Rightarrow> ServiceAccountCredential \<Rightarrow> token_request" where
  "token_request_of tp acc =
     \<lparr>request_url = tokenEndpoint tp,
      request_form = [(''grant_type'', ''client_credentials'')]
        @ (if scope tp \<noteq> [] then [(''scope'', scope tp)] else []),
      request_auth = ''Basic '' @ b64_encode (sa_ClientID acc @ '':'' @ sa_ClientSecret acc)\<rparr>"

text \<open>The result of \<open>refreshAccessToken\<close>: the outcome, and the provider that it leaves.\<close>

definition refreshAccessToken ::
    "token_world \<Rightarrow> OidcTokenProvider \<Rightarrow> (provider_error, unit) outcome \<times> OidcTokenProvider" where
  "refreshAccessToken w tp =
     (if \<not> url_ok w (tokenEndpoint tp) then (Err Bad_Endpoint, tp)
      else (case sa tp of None \<Rightarrow> (Panic Nil_Deref, tp)
      | Some acc \<Rightarrow>
        (case http_post w (token_request_of tp acc) of
          None \<Rightarrow> (Err No_Response, tp)
        | Some (status, body) \<Rightarrow>
          if status < 200 \<or> 300 \<le> status then
            (case body of None \<Rightarrow> (Err (Unreadable_Response status), tp)
             | Some buf \<Rightarrow> (Err (Refused status buf), tp))
          else (case Option.bind body (json_access_token w) of
              None \<Rightarrow> (Err Bad_Response, tp)
            | Some token \<Rightarrow>
              (case getExpiryTimestamp w token of
                 Ok e \<Rightarrow> (Ok (), tp\<lparr>accessToken := Some token, expiry := Some e\<rparr>)
               | Err er \<Rightarrow> (Err er, tp)
               | Panic p \<Rightarrow> (Panic p, tp))))))"

definition no_credentials :: "OidcTokenProvider \<Rightarrow> bool" where
  "no_credentials tp \<longleftrightarrow> (case sa tp of None \<Rightarrow> True
     | Some acc \<Rightarrow> sa_ClientID acc = [] \<and> sa_ClientSecret acc = [])"

text \<open>The stored token is used while \<open>*tp.expiry-5 >= now\<close>, in wrapping 64-bit arithmetic.\<close>

definition must_refresh :: "int64 \<Rightarrow> OidcTokenProvider \<Rightarrow> bool" where
  "must_refresh now tp \<longleftrightarrow> (case (accessToken tp, expiry tp) of
      (Some _, Some e) \<Rightarrow> sint (e - 5) < sint now
    | _ \<Rightarrow> True)"

definition GetAccessToken ::
    "token_world \<Rightarrow> int64 \<Rightarrow> OidcTokenProvider \<Rightarrow> (provider_error, string option) outcome \<times> OidcTokenProvider" where
  "GetAccessToken w now tp =
     (if no_credentials tp then (Ok (Some []), tp)
      else if must_refresh now tp then
        (case refreshAccessToken w tp of
           (Ok _, tp') \<Rightarrow> (Ok (accessToken tp'), tp')
         | (Err e, tp') \<Rightarrow> (Err e, tp')
         | (Panic p, tp') \<Rightarrow> (Panic p, tp'))
      else (Ok (accessToken tp), tp))"

section \<open>The stored token and its expiry belong together\<close>

definition token_inv :: "token_world \<Rightarrow> OidcTokenProvider \<Rightarrow> bool" where
  "token_inv w tp \<longleftrightarrow> (case (accessToken tp, expiry tp) of
      (None, None) \<Rightarrow> True
    | (Some t, Some e) \<Rightarrow> getExpiryTimestamp w t = Ok e
    | _ \<Rightarrow> False)"

lemma getExpiryTimestamp_no_panic: "getExpiryTimestamp w t \<noteq> Panic p"
  by (auto simp: getExpiryTimestamp_def Let_def split: option.splits)

lemma refresh_shape:
  "(\<exists>e. refreshAccessToken w tp = (Err e, tp))
   \<or> (\<exists>p. refreshAccessToken w tp = (Panic p, tp) \<and> sa tp = None)
   \<or> (\<exists>t e. refreshAccessToken w tp = (Ok (), tp\<lparr>accessToken := Some t, expiry := Some e\<rparr>)
        \<and> getExpiryTimestamp w t = Ok e)"
  using getExpiryTimestamp_no_panic
  by (simp add: refreshAccessToken_def split: option.split outcome.split prod.split) blast

lemma refresh_cases:
  obtains e where "refreshAccessToken w tp = (Err e, tp)"
  | p where "refreshAccessToken w tp = (Panic p, tp)" "sa tp = None"
  | t e where "refreshAccessToken w tp = (Ok (), tp\<lparr>accessToken := Some t, expiry := Some e\<rparr>)"
      "getExpiryTimestamp w t = Ok e"
  using refresh_shape [of w tp] by blast

lemma token_inv_refresh: "token_inv w tp \<Longrightarrow> token_inv w (snd (refreshAccessToken w tp))"
  by (cases rule: refresh_cases [of w tp]) (auto simp: token_inv_def)

lemma token_inv_New:
  "token_inv w (NewOidcTokenProvider endpoint cid secret [WithScope s])"
  "token_inv w (NewOidcTokenProvider endpoint cid secret [])"
  by (simp_all add: token_inv_def NewOidcTokenProvider_def WithScope_def)

lemma GetAccessToken_state:
  "snd (GetAccessToken w now tp) = tp \<or> snd (GetAccessToken w now tp) = snd (refreshAccessToken w tp)"
  by (cases rule: refresh_cases [of w tp]) (simp_all add: GetAccessToken_def)

lemma token_inv_Get: "token_inv w tp \<Longrightarrow> token_inv w (snd (GetAccessToken w now tp))"
  using GetAccessToken_state [of w now tp] token_inv_refresh [of w tp] by auto

text \<open>What \<open>GetAccessToken\<close> gives back, case by case.\<close>

lemma GetAccessToken_no_panic: "\<not> panics (fst (GetAccessToken w now tp))"
  by (cases rule: refresh_cases [of w tp]) (auto simp: GetAccessToken_def no_credentials_def)

lemma GetAccessToken_Ok:
  assumes "token_inv w tp" and "GetAccessToken w now tp = (Ok r, tp')"
  shows "(no_credentials tp \<and> r = Some [] \<and> tp' = tp)
    \<or> (\<exists>t e. r = Some t \<and> accessToken tp' = Some t \<and> expiry tp' = Some e
         \<and> getExpiryTimestamp w t = Ok e
         \<and> ((tp' = tp \<and> sint now \<le> sint (e - 5)) \<or> refreshAccessToken w tp = (Ok (), tp')))"
  using assms
  by (cases rule: refresh_cases [of w tp])
     (auto simp: GetAccessToken_def token_inv_def must_refresh_def split: if_splits option.splits)

lemma GetAccessToken_Err_keeps: "GetAccessToken w now tp = (Err e, tp') \<Longrightarrow> tp' = tp"
  by (cases rule: refresh_cases [of w tp]) (auto simp: GetAccessToken_def split: if_splits)

text \<open>The subtraction wraps only for the five smallest expiries.\<close>

lemma int64_no_wrap:
  assumes "- (2 ^ 63) + 5 \<le> sint (e :: int64)"
  shows "sint (e - 5) = sint e - 5"
proof -
  have "sint e < 2 ^ 63" using sint_lt [of e] by simp
  with assms show ?thesis by (simp add: sint_word_ariths signed_take_bit_int_eq_self)
qed

lemma int64_sub_5:
  "sint (e - 5 :: int64) = (if sint e < - (2 ^ 63) + 5 then sint e + 2 ^ 64 - 5 else sint e - 5)"
proof (cases "sint e < - (2 ^ 63) + 5")
  case True
  define v where "v = sint e - 5 + 2 ^ 63"
  have "- (2 ^ 63) \<le> sint e" using sint_ge [of e] by simp
  with True have "0 \<le> v + 2 ^ 64" "v + 2 ^ 64 < 2 ^ 64" by (simp_all add: v_def)
  then have "(v + 2 ^ 64) mod 2 ^ 64 = v + 2 ^ 64" by (rule mod_pos_pos_trivial)
  then have "v mod 2 ^ 64 = v + 2 ^ 64" by simp
  with True show ?thesis
    by (simp add: sint_word_ariths signed_take_bit_eq_take_bit_shift take_bit_int_def v_def)
qed (simp add: int64_no_wrap)

section \<open>A history of calls\<close>

text \<open>The provider after calls at given times, each with the answer that the endpoint gives then.\<close>

definition provider_after ::
    "token_world \<Rightarrow> ((token_request \<Rightarrow> (int \<times> bytes option) option) \<times> int64) list \<Rightarrow> OidcTokenProvider \<Rightarrow> OidcTokenProvider"
where
  "provider_after w calls tp = fold (\<lambda>(post, now) tp. snd (GetAccessToken (w\<lparr>http_post := post\<rparr>) now tp)) calls tp"

lemma getExpiryTimestamp_http_post [simp]: "getExpiryTimestamp (w\<lparr>http_post := post\<rparr>) t = getExpiryTimestamp w t"
  by (simp add: getExpiryTimestamp_def Let_def split: option.split)

lemma token_inv_http_post [simp]: "token_inv (w\<lparr>http_post := post\<rparr>) tp = token_inv w tp"
  by (simp add: token_inv_def split: option.split)

lemma token_inv_after: "token_inv w tp \<Longrightarrow> token_inv w (provider_after w calls tp)"
proof (induction calls arbitrary: tp)
  case (Cons c calls)
  then show ?case
    using token_inv_Get [of "w\<lparr>http_post := fst c\<rparr>" tp "snd c"]
    by (simp add: provider_after_def case_prod_unfold)
qed (simp add: provider_after_def)

lemma sa_GetAccessToken: "sa (snd (GetAccessToken w now tp)) = sa tp"
  by (cases rule: refresh_cases [of w tp]) (simp_all add: GetAccessToken_def)

lemma sa_provider_after: "sa (provider_after w calls tp) = sa tp"
  by (induction calls arbitrary: tp) (simp_all add: provider_after_def sa_GetAccessToken case_prod_unfold)

section \<open>Where a token comes from\<close>

text \<open>The endpoint answers a request with a token; the request that the credentials of a user make; and
  the tokens that any of the worlds \<open>TW\<close> gives for it.\<close>

definition answered_with :: "token_world \<Rightarrow> token_request \<Rightarrow> string \<Rightarrow> bool" where
  "answered_with w req t \<longleftrightarrow> (case http_post w req of
      Some (status, Some body) \<Rightarrow> 200 \<le> status \<and> status < 300 \<and> json_access_token w body = Some t
    | _ \<Rightarrow> False)"

definition user_request :: "string \<Rightarrow> string \<Rightarrow> string \<Rightarrow> token_request" where
  "user_request endpoint u p = token_request_of (NewOidcTokenProvider endpoint u p []) \<lparr>sa_ClientID = u, sa_ClientSecret = p\<rparr>"

definition token_for :: "token_world set \<Rightarrow> string \<Rightarrow> string \<Rightarrow> string \<Rightarrow> string \<Rightarrow> bool" where
  "token_for TW endpoint u p t \<longleftrightarrow> (\<exists>w \<in> TW. answered_with w (user_request endpoint u p) t)"

definition provider_for :: "token_world set \<Rightarrow> string \<Rightarrow> string \<Rightarrow> string \<Rightarrow> OidcTokenProvider \<Rightarrow> bool" where
  "provider_for TW endpoint u p tp \<longleftrightarrow> tokenEndpoint tp = endpoint \<and> scope tp = ''openid''
     \<and> sa tp = Some \<lparr>sa_ClientID = u, sa_ClientSecret = p\<rparr>
     \<and> (\<forall>t. accessToken tp = Some t \<longrightarrow> token_for TW endpoint u p t)"

lemma refresh_answered:
  assumes "refreshAccessToken w tp = (Ok (), tp')" and "sa tp = Some acc"
  shows "\<exists>t e. tp' = tp\<lparr>accessToken := Some t, expiry := Some e\<rparr> \<and> answered_with w (token_request_of tp acc) t"
  using assms
  by (auto simp: refreshAccessToken_def answered_with_def bind_eq_Some_conv split: option.splits outcome.splits if_splits prod.splits)

lemma provider_for_New: "provider_for TW endpoint u p (NewOidcTokenProvider endpoint u p [])"
  by (simp add: provider_for_def NewOidcTokenProvider_def)

lemma provider_for_refresh:
  assumes "provider_for TW endpoint u p tp" and "w \<in> TW" and "refreshAccessToken w tp = (Ok (), tp')"
  shows "provider_for TW endpoint u p tp'"
proof -
  define acc where "acc = \<lparr>sa_ClientID = u, sa_ClientSecret = p\<rparr>"
  have acc: "sa tp = Some acc" using assms(1) by (simp add: provider_for_def acc_def)
  have "token_request_of tp acc = user_request endpoint u p"
    using assms(1) by (simp add: provider_for_def user_request_def token_request_of_def NewOidcTokenProvider_def acc_def)
  with refresh_answered [OF assms(3) acc] assms(1,2) show ?thesis
    by (auto simp: provider_for_def token_for_def)
qed

lemma GetAccessToken_given:
  "fst (GetAccessToken w now tp) = Ok r \<Longrightarrow>
     (no_credentials tp \<and> r = Some []) \<or> (r \<noteq> None \<and> r = accessToken (snd (GetAccessToken w now tp)))"
  by (cases rule: refresh_cases [of w tp])
     (auto simp: GetAccessToken_def must_refresh_def split: if_splits option.splits)

lemma provider_for_Get:
  assumes "provider_for TW endpoint u p tp" and "w \<in> TW"
  shows "provider_for TW endpoint u p (snd (GetAccessToken w now tp))"
  using assms provider_for_refresh [OF assms]
  by (cases rule: refresh_cases [of w tp]) (auto simp: GetAccessToken_def)

lemma provider_for_token:
  assumes "provider_for TW endpoint u p tp" and "w \<in> TW" and "fst (GetAccessToken w now tp) = Ok (Some t)"
  shows "token_for TW endpoint u p t \<or> (u = [] \<and> p = [] \<and> t = [])"
  using GetAccessToken_given [OF assms(3)] provider_for_Get [OF assms(1,2), of now] assms(1)
  by (auto simp: provider_for_def no_credentials_def)

end
