(* ===== verification/Mailer_Senders.thy ===== *)
theory Mailer_Senders
  imports Mailer_Mail Auth_Token_Provider
begin

text \<open>
  \<^verbatim>\<open>pkg/mailer/smtp.go\<close> and \<^verbatim>\<open>pkg/mailer/graphapi.go\<close>: the two mail senders. What they send is
  a value: the arguments of \<open>smtp.SendMail\<close>, or the request to the Graph API. Whether the mail
  server or the Graph API takes it is a parameter. Logging, tracing and metrics are left out.
\<close>

section \<open>SMTP\<close>

record SMTPAuth =
  Username :: string
  Password :: string

text \<open>The LOGIN mechanism: \<open>Start\<close> names it, \<open>Next\<close> answers the prompts of the server.\<close>

definition SMTPAuth_Start :: "SMTPAuth \<Rightarrow> string \<times> bytes" where
  "SMTPAuth_Start a = (''LOGIN'', [])"

definition SMTPAuth_Next :: "SMTPAuth \<Rightarrow> bytes \<Rightarrow> bool \<Rightarrow> (string, bytes) outcome" where
  "SMTPAuth_Next a fromServer more_expected =
     (if more_expected then
        if fromServer = ''Username:'' then Ok (Username a)
        else if fromServer = ''Password:'' then Ok (Password a)
        else Err (''unkown fromServer: '' @ fromServer)
      else Ok [])"

record SMTPMailSender =
  defaultMailSenderAddress :: string
  defaultMailSenderName :: string
  smtpHost :: string
  messageIDSuffix :: string
  auth :: "SMTPAuth option"

text \<open>\<open>url.Parse\<close> is the parameter \<open>url_host\<close>: the host of a URL that parses.\<close>

definition NewSMTPMailSender ::
    "(string \<Rightarrow> string option) \<Rightarrow> string \<Rightarrow> string \<Rightarrow> string \<Rightarrow> SMTPAuth option \<Rightarrow> string
       \<Rightarrow> (string, SMTPMailSender) outcome" where
  "NewSMTPMailSender url_host defaultSenderAddress defaultSenderName smtpEndpoint smtpAuth suffix =
     (case url_host smtpEndpoint of
        None \<Rightarrow> Err ''could not parse SMTP endpoint as URL''
      | Some host \<Rightarrow> Ok \<lparr>defaultMailSenderAddress = defaultSenderAddress,
          defaultMailSenderName = defaultSenderName, smtpHost = host,
          messageIDSuffix = suffix, auth = smtpAuth\<rparr>)"

definition smtp_MessageIDSuffix :: "SMTPMailSender \<Rightarrow> string" where
  "smtp_MessageIDSuffix s = messageIDSuffix s"

definition smtp_GetSender :: "SMTPMailSender \<Rightarrow> address \<Rightarrow> address" where
  "smtp_GetSender s a =
     (let a = (if Name a = [] then a\<lparr>Name := defaultMailSenderName s\<rparr> else a) in
      if Address a = [] then a\<lparr>Address := defaultMailSenderAddress s\<rparr> else a)"

text \<open>The arguments of \<open>smtp.SendMail\<close>.\<close>

record smtp_message =
  smtp_addr :: string
  smtp_auth :: "SMTPAuth option"
  envelope_from :: string
  envelope_to :: "string list"
  smtp_data :: string

datatype send_error =
    Empty_Mail | No_Message_ID
  | Invalid_Mail "mail_error list"
  | Send_Failed string
  | Bad_Url | No_Token provider_error | Post_Failed | Bad_Status int

text \<open>\<open>deliver\<close> is the outcome of \<open>smtp.SendMail\<close>: \<open>None\<close> where it returns nil. The result is
  the outcome of \<open>TransmitMail\<close> and what was handed to \<open>smtp.SendMail\<close>, in order.\<close>

definition smtp_TransmitMail ::
    "(smtp_message \<Rightarrow> string option) \<Rightarrow> (nat list \<Rightarrow> string) \<Rightarrow> SMTPMailSender \<Rightarrow> mail option
       \<Rightarrow> (send_error, unit) outcome \<times> smtp_message list" where
  "smtp_TransmitMail deliver rb s mo =
     (case mo of None \<Rightarrow> (Err Empty_Mail, [])
      | Some m \<Rightarrow>
        if MessageID m = [] then (Err No_Message_ID, [])
        else (case GetInternetMessageFormat rb m False of
            Err es \<Rightarrow> (Err (Invalid_Mail es), [])
          | Panic p \<Rightarrow> (Panic p, [])
          | Ok fullyEncodedMessage \<Rightarrow>
            (let msg = \<lparr>smtp_addr = smtpHost s, smtp_auth = auth s,
                   envelope_from = Address (From m),
                   envelope_to = map Address (To m @ Cc m @ Bcc m),
                   smtp_data = fullyEncodedMessage\<rparr>
             in (case deliver msg of Some e \<Rightarrow> Err (Send_Failed e) | None \<Rightarrow> Ok (), [msg]))))"

section \<open>Microsoft Graph\<close>

definition TokenScope :: string where
  "TokenScope = ''https://graph.microsoft.com/.default''"

definition TokenEndpoint :: "string \<Rightarrow> string" where
  "TokenEndpoint tenantID =
     ''https://login.microsoftonline.com/'' @ tenantID @ ''/oauth2/v2.0/token''"

definition MailEndpoint :: "string \<Rightarrow> string" where
  "MailEndpoint senderEmail =
     ''https://graph.microsoft.com/v1.0//users/'' @ senderEmail @ ''/sendMail''"

record GraphAPIMailSender =
  senderEmail :: string
  graph_messageIDSuffix :: string
  graph_tp :: OidcTokenProvider

definition NewGraphAPIMailSender ::
    "string \<Rightarrow> string \<Rightarrow> string \<Rightarrow> string \<Rightarrow> string \<Rightarrow> GraphAPIMailSender" where
  "NewGraphAPIMailSender tenantID clientID clientSecret email suffix =
     \<lparr>senderEmail = email, graph_messageIDSuffix = suffix,
      graph_tp = NewOidcTokenProvider (TokenEndpoint tenantID) clientID clientSecret [WithScope TokenScope]\<rparr>"

record graph_request =
  graph_url :: string
  graph_authorization :: string
  graph_content_type :: string
  graph_body :: string

text \<open>\<open>http_do\<close> is the Graph API: the status of its answer, or \<open>None\<close> where there is none.
  (Reading the body of a refusal only changes the text of the error.)\<close>

definition graph_TransmitMail ::
    "(graph_request \<Rightarrow> int option) \<Rightarrow> token_world \<Rightarrow> int64 \<Rightarrow> (nat list \<Rightarrow> string) \<Rightarrow> GraphAPIMailSender
       \<Rightarrow> mail \<Rightarrow> (send_error, unit) outcome \<times> graph_request list \<times> GraphAPIMailSender" where
  "graph_TransmitMail http_do w now rb g m =
     (case GetInternetMessageFormat rb m True of
        Err es \<Rightarrow> (Err (Invalid_Mail es), [], g)
      | Panic p \<Rightarrow> (Panic p, [], g)
      | Ok imfMail \<Rightarrow>
        if \<not> url_ok w (MailEndpoint (senderEmail g)) then (Err Bad_Url, [], g)
        else (case GetAccessToken w now (graph_tp g) of
            (Err e, tp') \<Rightarrow> (Err (No_Token e), [], g\<lparr>graph_tp := tp'\<rparr>)
          | (Panic p, tp') \<Rightarrow> (Panic p, [], g\<lparr>graph_tp := tp'\<rparr>)
          | (Ok None, tp') \<Rightarrow> (Panic Nil_Deref, [], g\<lparr>graph_tp := tp'\<rparr>)
          | (Ok (Some token), tp') \<Rightarrow>
            (let req = \<lparr>graph_url = MailEndpoint (senderEmail g),
                   graph_authorization = ''Bearer '' @ token,
                   graph_content_type = ''text/plain'',
                   graph_body = b64_encode imfMail\<rparr>
             in (case http_do req of
                   None \<Rightarrow> Err Post_Failed
                 | Some status \<Rightarrow> if 200 \<le> status \<and> status < 300 then Ok () else Err (Bad_Status status),
                 [req], g\<lparr>graph_tp := tp'\<rparr>))))"

definition graph_MessageIDSuffix :: "GraphAPIMailSender \<Rightarrow> string" where
  "graph_MessageIDSuffix g = graph_messageIDSuffix g"

definition graph_GetSender :: "GraphAPIMailSender \<Rightarrow> address \<Rightarrow> address" where
  "graph_GetSender g a = \<lparr>Name = [], Address = senderEmail g\<rparr>"

section \<open>The interface MailSender\<close>

text \<open>
  What a client relies on: \<open>GetSender\<close> is a projection (asking again for the sender it gave
  changes nothing), and what goes out for a mail is at most one message, whose text is the
  mail rendered for the sender's transport.
\<close>

locale mail_sender =
  fixes get_sender :: "address \<Rightarrow> address"
    and transmit :: "mail \<Rightarrow> (send_error, unit) outcome"
    and sent :: "mail \<Rightarrow> string list"
    and rb :: "nat list \<Rightarrow> string"
    and has8 :: bool
  assumes get_sender_idem: "get_sender (get_sender a) = get_sender a"
    and sent_rendered: "sent m = [] \<or> (\<exists>s. GetInternetMessageFormat rb m has8 = Ok s \<and> sent m = [s])"
    and transmit_sent: "transmit m = Ok () \<Longrightarrow> sent m \<noteq> []"
begin

lemma at_most_one: "length (sent m) \<le> 1"
  using sent_rendered [of m] by auto

lemma transmit_Ok: "transmit m = Ok () \<Longrightarrow> \<exists>s. GetInternetMessageFormat rb m has8 = Ok s \<and> sent m = [s]"
  using sent_rendered [of m] transmit_sent [of m] by auto

lemma sent_valid: "sent m \<noteq> [] \<Longrightarrow> ValidateMail m = Ok ()"
  using sent_rendered [of m] by (auto simp: GetInternetMessageFormat_def obind_eq_Ok)

lemma sent_in_crlf_form: "s \<in> set (sent m) \<Longrightarrow> in_crlf_form s"
  using sent_rendered [of m] GetInternetMessageFormat_in_crlf_form by fastforce

lemma sent_ascii:
  "\<not> has8 \<Longrightarrow> ascii_mail m \<Longrightarrow> (\<forall>path. ascii (rb path)) \<Longrightarrow> s \<in> set (sent m) \<Longrightarrow> ascii s"
  using sent_rendered [of m] GetInternetMessageFormat_ascii [of rb m] by auto

end

lemma smtp_GetSender_idem: "smtp_GetSender s (smtp_GetSender s a) = smtp_GetSender s a"
  by (simp add: smtp_GetSender_def Let_def)

lemma smtp_TransmitMail_sent:
  "snd (smtp_TransmitMail deliver rb s mo) = []
   \<or> (\<exists>m t. mo = Some m \<and> MessageID m \<noteq> [] \<and> GetInternetMessageFormat rb m False = Ok t
        \<and> snd (smtp_TransmitMail deliver rb s mo) = [\<lparr>smtp_addr = smtpHost s, smtp_auth = auth s,
            envelope_from = Address (From m), envelope_to = map Address (To m @ Cc m @ Bcc m),
            smtp_data = t\<rparr>])"
  by (auto simp: smtp_TransmitMail_def Let_def split: option.splits outcome.splits)

lemma smtp_TransmitMail_Ok:
  "fst (smtp_TransmitMail deliver rb s mo) = Ok () \<Longrightarrow> snd (smtp_TransmitMail deliver rb s mo) \<noteq> []"
  by (auto simp: smtp_TransmitMail_def Let_def split: option.splits outcome.splits if_splits)

interpretation smtp: mail_sender "smtp_GetSender s"
    "\<lambda>m. fst (smtp_TransmitMail deliver rb s (Some m))"
    "\<lambda>m. map smtp_data (snd (smtp_TransmitMail deliver rb s (Some m)))" rb False
  for s deliver rb
  using smtp_TransmitMail_sent [of deliver rb s] smtp_TransmitMail_Ok [of deliver rb s]
  by unfold_locales (fastforce simp: smtp_GetSender_idem)+

text \<open>The text that a Graph request carries, as its receiver decodes it.\<close>

definition graph_texts :: "graph_request list \<Rightarrow> string list" where
  "graph_texts rs = concat (map (\<lambda>r. case b64_decode (graph_body r) of Some t \<Rightarrow> [t] | None \<Rightarrow> []) rs)"

lemma graph_TransmitMail_sent:
  "(\<exists>r g'. graph_TransmitMail http_do w now rb g m = (r, [], g') \<and> r \<noteq> Ok ())
   \<or> (\<exists>r t token g'. GetInternetMessageFormat rb m True = Ok t
        \<and> graph_TransmitMail http_do w now rb g m = (r, [\<lparr>graph_url = MailEndpoint (senderEmail g),
            graph_authorization = ''Bearer '' @ token, graph_content_type = ''text/plain'',
            graph_body = b64_encode t\<rparr>], g'))"
  by (simp add: graph_TransmitMail_def Let_def split: option.split outcome.split prod.split)

interpretation graph: mail_sender "graph_GetSender g"
    "\<lambda>m. fst (graph_TransmitMail http_do w now rb g m)"
    "\<lambda>m. graph_texts (fst (snd (graph_TransmitMail http_do w now rb g m)))" rb True
  for g http_do w now rb
proof
  show "graph_GetSender g (graph_GetSender g a) = graph_GetSender g a" for a
    by (simp add: graph_GetSender_def)
next
  fix m
  show "graph_texts (fst (snd (graph_TransmitMail http_do w now rb g m))) = [] \<or>
      (\<exists>s. GetInternetMessageFormat rb m True = Ok s \<and>
        graph_texts (fst (snd (graph_TransmitMail http_do w now rb g m))) = [s])"
    using graph_TransmitMail_sent [of http_do w now rb g m]
    by (auto simp: graph_texts_def b64.dec_enc)
next
  fix m
  assume "fst (graph_TransmitMail http_do w now rb g m) = Ok ()"
  then show "graph_texts (fst (snd (graph_TransmitMail http_do w now rb g m))) \<noteq> []"
    using graph_TransmitMail_sent [of http_do w now rb g m]
    by (auto simp: graph_texts_def b64.dec_enc)
qed

section \<open>Blind copies\<close>

text \<open>The rendered message does not depend on the Bcc field.\<close>

lemma content_type_errors_Bcc: "content_type_errors (m\<lparr>Bcc := bcc\<rparr>) = content_type_errors m"
  by (simp add: content_type_errors_def Let_def split: prod.split option.split)

lemma ValidateMail_Bcc: "ValidateMail (m\<lparr>Bcc := bcc\<rparr>) = ValidateMail m"
  by (simp add: ValidateMail_def content_type_errors_Bcc)

lemma imf_lines_Bcc: "imf_lines (m\<lparr>Bcc := bcc\<rparr>) = imf_lines m"
  by (simp add: imf_lines_def hasMimeVersion_def fun_eq_iff)

lemma GetInternetMessageFormat_Bcc:
  "GetInternetMessageFormat rb (m\<lparr>Bcc := bcc\<rparr>) has8 = GetInternetMessageFormat rb m has8"
  by (simp only: GetInternetMessageFormat_def ValidateMail_Bcc imf_lines_Bcc) simp

lemma graph_TransmitMail_Bcc:
  "graph_TransmitMail http_do w now rb g (m\<lparr>Bcc := bcc\<rparr>) = graph_TransmitMail http_do w now rb g m"
  by (simp add: graph_TransmitMail_def GetInternetMessageFormat_Bcc)

end
