(* ===== verification/Mail_Queue.thy ===== *)
theory Mail_Queue
  imports Database_Mail Mailer_Senders
begin

text \<open>
  The mail queue: the statements of \<^verbatim>\<open>sql/queries/mail.sql\<close> on a table of mails, and
  \<^verbatim>\<open>internal/dispatcher/queuehandler.go\<close>, which pops mails and sends them. The dispatcher is
  stated for any implementation of the generated query interface (\<open>queries\<close>) and proved in a
  locale of the laws it relies on; the table implements them.
\<close>

section \<open>The table of mails\<close>

datatype mail_status = Submitted | Processing | Failed | Sent

fun status_rank :: "mail_status \<Rightarrow> nat" where
  "status_rank Submitted = 0"
| "status_rank Processing = 1"
| "status_rank Failed = 2"
| "status_rank Sent = 3"

lemma status_rank_inject: "status_rank s = status_rank t \<Longrightarrow> s = t"
  by (cases s; cases t) simp_all

text \<open>The enum type of PostgreSQL is ordered by its declaration.\<close>

instantiation mail_status :: linorder
begin

definition "s \<le> t \<longleftrightarrow> status_rank s \<le> status_rank t"
definition "s < t \<longleftrightarrow> status_rank s < status_rank t"

instance
  by standard (auto simp: less_eq_mail_status_def less_mail_status_def intro: status_rank_inject)

end

record mail_entry =
  ID :: nat
  RateLimitUser :: string
  Status :: mail_status
  Row :: mail_row
  ProcessedAt :: "int option"     \<comment> \<open>microseconds; \<open>None\<close> is NULL\<close>

record mails_table =
  rows :: "mail_entry list"
  next_id :: nat
  clock :: int                    \<comment> \<open>what \<open>NOW()\<close> gives\<close>
  local_zone :: "int \<Rightarrow> int"      \<comment> \<open>the zone in which the processes read its instants\<close>

text \<open>The condition of \<open>PopMailForProcessing\<close>; a comparison with NULL is not true.\<close>

definition poppable :: "int \<Rightarrow> int \<Rightarrow> mail_entry \<Rightarrow> bool" where
  "poppable now interval r \<longleftrightarrow> Status r = Submitted
     \<or> ((Status r = Failed \<or> Status r = Processing)
        \<and> (case ProcessedAt r of None \<Rightarrow> False | Some p \<Rightarrow> interval < p - now))"

text \<open>
  The statement \<open>PopMailForProcessing\<close> in its two halves. The subquery reads the table as it is when
  the statement begins; \<open>LIMIT 1\<close> without an order takes any of the rows: \<open>choice\<close> says which. The
  update writes the row with that ID as it finds it then. The subquery locks nothing, and the condition
  of the update, \<open>nm.id = m.id\<close>, does not look at the status again: where two statements overlap
  under READ COMMITTED, the second one waits for the first and then updates and returns the same row.
\<close>

definition pop_select :: "(mails_table \<Rightarrow> nat) \<Rightarrow> int \<Rightarrow> mails_table \<Rightarrow> nat option" where
  "pop_select choice interval db =
     (let cand = filter (poppable (clock db) interval) (rows db) in
      if cand = [] then None else Some (ID (cand ! (choice db mod length cand))))"

definition set_processing :: "int \<Rightarrow> nat \<Rightarrow> mail_entry \<Rightarrow> mail_entry" where
  "set_processing now i m = (if ID m = i then m\<lparr>Status := Processing, ProcessedAt := Some now\<rparr> else m)"

definition pop_update :: "int \<Rightarrow> nat \<Rightarrow> mails_table \<Rightarrow> mail_entry list \<times> mails_table" where
  "pop_update now i db =
     (let rs = map (set_processing now i) (rows db)
      in (filter (\<lambda>m. ID m = i) rs, db\<lparr>rows := rs\<rparr>))"

text \<open>The statement on its own, with no other one of its kind under way.\<close>

definition sql_PopMailForProcessing ::
    "(mails_table \<Rightarrow> nat) \<Rightarrow> int \<Rightarrow> mails_table \<Rightarrow> mail_entry list \<times> mails_table" where
  "sql_PopMailForProcessing choice interval db =
     (case pop_select choice interval db of None \<Rightarrow> ([], db) | Some i \<Rightarrow> pop_update (clock db) i db)"

definition sql_SetMailStatus :: "nat \<Rightarrow> mail_status \<Rightarrow> mails_table \<Rightarrow> mails_table" where
  "sql_SetMailStatus i st db =
     db\<lparr>rows := map (\<lambda>m. if ID m = i then m\<lparr>Status := st\<rparr> else m) (rows db)\<rparr>"

text \<open>The row is kept as it will be read.\<close>

definition sql_CreateMail :: "mail_row \<Rightarrow> mail_status \<Rightarrow> mails_table \<Rightarrow> mails_table" where
  "sql_CreateMail row st db =
     db\<lparr>rows := rows db @ [\<lparr>ID = next_id db, RateLimitUser = [], Status = st,
          Row = row_in_zone (local_zone db) row, ProcessedAt = None\<rparr>],
        next_id := Suc (next_id db)\<rparr>"

definition deletable :: "int \<Rightarrow> int \<Rightarrow> mail_entry \<Rightarrow> bool" where
  "deletable now interval r \<longleftrightarrow> Status r = Sent
     \<and> (case ProcessedAt r of None \<Rightarrow> False | Some p \<Rightarrow> interval < p - now)"

definition sql_DeleteOldMails :: "int \<Rightarrow> mails_table \<Rightarrow> mails_table" where
  "sql_DeleteOldMails interval db =
     db\<lparr>rows := filter (\<lambda>r. \<not> deletable (clock db) interval r) (rows db)\<rparr>"

definition sql_CountMailsByStatus :: "mails_table \<Rightarrow> (mail_status \<times> nat) list" where
  "sql_CountMailsByStatus db =
     map (\<lambda>s. (s, length (filter (\<lambda>r. Status r = s) (rows db)))) [Submitted, Processing, Failed, Sent]"

section \<open>The dispatcher\<close>

text \<open>The methods of \<open>sql.Queries\<close> that the dispatcher calls: \<open>None\<close> and \<open>False\<close> are errors.\<close>

record 'db queries =
  PopMailForProcessing :: "int \<Rightarrow> 'db \<Rightarrow> mail_entry list option \<times> 'db"
  SetMailStatus :: "nat \<Rightarrow> mail_status \<Rightarrow> 'db \<Rightarrow> bool \<times> 'db"

definition retryFailedIntervalMicroseconds :: int where
  "retryFailedIntervalMicroseconds = 3600 * 1000000"

definition keepMailsForIntervalDays :: int where
  "keepMailsForIntervalDays = 120"

datatype handle_error =
    Pop_Failed
  | Convert_Failed "db_error list"
  | Transmit_Failed send_error

type_synonym transmitter = "mail \<Rightarrow> (send_error, unit) outcome"

text \<open>The conversion and the transmission of a popped mail: how the call ends, the mail handed
  to \<open>TransmitMail\<close> if any, and the status that the deferred function will set.\<close>

definition handle_popped ::
    "transmitter \<Rightarrow> address_parser \<Rightarrow> mail_entry \<Rightarrow> (handle_error, bool) outcome \<times> (nat \<times> mail) list \<times> mail_status"
where
  "handle_popped transmit parse_address r =
     (case DBEntityToMail parse_address (Row r) of
        Err es \<Rightarrow> (Err (Convert_Failed es), [], Failed)
      | Panic p \<Rightarrow> (Panic p, [], Failed)
      | Ok queuedMail \<Rightarrow>
        (case transmit queuedMail of
           Err e \<Rightarrow> (Err (Transmit_Failed e), [(ID r, queuedMail)], Failed)
         | Panic p \<Rightarrow> (Panic p, [(ID r, queuedMail)], Failed)
         | Ok _ \<Rightarrow> (Ok False, [(ID r, queuedMail)], Sent)))"

text \<open>
  \<open>popAndHandleMail\<close>: whether the queue was empty, the attempts made and the database after
  it. The deferred function runs on every way out, a panic included; the error of its
  \<open>SetMailStatus\<close> is assigned to a variable that is no result and is lost. More than one
  popped mail ends the process (\<open>logger.Fatalf\<close>).
\<close>

definition popAndHandleMail ::
    "'db queries \<Rightarrow> transmitter \<Rightarrow> address_parser \<Rightarrow> 'db
       \<Rightarrow> (handle_error, bool) outcome \<times> (nat \<times> mail) list \<times> 'db" where
  "popAndHandleMail q transmit parse_address db =
     (case PopMailForProcessing q retryFailedIntervalMicroseconds db of
        (None, db) \<Rightarrow> (Err Pop_Failed, [], db)
      | (Some [], db) \<Rightarrow> (Ok True, [], db)
      | (Some [r], db) \<Rightarrow>
          (let (res, attempts, st) = handle_popped transmit parse_address r
           in (res, attempts, snd (SetMailStatus q (ID r) st db)))
      | (Some _, db) \<Rightarrow> (Panic Exit, [], db))"

text \<open>The inner loop of \<open>HandleMailQueue\<close>: until the queue is empty or an error. The fuel bounds
  the number of rounds; \<open>None\<close> is a loop that has not ended within it.\<close>

fun drain :: "nat \<Rightarrow> 'db queries \<Rightarrow> transmitter \<Rightarrow> address_parser \<Rightarrow> 'db
    \<Rightarrow> ((handle_error, unit) outcome \<times> (nat \<times> mail) list \<times> 'db) option" where
  "drain 0 q transmit pa db = None"
| "drain (Suc n) q transmit pa db =
     (case popAndHandleMail q transmit pa db of
        (Ok False, a, db') \<Rightarrow> map_option (\<lambda>(r, a', db''). (r, a @ a', db'')) (drain n q transmit pa db')
      | (Ok True, a, db') \<Rightarrow> Some (Ok (), a, db')
      | (Err e, a, db') \<Rightarrow> Some (Err e, a, db')
      | (Panic p, a, db') \<Rightarrow> Some (Panic p, a, db'))"

text \<open>The outer loop, for a number of ticks of \<open>checkInterval\<close> until the context is done, with what
  it ends with; an error of the inner loop is logged, a panic ends the process.\<close>

fun HandleMailQueue :: "nat \<Rightarrow> nat \<Rightarrow> 'db queries \<Rightarrow> transmitter \<Rightarrow> address_parser \<Rightarrow> 'db
    \<Rightarrow> ((handle_error, unit) outcome \<times> (nat \<times> mail) list \<times> 'db) option" where
  "HandleMailQueue 0 fuel q transmit pa db = Some (Ok (), [], db)"
| "HandleMailQueue (Suc ticks) fuel q transmit pa db =
     (case drain fuel q transmit pa db of
        None \<Rightarrow> None
      | Some (Panic p, a, db') \<Rightarrow> Some (Panic p, a, db')
      | Some (_, a, db') \<Rightarrow>
          map_option (\<lambda>(r, a', db''). (r, a @ a', db'')) (HandleMailQueue ticks fuel q transmit pa db'))"

text \<open>What every round keeps, both loops keep.\<close>

lemma drain_keeps:
  assumes "\<And>db res a db'. P db \<Longrightarrow> popAndHandleMail q transmit pa db = (res, a, db') \<Longrightarrow> P db'"
  shows "P db \<Longrightarrow> drain n q transmit pa db = Some (res, a, db') \<Longrightarrow> P db'"
proof (induction n arbitrary: db res a)
  case (Suc n)
  obtain r b d where p: "popAndHandleMail q transmit pa db = (r, b, d)" by (metis prod_cases3)
  with assms Suc.prems(1) have "P d" by blast
  with p Suc.prems(2) Suc.IH [of d] show ?case by (auto split: outcome.splits bool.splits)
qed simp

lemma HandleMailQueue_keeps:
  assumes "\<And>db res a db'. P db \<Longrightarrow> popAndHandleMail q transmit pa db = (res, a, db') \<Longrightarrow> P db'"
  shows "P db \<Longrightarrow> HandleMailQueue ticks fuel q transmit pa db = Some (res, a, db') \<Longrightarrow> P db'"
proof (induction ticks arbitrary: db a)
  case (Suc ticks)
  from Suc.prems(2) obtain r b d where dr: "drain fuel q transmit pa db = Some (r, b, d)"
    by (cases "drain fuel q transmit pa db") auto
  with drain_keeps [of P q transmit pa] assms Suc.prems(1) have "P d" by blast
  with dr Suc.prems(2) Suc.IH [of d] show ?case by (auto split: outcome.splits)
qed simp

lemma HandleMailQueue_ends:
  "HandleMailQueue ticks fuel q transmit pa db = Some (res, a, db') \<Longrightarrow> res = Ok () \<or> panics res"
proof (induction ticks arbitrary: db a)
  case (Suc ticks)
  from Suc.prems obtain r b d where dr: "drain fuel q transmit pa db = Some (r, b, d)"
    by (cases "drain fuel q transmit pa db") auto
  with Suc.prems Suc.IH [of d] show ?case by (auto split: outcome.splits)
qed simp

text \<open>
  What the attempts of a stretch of rounds say of the mails that they took, the waiting ones from
  \<open>W\<close> to \<open>W'\<close>: \<open>D i out\<close> is that the row of the mail \<open>i\<close> decodes to \<open>out\<close>. The mails tried are
  the decoded ones, and a mail that was taken and not tried did not decode.
\<close>

definition accounts_for ::
    "(nat \<Rightarrow> (db_error list, mail) outcome \<Rightarrow> bool) \<Rightarrow> nat set \<Rightarrow> nat set \<Rightarrow> (nat \<times> mail) list \<Rightarrow> bool" where
  "accounts_for D W W' a \<longleftrightarrow> (\<forall>(i, m) \<in> set a. D i (Ok m))
     \<and> (\<forall>i \<in> W - W'. i \<in> fst ` set a \<or> (\<exists>out. D i out \<and> (\<forall>m. out \<noteq> Ok m)))"

lemma accounts_for_refl [simp]: "accounts_for D W W []"
  by (simp add: accounts_for_def)

lemma accounts_for_trans:
  "accounts_for D W W' a \<Longrightarrow> accounts_for D W' U b \<Longrightarrow> accounts_for D W U (a @ b)"
  unfolding accounts_for_def set_append image_Un ball_Un by blast

lemma accounts_for_popped:
  assumes "handle_popped transmit pa r = (res, a, st)" and "D (ID r) (DBEntityToMail pa (Row r))"
  shows "accounts_for D W (W - {ID r}) a"
  using assms by (auto simp: accounts_for_def handle_popped_def split: outcome.splits)

section \<open>What the dispatcher relies on\<close>

text \<open>
  \<open>waiting db\<close> are the mails that a pop may return. A pop gives one of them and takes it out
  of the waiting ones, or says that there is none; a failed pop changes nothing; setting the
  status of the popped mail puts no mail back.
\<close>

locale mail_queries =
  fixes q :: "'db queries"
    and inv :: "'db \<Rightarrow> bool"
    and waiting :: "'db \<Rightarrow> nat set"
  assumes finite_waiting: "finite (waiting db)"
    and pop_fails: "inv db \<Longrightarrow> PopMailForProcessing q retryFailedIntervalMicroseconds db = (None, db') \<Longrightarrow> db' = db"
    and pop_gives: "inv db \<Longrightarrow> PopMailForProcessing q retryFailedIntervalMicroseconds db = (Some rs, db') \<Longrightarrow>
      (rs = [] \<and> waiting db = {} \<and> waiting db' = {} \<and> inv db')
      \<or> (\<exists>r. rs = [r] \<and> ID r \<in> waiting db \<and> waiting db' = waiting db - {ID r} \<and> inv db')"
    and set_keeps: "inv db \<Longrightarrow> PopMailForProcessing q retryFailedIntervalMicroseconds db = (Some [r], db')
      \<Longrightarrow> st \<in> {Failed, Sent}
      \<Longrightarrow> inv (snd (SetMailStatus q (ID r) st db')) \<and> waiting (snd (SetMailStatus q (ID r) st db')) = waiting db'"
begin

text \<open>One round: nothing was done, or one waiting mail was taken and tried at most once.\<close>

lemma pop_round:
  assumes "inv db" and "popAndHandleMail q transmit pa db = (res, a, db')"
  shows "inv db' \<and> ((waiting db' = waiting db \<and> a = [] \<and> (res = Err Pop_Failed \<or> (res = Ok True \<and> waiting db = {})))
    \<or> (\<exists>i. i \<in> waiting db \<and> waiting db' = waiting db - {i} \<and> map fst a \<in> {[], [i]}
         \<and> res \<noteq> Ok True \<and> res \<noteq> Err Pop_Failed \<and> (res = Ok False \<longrightarrow> map fst a = [i])))"
proof (cases "PopMailForProcessing q retryFailedIntervalMicroseconds db")
  case (Pair rs d)
  show ?thesis
  proof (cases rs)
    case None
    with Pair assms pop_fails show ?thesis by (auto simp: popAndHandleMail_def)
  next
    case (Some l)
    with Pair pop_gives [OF assms(1)] consider "l = []" "waiting db = {}" "waiting d = {}" "inv d"
      | r where "l = [r]" "ID r \<in> waiting db" "waiting d = waiting db - {ID r}" by blast
    then show ?thesis
    proof cases
      case 1
      with Pair Some assms show ?thesis by (auto simp: popAndHandleMail_def)
    next
      case 2
      obtain res' a' st where h: "handle_popped transmit pa r = (res', a', st)"
        by (metis prod_cases3)
      then have st: "st \<in> {Failed, Sent}" "map fst a' \<in> {[], [ID r]}" "res' \<noteq> Ok True"
          "res' \<noteq> Err Pop_Failed" "res' = Ok False \<longrightarrow> map fst a' = [ID r]"
        by (auto simp: handle_popped_def split: outcome.splits)
      have "res = res'" "a = a'" "db' = snd (SetMailStatus q (ID r) st d)"
        using assms(2) Pair Some 2 h by (simp_all add: popAndHandleMail_def)
      with set_keeps [OF assms(1), of r d st] Pair Some 2 st show ?thesis by auto
    qed
  qed
qed

text \<open>The inner loop ends once it has more rounds than there are waiting mails; it tries
  waiting mails only, none of them twice, and leaves untouched the ones it did not take.\<close>

lemma drain_ends: "inv db \<Longrightarrow> card (waiting db) < n \<Longrightarrow> drain n q transmit pa db \<noteq> None"
proof (induction n arbitrary: db)
  case (Suc n)
  obtain res a db' where p: "popAndHandleMail q transmit pa db = (res, a, db')"
    by (metis prod_cases3)
  note round = pop_round [OF Suc.prems(1) p]
  show ?case
  proof (cases "res = Ok False")
    case True
    then obtain i where "i \<in> waiting db" "waiting db' = waiting db - {i}" using round by auto
    moreover from this have "0 < card (waiting db)"
      using finite_waiting [of db] by (auto simp: card_gt_0_iff)
    ultimately have "card (waiting db') < n"
      using Suc.prems(2) finite_waiting [of db] by (simp add: card_Diff_singleton)
    then show ?thesis using Suc.IH [of db'] round True p by simp
  next
    case False
    then show ?thesis using p by (auto split: outcome.split bool.split)
  qed
qed simp

lemma drain_attempts:
  "inv db \<Longrightarrow> drain n q transmit pa db = Some (res, a, db') \<Longrightarrow>
    inv db' \<and> distinct (map fst a) \<and> set (map fst a) \<subseteq> waiting db - waiting db'
    \<and> waiting db' \<subseteq> waiting db
    \<and> (res = Ok () \<longrightarrow> waiting db' = {} \<and> set (map fst a) = waiting db)
    \<and> (res \<noteq> Err Pop_Failed \<and> waiting db \<noteq> {} \<longrightarrow> waiting db' \<subset> waiting db)"
proof (induction n arbitrary: db res a)
  case (Suc n)
  obtain r b d where p: "popAndHandleMail q transmit pa db = (r, b, d)" by (metis prod_cases3)
  note round = pop_round [OF Suc.prems(1) p]
  show ?case
  proof (cases "r = Ok False")
    case True
    then obtain i where i: "i \<in> waiting db" "waiting d = waiting db - {i}" "map fst b = [i]" "inv d"
      using round by auto
    from True p Suc.prems(2) obtain a' where "drain n q transmit pa d = Some (res, a', db')" "a = b @ a'"
      by auto
    note IH = Suc.IH [OF i(4) this(1)]
    have keys: "map fst a = i # map fst a'" using \<open>a = b @ a'\<close> i(3) by simp
    from IH have "distinct (map fst a)" using i(2) by (auto simp: keys)
    moreover from IH have "set (map fst a) \<subseteq> waiting db - waiting db'"
      using i(1,2) unfolding keys by auto
    moreover from IH have "res = Ok () \<longrightarrow> waiting db' = {} \<and> set (map fst a) = waiting db"
      using i(1,2) unfolding keys by auto
    moreover from IH have "waiting db' \<subset> waiting db" using i(1,2) by blast
    ultimately show ?thesis using IH by blast
  next
    case False
    then have res: "res = (case r of Ok _ \<Rightarrow> Ok () | Err e \<Rightarrow> Err e | Panic x \<Rightarrow> Panic x)"
      and eq: "a = b" "db' = d"
      using p Suc.prems(2) by (auto split: outcome.splits bool.splits)
    from round show ?thesis
    proof (elim conjE disjE exE)
      assume "waiting d = waiting db" "b = []" "r = Err Pop_Failed" "inv d"
      with res eq show ?thesis by simp
    next
      assume "waiting d = waiting db" "b = []" "r = Ok True" "waiting db = {}" "inv d"
      with res eq show ?thesis by simp
    next
      fix i
      assume one: "i \<in> waiting db" "waiting d = waiting db - {i}" "map fst b \<in> {[], [i]}"
        "r \<noteq> Ok True" "inv d"
      then have "res \<noteq> Ok ()" using res False by (cases r) auto
      moreover have "distinct (map fst b)" "set (map fst b) \<subseteq> {i}" using one(3) by fastforce+
      ultimately show ?thesis using one(1,2,5) by (auto simp: eq)
    qed
  qed
qed simp

text \<open>The outer loop gets through any number of ticks.\<close>

lemma HandleMailQueue_returns:
  "inv db \<Longrightarrow> card (waiting db) < fuel \<Longrightarrow> HandleMailQueue ticks fuel q transmit pa db \<noteq> None"
proof (induction ticks arbitrary: db)
  case (Suc ticks)
  obtain res a d where dr: "drain fuel q transmit pa db = Some (res, a, d)"
    using drain_ends [OF Suc.prems] by (metis not_None_eq prod_cases3)
  from drain_attempts [OF Suc.prems(1) dr] have "inv d" "waiting d \<subseteq> waiting db" by simp_all
  with Suc.prems(2) finite_waiting [of db] have "card (waiting d) < fuel"
    by (meson card_mono le_less_trans)
  with Suc.IH [of d] \<open>inv d\<close> dr show ?case by (cases res) auto
qed simp

text \<open>Where the handling of no mail panics, nothing does: the dispatcher goes through all its ticks.\<close>

lemma popAndHandleMail_no_panic:
  assumes "\<forall>db r db'. inv db \<longrightarrow> PopMailForProcessing q retryFailedIntervalMicroseconds db = (Some [r], db')
      \<longrightarrow> \<not> panics (fst (handle_popped transmit pa r))"
    and "inv db" and "popAndHandleMail q transmit pa db = (res, a, db')"
  shows "\<not> panics res"
proof -
  obtain rs d where P: "PopMailForProcessing q retryFailedIntervalMicroseconds db = (rs, d)" by fastforce
  show ?thesis
  proof (cases rs)
    case (Some l)
    with pop_gives [OF assms(2)] P consider "l = []" | r where "l = [r]" by blast
    then show ?thesis
    proof cases
      case 2
      with P Some assms(1) [rule_format, OF assms(2), of r d] assms(3) show ?thesis
        by (auto simp: popAndHandleMail_def handle_popped_def split: outcome.splits)
    qed (use P Some assms(3) in \<open>auto simp: popAndHandleMail_def\<close>)
  qed (use P assms(3) in \<open>auto simp: popAndHandleMail_def\<close>)
qed

lemma drain_no_panic:
  assumes "\<forall>db r db'. inv db \<longrightarrow> PopMailForProcessing q retryFailedIntervalMicroseconds db = (Some [r], db')
      \<longrightarrow> \<not> panics (fst (handle_popped transmit pa r))"
  shows "inv db \<Longrightarrow> drain n q transmit pa db = Some (res, a, db') \<Longrightarrow> \<not> panics res"
proof (induction n arbitrary: db res a)
  case (Suc n)
  obtain r b d where p: "popAndHandleMail q transmit pa db = (r, b, d)" by (metis prod_cases3)
  have "\<not> panics r" and "inv d"
    using popAndHandleMail_no_panic [OF assms Suc.prems(1) p] pop_round [OF Suc.prems(1) p] by blast+
  with p Suc.prems(2) Suc.IH [of d] show ?case
    by (auto split: outcome.splits bool.splits)
qed simp

lemma HandleMailQueue_no_panic:
  assumes "\<forall>db r db'. inv db \<longrightarrow> PopMailForProcessing q retryFailedIntervalMicroseconds db = (Some [r], db')
      \<longrightarrow> \<not> panics (fst (handle_popped transmit pa r))"
  shows "inv db \<Longrightarrow> HandleMailQueue ticks fuel q transmit pa db = Some (res, a, db') \<Longrightarrow> res = Ok ()"
proof (induction ticks arbitrary: db a)
  case (Suc ticks)
  from Suc.prems(2) obtain r b d where dr: "drain fuel q transmit pa db = Some (r, b, d)"
    by (cases "drain fuel q transmit pa db") auto
  with drain_no_panic [OF assms Suc.prems(1) dr] drain_attempts [OF Suc.prems(1) dr] Suc.prems(2) Suc.IH [of d]
  show ?case by (auto split: outcome.splits)
qed simp

text \<open>With a database that answers no round fails for want of a pop.\<close>

lemma drain_pops:
  assumes "\<forall>db. fst (PopMailForProcessing q retryFailedIntervalMicroseconds db) \<noteq> None"
  shows "drain n q transmit pa db = Some (res, a, db') \<Longrightarrow> res \<noteq> Err Pop_Failed"
proof (induction n arbitrary: db res a)
  case (Suc n)
  obtain r b d where p: "popAndHandleMail q transmit pa db = (r, b, d)" by (metis prod_cases3)
  obtain rs d' where "PopMailForProcessing q retryFailedIntervalMicroseconds db = (Some rs, d')"
    using assms by (metis fst_conv option.exhaust surj_pair)
  then have "r \<noteq> Err Pop_Failed"
    using p by (auto simp: popAndHandleMail_def handle_popped_def split: list.splits outcome.splits)
  with p Suc.prems Suc.IH [of d] show ?case by (auto split: outcome.splits bool.splits)
qed simp

text \<open>A mail that fails ends the round, but not the queue: with a database that answers and no
  panic, as many ticks as there are waiting mails leave none waiting.\<close>

lemma queue_empties:
  assumes "\<forall>db. fst (PopMailForProcessing q retryFailedIntervalMicroseconds db) \<noteq> None"
    and "\<forall>db r db'. inv db \<longrightarrow> PopMailForProcessing q retryFailedIntervalMicroseconds db = (Some [r], db')
      \<longrightarrow> \<not> panics (fst (handle_popped transmit pa r))"
  shows "inv db \<Longrightarrow> card (waiting db) < fuel \<Longrightarrow> card (waiting db) \<le> ticks \<Longrightarrow>
    \<exists>a db'. HandleMailQueue ticks fuel q transmit pa db = Some (Ok (), a, db') \<and> waiting db' = {} \<and> inv db'
      \<and> distinct (map fst a) \<and> set (map fst a) \<subseteq> waiting db"
proof (induction ticks arbitrary: db)
  case 0
  then show ?case using finite_waiting [of db] by simp
next
  case (Suc ticks)
  obtain res a d where dr: "drain fuel q transmit pa db = Some (res, a, d)"
    using drain_ends [OF Suc.prems(1,2)] by (metis not_None_eq prod_cases3)
  note att = drain_attempts [OF Suc.prems(1) dr]
  have np: "\<not> panics res" "res \<noteq> Err Pop_Failed"
    using drain_no_panic [OF assms(2) Suc.prems(1) dr] drain_pops [OF assms(1) dr] by blast+
  have sub: "card (waiting d) \<le> card (waiting db)"
    using att finite_waiting by (blast intro: card_mono)
  have "card (waiting d) \<le> ticks"
  proof (cases "waiting db = {}")
    case True
    with att have "waiting d = {}" by blast
    then show ?thesis by simp
  next
    case False
    with att np have "waiting d \<subset> waiting db" by blast
    then have "card (waiting d) < card (waiting db)" using finite_waiting by (rule psubset_card_mono [rotated])
    with Suc.prems(3) show ?thesis by simp
  qed
  with Suc.IH [of d] att sub Suc.prems(2) obtain a' db' where
    ih: "HandleMailQueue ticks fuel q transmit pa d = Some (Ok (), a', db')" "waiting db' = {}" "inv db'"
    "distinct (map fst a')" "set (map fst a') \<subseteq> waiting d" by auto
  have "HandleMailQueue (Suc ticks) fuel q transmit pa db = Some (Ok (), a @ a', db')"
    using dr ih(1) np(1) by (cases res) simp_all
  moreover have "distinct (map fst (a @ a'))" using att ih(4,5) by auto
  moreover have "set (map fst (a @ a')) \<subseteq> waiting db" using att ih(5) by auto
  ultimately show ?case using ih(2,3) by blast
qed

text \<open>Every round accounts for the mail it took, and so do both loops.\<close>

lemma popAndHandleMail_accounts:
  assumes "\<forall>db r db'. inv db \<longrightarrow> PopMailForProcessing q retryFailedIntervalMicroseconds db = (Some [r], db')
      \<longrightarrow> D (ID r) (DBEntityToMail pa (Row r))"
    and "inv db" and "popAndHandleMail q transmit pa db = (res, a, db')"
  shows "accounts_for D (waiting db) (waiting db') a"
proof (cases "PopMailForProcessing q retryFailedIntervalMicroseconds db")
  case (Pair rs d)
  show ?thesis
  proof (cases rs)
    case None
    with Pair assms(3) pop_fails [OF assms(2), of d] show ?thesis by (simp add: popAndHandleMail_def)
  next
    case (Some l)
    with Pair pop_gives [OF assms(2)] consider "l = []" "waiting db = {}" "waiting d = {}"
      | r where "l = [r]" "waiting d = waiting db - {ID r}" by blast
    then show ?thesis
    proof cases
      case 1
      with Pair Some assms(3) show ?thesis by (simp add: popAndHandleMail_def)
    next
      case 2
      obtain res' a' st where h: "handle_popped transmit pa r = (res', a', st)" by (metis prod_cases3)
      then have st: "st \<in> {Failed, Sent}" by (auto simp: handle_popped_def split: outcome.splits)
      from assms(3) Pair Some 2 h have "a = a'" "db' = snd (SetMailStatus q (ID r) st d)"
        by (simp_all add: popAndHandleMail_def)
      moreover have "waiting (snd (SetMailStatus q (ID r) st d)) = waiting d"
        using set_keeps [OF assms(2), of r d st] Pair Some 2(1) st by simp
      moreover have "D (ID r) (DBEntityToMail pa (Row r))" using assms(1,2) Pair Some 2(1) by blast
      ultimately show ?thesis using accounts_for_popped [OF h] 2(2) by simp
    qed
  qed
qed

lemma drain_accounts:
  assumes "\<forall>db r db'. inv db \<longrightarrow> PopMailForProcessing q retryFailedIntervalMicroseconds db = (Some [r], db')
      \<longrightarrow> D (ID r) (DBEntityToMail pa (Row r))"
  shows "inv db \<Longrightarrow> drain n q transmit pa db = Some (res, a, db') \<Longrightarrow> accounts_for D (waiting db) (waiting db') a"
proof (induction n arbitrary: db res a)
  case (Suc n)
  obtain r b d where p: "popAndHandleMail q transmit pa db = (r, b, d)" by (metis prod_cases3)
  note acc = popAndHandleMail_accounts [OF assms Suc.prems(1) p]
  show ?case
  proof (cases "r = Ok False")
    case True
    with p Suc.prems(2) obtain a' where "drain n q transmit pa d = Some (res, a', db')" "a = b @ a'" by auto
    with Suc.IH pop_round [OF Suc.prems(1) p] acc show ?thesis by (blast intro: accounts_for_trans)
  next
    case False
    with p Suc.prems(2) have "a = b" "db' = d" by (auto split: outcome.splits bool.splits)
    with acc show ?thesis by simp
  qed
qed simp

lemma HandleMailQueue_accounts:
  assumes "\<forall>db r db'. inv db \<longrightarrow> PopMailForProcessing q retryFailedIntervalMicroseconds db = (Some [r], db')
      \<longrightarrow> D (ID r) (DBEntityToMail pa (Row r))"
  shows "inv db \<Longrightarrow> HandleMailQueue ticks fuel q transmit pa db = Some (res, a, db')
    \<Longrightarrow> accounts_for D (waiting db) (waiting db') a"
proof (induction ticks arbitrary: db a)
  case (Suc ticks)
  from Suc.prems(2) obtain r b d where dr: "drain fuel q transmit pa db = Some (r, b, d)"
    by (cases "drain fuel q transmit pa db") auto
  note acc = drain_accounts [OF assms Suc.prems(1) dr]
  show ?case
  proof (cases "panics r")
    case True
    with dr Suc.prems(2) have "a = b" "db' = d" by (auto split: outcome.splits)
    with acc show ?thesis by simp
  next
    case False
    with dr Suc.prems(2) obtain a' where "HandleMailQueue ticks fuel q transmit pa d = Some (res, a', db')" "a = b @ a'"
      by (auto split: outcome.splits)
    with Suc.IH drain_attempts [OF Suc.prems(1) dr] acc show ?thesis by (blast intro: accounts_for_trans)
  qed
qed simp

end

section \<open>The table implements it\<close>

text \<open>The SQL statements as the query interface: time passes between the statements (\<open>delay\<close>),
  and a statement may fail (\<open>up\<close>).\<close>

definition pass :: "(mails_table \<Rightarrow> nat) \<Rightarrow> mails_table \<Rightarrow> mails_table" where
  "pass delay db = db\<lparr>clock := clock db + int (delay db)\<rparr>"

definition pg_queries ::
    "(mails_table \<Rightarrow> bool) \<Rightarrow> (mails_table \<Rightarrow> nat) \<Rightarrow> (mails_table \<Rightarrow> nat) \<Rightarrow> mails_table queries" where
  "pg_queries up delay choice =
     \<lparr>PopMailForProcessing = (\<lambda>interval db. if up db
        then (let (rs, db') = sql_PopMailForProcessing choice interval (pass delay db) in (Some rs, db'))
        else (None, db)),
      SetMailStatus = (\<lambda>i st db. if up db then (True, sql_SetMailStatus i st (pass delay db)) else (False, db))\<rparr>"

definition table_inv :: "mails_table \<Rightarrow> bool" where
  "table_inv db \<longleftrightarrow> distinct (map ID (rows db)) \<and> (\<forall>r \<in> set (rows db). ID r < next_id db)
     \<and> (\<forall>r \<in> set (rows db). \<forall>p. ProcessedAt r = Some p \<longrightarrow> p \<le> clock db)"

definition submitted :: "mails_table \<Rightarrow> nat set" where
  "submitted db = ID ` {r \<in> set (rows db). Status r = Submitted}"

text \<open>\<open>processed_at\<close> is never in the future, so the interval is never exceeded.\<close>

lemma poppable_inv:
  "table_inv db \<Longrightarrow> r \<in> set (rows db) \<Longrightarrow> 0 \<le> interval \<Longrightarrow> poppable (clock db) interval r \<longleftrightarrow> Status r = Submitted"
  by (fastforce simp: table_inv_def poppable_def split: option.splits)

lemma deletable_inv:
  "table_inv db \<Longrightarrow> r \<in> set (rows db) \<Longrightarrow> 0 \<le> interval \<Longrightarrow> \<not> deletable (clock db) interval r"
  by (fastforce simp: table_inv_def deletable_def split: option.splits)

lemma table_inv_pass: "table_inv db \<Longrightarrow> table_inv (pass delay db)"
  by (fastforce simp: table_inv_def pass_def)

lemma submitted_pass [simp]: "submitted (pass delay db) = submitted db"
  by (simp add: submitted_def pass_def)

lemma ID_set_processing [simp]: "ID (set_processing now i m) = ID m"
  by (simp add: set_processing_def)

lemma filter_ID:
  "distinct (map ID xs) \<Longrightarrow> r \<in> set xs \<Longrightarrow>
     filter (\<lambda>m. ID m = ID r) (map (set_processing now i) xs) = [set_processing now i r]"
proof (induction xs)
  case (Cons x xs)
  show ?case
  proof (cases "x = r")
    case True
    with Cons.prems(1) have "ID m \<noteq> ID r" if "m \<in> set xs" for m
      using that by (auto simp: image_iff)
    then have "filter (\<lambda>m. ID m = ID r) (map (set_processing now i) xs) = []"
      by (auto simp: filter_empty_conv)
    with True show ?thesis by simp
  next
    case False
    with Cons show ?thesis by auto
  qed
qed simp

lemma sql_Pop_cases:
  assumes "table_inv db" and "0 \<le> interval"
  obtains (none) "sql_PopMailForProcessing choice interval db = ([], db)" "submitted db = {}"
  | (one) r where "r \<in> set (rows db)" "Status r = Submitted"
      "sql_PopMailForProcessing choice interval db =
        ([set_processing (clock db) (ID r) r], db\<lparr>rows := map (set_processing (clock db) (ID r)) (rows db)\<rparr>)"
proof -
  define cand where "cand = filter (poppable (clock db) interval) (rows db)"
  have cand: "r \<in> set cand \<longleftrightarrow> r \<in> set (rows db) \<and> Status r = Submitted" for r
    using poppable_inv [OF assms(1) _ assms(2)] by (auto simp: cand_def)
  show thesis
  proof (cases "cand = []")
    case True
    then have "submitted db = {}" using cand by (auto simp: submitted_def)
    with True none show ?thesis by (simp add: sql_PopMailForProcessing_def pop_select_def cand_def)
  next
    case False
    define r where "r = cand ! (choice db mod length cand)"
    with False have "r \<in> set cand" by simp
    then have r: "r \<in> set (rows db)" "Status r = Submitted" using cand by simp_all
    have "pop_select choice interval db = Some (ID r)"
      using False by (simp add: pop_select_def Let_def r_def cand_def)
    then have "sql_PopMailForProcessing choice interval db =
      (filter (\<lambda>m. ID m = ID r) (map (set_processing (clock db) (ID r)) (rows db)),
       db\<lparr>rows := map (set_processing (clock db) (ID r)) (rows db)\<rparr>)"
      by (simp add: sql_PopMailForProcessing_def pop_update_def Let_def)
    with r one assms(1) show ?thesis by (simp add: filter_ID table_inv_def)
  qed
qed

lemma table_inv_processing:
  assumes "table_inv db" and "now \<le> clock db"
  shows "table_inv (db\<lparr>rows := map (set_processing now i) (rows db)\<rparr>)"
proof -
  have "ProcessedAt (set_processing now i r) = Some p \<Longrightarrow> p \<le> clock db" if "r \<in> set (rows db)" for r p
    using that assms by (auto simp: table_inv_def set_processing_def split: if_splits)
  with assms(1) show ?thesis by (simp add: table_inv_def comp_def)
qed

lemma in_submitted: "i \<in> submitted db \<longleftrightarrow> (\<exists>r \<in> set (rows db). ID r = i \<and> Status r = Submitted)"
  by (auto simp: submitted_def)

lemma Status_set_processing [simp]:
  "Status (set_processing now i m) = Submitted \<longleftrightarrow> ID m \<noteq> i \<and> Status m = Submitted"
  by (simp add: set_processing_def)

lemma submitted_processing:
  "submitted (db\<lparr>rows := map (set_processing now i) (rows db)\<rparr>) = submitted db - {i}"
  by (rule set_eqI) (auto simp: in_submitted)

lemma ID_SetMailStatus: "map ID (rows (sql_SetMailStatus i st db)) = map ID (rows db)"
  by (simp add: sql_SetMailStatus_def comp_def if_distrib cong: if_cong)

lemma table_inv_SetMailStatus: "table_inv db \<Longrightarrow> table_inv (sql_SetMailStatus i st db)"
  unfolding table_inv_def ID_SetMailStatus by (auto simp: sql_SetMailStatus_def)

lemma submitted_SetMailStatus:
  "st \<noteq> Submitted \<Longrightarrow> submitted (sql_SetMailStatus i st db) = submitted db - {i}"
  by (rule set_eqI) (auto simp: in_submitted sql_SetMailStatus_def)

lemma table_inv_CreateMail: "table_inv db \<Longrightarrow> table_inv (sql_CreateMail row st db)"
  by (fastforce simp: table_inv_def sql_CreateMail_def)

lemma submitted_CreateMail:
  "submitted (sql_CreateMail row st db) = (if st = Submitted then {next_id db} else {}) \<union> submitted db"
  by (rule set_eqI) (auto simp: in_submitted sql_CreateMail_def)

lemma table_inv_DeleteOldMails: "table_inv db \<Longrightarrow> table_inv (sql_DeleteOldMails interval db)"
  by (auto simp: table_inv_def sql_DeleteOldMails_def distinct_map_filter)

lemma DeleteOldMails_keeps_all:
  "table_inv db \<Longrightarrow> 0 \<le> interval \<Longrightarrow> sql_DeleteOldMails interval db = db"
  by (simp add: sql_DeleteOldMails_def deletable_inv cong: filter_cong)

text \<open>\<open>DeleteOldMails\<close> of the dispatcher: the statement at every tick of \<open>deleteInterval\<close> until the
  context is done, its error logged. In a well-formed table it never deletes anything.\<close>

fun DeleteOldMails :: "nat \<Rightarrow> (mails_table \<Rightarrow> bool) \<Rightarrow> (mails_table \<Rightarrow> nat) \<Rightarrow> mails_table \<Rightarrow> mails_table" where
  "DeleteOldMails 0 up delay db = db"
| "DeleteOldMails (Suc ticks) up delay db =
     (let db = pass delay db
      in DeleteOldMails ticks up delay
        (if up db then sql_DeleteOldMails (keepMailsForIntervalDays * 86400000000) db else db))"

lemma DeleteOldMails_rows: "table_inv db \<Longrightarrow> rows (DeleteOldMails ticks up delay db) = rows db"
proof (induction ticks arbitrary: db)
  case (Suc ticks)
  note inv = table_inv_pass [OF Suc.prems, of delay]
  then have "sql_DeleteOldMails (keepMailsForIntervalDays * 86400000000) (pass delay db) = pass delay db"
    by (intro DeleteOldMails_keeps_all) (simp_all add: keepMailsForIntervalDays_def)
  moreover have "rows (pass delay db) = rows db" by (simp add: pass_def)
  ultimately show ?case using Suc.IH [OF inv] by (simp add: Let_def)
qed simp

text \<open>The laws of the interface, for the table.\<close>

lemma pg_pop:
  assumes "table_inv db"
    and "PopMailForProcessing (pg_queries up delay choice) retryFailedIntervalMicroseconds db = (Some rs, db')"
  shows "(rs = [] \<and> submitted db = {} \<and> submitted db' = {} \<and> table_inv db')
    \<or> (\<exists>r. rs = [r] \<and> ID r \<in> submitted db \<and> submitted db' = submitted db - {ID r} \<and> table_inv db')"
proof -
  note inv = table_inv_pass [OF assms(1), of delay]
  have "0 \<le> retryFailedIntervalMicroseconds" by (simp add: retryFailedIntervalMicroseconds_def)
  from inv this show ?thesis
  proof (cases rule: sql_Pop_cases [where choice = choice])
    case none
    with assms(2) inv show ?thesis by (auto simp: pg_queries_def split: if_splits)
  next
    case (one r)
    then have "ID r \<in> submitted (pass delay db)" by (auto simp: submitted_def)
    with one assms(2) table_inv_processing [OF inv order_refl] show ?thesis
      by (auto simp: pg_queries_def submitted_processing split: if_splits)
  qed
qed

lemma pg_set:
  assumes "table_inv db" and "st \<in> {Failed, Sent}" and "i \<notin> submitted db"
  shows "table_inv (snd (SetMailStatus (pg_queries up delay choice) i st db))
    \<and> submitted (snd (SetMailStatus (pg_queries up delay choice) i st db)) = submitted db"
proof -
  have "st \<noteq> Submitted" using assms(2) by auto
  with assms(1,3) table_inv_pass [OF assms(1)] show ?thesis
    by (simp add: pg_queries_def table_inv_SetMailStatus submitted_SetMailStatus)
qed

text \<open>A property of the stored mails is kept too: the dispatcher writes no mail.\<close>

definition stored_rows :: "(nat \<Rightarrow> mail_row \<Rightarrow> bool) \<Rightarrow> mails_table \<Rightarrow> bool" where
  "stored_rows good db \<longleftrightarrow> list_all (\<lambda>r. good (ID r) (Row r)) (rows db)"

abbreviation all_rows :: "(mail_row \<Rightarrow> bool) \<Rightarrow> mails_table \<Rightarrow> bool" where
  "all_rows good \<equiv> stored_rows (\<lambda>_. good)"

lemma Row_set_processing [simp]: "Row (set_processing now i m) = Row m"
  by (simp add: set_processing_def)

lemma stored_rows_pop:
  assumes "table_inv db" and "stored_rows good db"
    and "PopMailForProcessing (pg_queries up delay choice) retryFailedIntervalMicroseconds db = (rs, db')"
  shows "stored_rows good db'" and "rs = Some [r] \<Longrightarrow> good (ID r) (Row r)"
proof -
  note inv = table_inv_pass [OF assms(1), of delay]
  have "0 \<le> retryFailedIntervalMicroseconds" by (simp add: retryFailedIntervalMicroseconds_def)
  from inv this have "stored_rows good db' \<and> (rs = Some [r] \<longrightarrow> good (ID r) (Row r))"
  proof (cases rule: sql_Pop_cases [where choice = choice])
    case none
    with assms(2,3) show ?thesis by (auto simp: pg_queries_def stored_rows_def pass_def split: if_splits)
  next
    case (one r')
    with assms(2,3) show ?thesis
      by (auto simp: pg_queries_def stored_rows_def pass_def list_all_iff split: if_splits)
  qed
  then show "stored_rows good db'" "rs = Some [r] \<Longrightarrow> good (ID r) (Row r)" by simp_all
qed

lemma stored_rows_set: "stored_rows good db \<Longrightarrow> stored_rows good (snd (SetMailStatus (pg_queries up delay choice) i st db))"
  by (auto simp: pg_queries_def stored_rows_def pass_def sql_SetMailStatus_def list_all_iff)

abbreviation queue_ok :: "(nat \<Rightarrow> mail_row \<Rightarrow> bool) \<Rightarrow> mails_table \<Rightarrow> bool" where
  "queue_ok good db \<equiv> table_inv db \<and> stored_rows good db"

interpretation pg: mail_queries "pg_queries up delay choice" "queue_ok good" submitted
  for up delay choice good
proof
  show "finite (submitted db)" for db by (simp add: submitted_def)
next
  fix db db'
  assume "PopMailForProcessing (pg_queries up delay choice) retryFailedIntervalMicroseconds db = (None, db')"
  then show "db' = db" by (auto simp: pg_queries_def split: if_splits prod.splits)
next
  fix db rs db'
  assume "queue_ok good db"
    "PopMailForProcessing (pg_queries up delay choice) retryFailedIntervalMicroseconds db = (Some rs, db')"
  with pg_pop [of db up delay choice rs db'] stored_rows_pop(1) [of db good up delay choice "Some rs" db']
  show "(rs = [] \<and> submitted db = {} \<and> submitted db' = {} \<and> queue_ok good db')
    \<or> (\<exists>r. rs = [r] \<and> ID r \<in> submitted db \<and> submitted db' = submitted db - {ID r} \<and> queue_ok good db')"
    by blast
next
  fix db r db' st
  assume "queue_ok good db" "st \<in> {Failed, Sent}"
    "PopMailForProcessing (pg_queries up delay choice) retryFailedIntervalMicroseconds db = (Some [r], db')"
  with pg_pop [of db up delay choice "[r]" db'] pg_set [of db' st "ID r" up delay choice]
    stored_rows_pop(1) [of db good up delay choice "Some [r]" db'] stored_rows_set [of good db' up delay choice "ID r" st]
  show "queue_ok good (snd (SetMailStatus (pg_queries up delay choice) (ID r) st db'))
    \<and> submitted (snd (SetMailStatus (pg_queries up delay choice) (ID r) st db')) = submitted db'"
    by auto
qed

text \<open>Handling the mail of a row ends with a value or an error.\<close>

definition row_handled :: "transmitter \<Rightarrow> address_parser \<Rightarrow> mail_row \<Rightarrow> bool" where
  "row_handled transmit pa row = (case DBEntityToMail pa row of
      Ok m \<Rightarrow> \<not> panics (transmit m) | Err _ \<Rightarrow> True | Panic _ \<Rightarrow> False)"

lemma handle_popped_no_panic: "row_handled transmit pa (Row r) \<Longrightarrow> \<not> panics (fst (handle_popped transmit pa r))"
  by (auto simp: row_handled_def handle_popped_def split: outcome.splits)

lemma table_ids_inject:
  "table_inv db \<Longrightarrow> r \<in> set (rows db) \<Longrightarrow> r' \<in> set (rows db) \<Longrightarrow> ID r = ID r' \<Longrightarrow> r = r'"
  by (auto simp: table_inv_def distinct_map dest: inj_onD)

text \<open>The mails that wait and can be decoded.\<close>

definition waiting_mails :: "address_parser \<Rightarrow> mails_table \<Rightarrow> (nat \<times> mail) set" where
  "waiting_mails pa db =
     {(ID r, m) | r m. r \<in> set (rows db) \<and> Status r = Submitted \<and> DBEntityToMail pa (Row r) = Ok m}"

lemma accounts_for_waiting_mails:
  assumes "table_inv db" and "set (map fst a) \<subseteq> submitted db"
    and "accounts_for (\<lambda>i out. \<exists>r \<in> set (rows db). ID r = i \<and> DBEntityToMail pa (Row r) = out) (submitted db) {} a"
  shows "set a = waiting_mails pa db"
proof (rule set_eqI, clarify)
  fix i m
  note ids = table_ids_inject [OF assms(1)]
  show "(i, m) \<in> set a \<longleftrightarrow> (i, m) \<in> waiting_mails pa db"
  proof
    assume a: "(i, m) \<in> set a"
    with assms(2) obtain r where r: "r \<in> set (rows db)" "ID r = i" "Status r = Submitted"
      by (force simp: in_submitted)
    from a assms(3) obtain r' where "r' \<in> set (rows db)" "ID r' = i" "DBEntityToMail pa (Row r') = Ok m"
      by (auto simp: accounts_for_def)
    with r ids show "(i, m) \<in> waiting_mails pa db" by (auto simp: waiting_mails_def)
  next
    assume "(i, m) \<in> waiting_mails pa db"
    then obtain r where r: "r \<in> set (rows db)" "ID r = i" "Status r = Submitted" "DBEntityToMail pa (Row r) = Ok m"
      by (auto simp: waiting_mails_def)
    then have "i \<in> submitted db" by (auto simp: in_submitted)
    with assms(3) r ids obtain m' where m': "(i, m') \<in> set a" by (fastforce simp: accounts_for_def)
    with assms(3) obtain r' where "r' \<in> set (rows db)" "ID r' = i" "DBEntityToMail pa (Row r') = Ok m'"
      by (auto simp: accounts_for_def)
    with r ids [of r r'] m' show "(i, m) \<in> set a" by simp
  qed
qed

lemma pg_queue_empties:
  assumes "\<forall>d. up d" and "table_inv db" and "all_rows (row_handled transmit pa) db"
    and "card (submitted db) < fuel" and "card (submitted db) \<le> ticks"
  shows "\<exists>a db'. HandleMailQueue ticks fuel (pg_queries up delay choice) transmit pa db = Some (Ok (), a, db')
    \<and> submitted db' = {} \<and> distinct (map fst a) \<and> set a = waiting_mails pa db"
proof -
  let ?good = "\<lambda>i row. row_handled transmit pa row \<and> (\<exists>r \<in> set (rows db). ID r = i \<and> Row r = row)"
  have pop: "fst (PopMailForProcessing (pg_queries up delay choice) retryFailedIntervalMicroseconds d) \<noteq> None" for d
    using assms(1) by (simp add: pg_queries_def split: prod.split)
  have good: "?good (ID r) (Row r)"
    if "queue_ok ?good d"
      "PopMailForProcessing (pg_queries up delay choice) retryFailedIntervalMicroseconds d = (Some [r], d')" for d r d'
    using stored_rows_pop(2) [of d ?good up delay choice "Some [r]" d' r] that by blast
  then have np: "\<forall>d r d'. queue_ok ?good d
      \<longrightarrow> PopMailForProcessing (pg_queries up delay choice) retryFailedIntervalMicroseconds d = (Some [r], d')
      \<longrightarrow> \<not> panics (fst (handle_popped transmit pa r))"
    using handle_popped_no_panic by blast
  have inv: "queue_ok ?good db" using assms(2,3) by (auto simp: stored_rows_def list_all_iff)
  from pg.queue_empties [OF _ np inv assms(4,5)] pop obtain a db' where h:
    "HandleMailQueue ticks fuel (pg_queries up delay choice) transmit pa db = Some (Ok (), a, db')"
    "submitted db' = {}" "distinct (map fst a)" "set (map fst a) \<subseteq> submitted db"
    by blast
  have "accounts_for (\<lambda>i out. \<exists>r \<in> set (rows db). ID r = i \<and> DBEntityToMail pa (Row r) = out) (submitted db) (submitted db') a"
    by (rule pg.HandleMailQueue_accounts [where good = ?good, OF _ inv h(1)]) (use good in force)
  with h accounts_for_waiting_mails [OF assms(2) h(4)] show ?thesis by auto
qed

section \<open>Everything that happens to the queue\<close>

text \<open>
  The table with the log of all calls of \<open>TransmitMail\<close> by dispatchers. Requests insert mails
  (submitted ones, or ones that were sent at once), time passes, any dispatcher handles a mail
  with whatever sender and database behaviour it meets, a process dies while it handles one,
  and \<open>DeleteOldMails\<close> runs. The statements of several dispatchers may overlap: the update of one comes
  late, for a row that its subquery chose before (here any row), and its status later still.
\<close>

type_synonym queue_state = "mails_table \<times> (nat \<times> mail) list"

inductive queue_step :: "queue_state \<Rightarrow> queue_state \<Rightarrow> bool" where
  create: "st \<in> {Submitted, Sent} \<Longrightarrow> queue_step (db, log) (sql_CreateMail row st db, log)"
| wait: "queue_step (db, log) (pass delay db, log)"
| handle: "popAndHandleMail (pg_queries up delay choice) transmit pa db = (res, a, db')
    \<Longrightarrow> queue_step (db, log) (db', log @ a)"
| die: "PopMailForProcessing (pg_queries up delay choice) retryFailedIntervalMicroseconds db = (Some [r], db')
    \<Longrightarrow> a \<in> {[], [(ID r, m)]} \<Longrightarrow> queue_step (db, log) (db', log @ a)"
| late: "now \<le> clock db \<Longrightarrow> pop_update now i db = (rs, db') \<Longrightarrow> fst ` set a \<subseteq> {i} \<Longrightarrow> queue_step (db, log) (db', log @ a)"
| finish: "st \<in> {Failed, Sent} \<Longrightarrow> queue_step (db, log) (snd (SetMailStatus (pg_queries up delay choice) i st db), log)"
| delete: "queue_step (db, log) (sql_DeleteOldMails (keepMailsForIntervalDays * 86400000000) db, log)"

inductive_cases queue_stepE: "queue_step (db, log) s"

inductive queue_reachable :: "queue_state \<Rightarrow> bool" where
  start: "queue_reachable (\<lparr>rows = [], next_id = 1, clock = t, local_zone = z\<rparr>, [])"
| step: "queue_reachable s \<Longrightarrow> queue_step s s' \<Longrightarrow> queue_reachable s'"

definition queue_inv :: "queue_state \<Rightarrow> bool" where
  "queue_inv s \<longleftrightarrow> table_inv (fst s)"

lemma submitted_less: "table_inv db \<Longrightarrow> i \<in> submitted db \<Longrightarrow> i < next_id db"
  by (auto simp: table_inv_def in_submitted)

lemma next_id_pop:
  "PopMailForProcessing (pg_queries up delay choice) iv db = (rs, db') \<Longrightarrow> next_id db' = next_id db"
  by (auto simp: pg_queries_def sql_PopMailForProcessing_def pop_update_def pass_def Let_def split: if_splits option.splits)

lemma next_id_set: "next_id (snd (SetMailStatus (pg_queries up delay choice) i st db)) = next_id db"
  by (simp add: pg_queries_def sql_SetMailStatus_def pass_def)

text \<open>An update that comes late keeps the table well-formed, though not the mail for itself.\<close>

lemma table_inv_pop_update: "table_inv db \<Longrightarrow> now \<le> clock db \<Longrightarrow> table_inv (snd (pop_update now i db))"
  by (simp add: pop_update_def Let_def table_inv_processing)

lemma pop_update_sel [simp]:
  "next_id (snd (pop_update now i db)) = next_id db" "clock (snd (pop_update now i db)) = clock db"
  "local_zone (snd (pop_update now i db)) = local_zone db"
  by (simp_all add: pop_update_def Let_def)

lemma submitted_pop_update: "submitted (snd (pop_update now i db)) = submitted db - {i}"
  by (simp add: pop_update_def Let_def submitted_processing)

lemma queue_inv_step: "queue_step s s' \<Longrightarrow> queue_inv s \<Longrightarrow> queue_inv s'"
proof (induction rule: queue_step.induct)
  case (handle up delay choice transmit pa db res a db' log)
  then have "queue_ok (\<lambda>_ _. True) db" by (simp add: queue_inv_def stored_rows_def list_all_iff)
  from pg.pop_round [OF this handle(1)] show ?case by (simp add: queue_inv_def)
next
  case (die up delay choice db r db' a m log)
  then show ?case using pg_pop [OF _ die(1)] by (auto simp: queue_inv_def)
next
  case (late now db i rs db' a log)
  then show ?case using table_inv_pop_update [of db now i] by (simp add: queue_inv_def)
qed (simp_all add: queue_inv_def table_inv_CreateMail table_inv_pass table_inv_DeleteOldMails pg_queries_def table_inv_SetMailStatus)

lemma queue_inv_reachable: "queue_reachable s \<Longrightarrow> queue_inv s"
proof (induction rule: queue_reachable.induct)
  case (start t z)
  show ?case by (simp add: queue_inv_def table_inv_def)
next
  case (step s s')
  then show ?case using queue_inv_step by blast
qed

text \<open>The status after a round, where the database takes it.\<close>

lemma handled_status:
  assumes "table_inv db" and "\<forall>d. up d"
    and "popAndHandleMail (pg_queries up delay choice) transmit pa db = (res, a, db')" and "res \<noteq> Ok True"
  shows "\<exists>i \<in> submitted db. \<forall>r \<in> set (rows db'). ID r = i \<longrightarrow>
    Status r = (if res = Ok False then Sent else Failed)"
proof -
  obtain rs d where pop:
    "PopMailForProcessing (pg_queries up delay choice) retryFailedIntervalMicroseconds db = (Some rs, d)"
    using assms(2)
    by (cases "sql_PopMailForProcessing choice retryFailedIntervalMicroseconds (pass delay db)")
       (simp add: pg_queries_def)
  with assms(3,4) pg_pop [OF assms(1) pop] obtain r where r: "rs = [r]" "ID r \<in> submitted db"
    by (auto simp: popAndHandleMail_def)
  obtain res' a' st where h: "handle_popped transmit pa r = (res', a', st)" by (metis prod_cases3)
  with pop r assms(2,3) have "res = res'" "db' = sql_SetMailStatus (ID r) st (pass delay d)"
    by (simp_all add: popAndHandleMail_def pg_queries_def)
  moreover have "st = (if res' = Ok False then Sent else Failed)"
    using h by (auto simp: handle_popped_def split: outcome.splits)
  ultimately have "\<forall>x \<in> set (rows db'). ID x = ID r \<longrightarrow> Status x = (if res = Ok False then Sent else Failed)"
    by (auto simp: sql_SetMailStatus_def)
  with r(2) show ?thesis by blast
qed

text \<open>A row that is inserted is handled: where it decodes, its mail is transmitted once, its date in the
  zone in which it is read.\<close>

lemma queued_row_is_transmitted:
  assumes "queue_reachable (db, log)" and "\<forall>d. up d" and "all_rows (row_handled transmit pa) db"
    and "Suc (card (submitted db)) < fuel" and "card (submitted db) < ticks"
    and "DBEntityToMail pa row = Ok m" and "\<not> panics (transmit (mail_in_zone (local_zone db) m))"
  shows "\<exists>a db'. HandleMailQueue ticks fuel (pg_queries up delay choice) transmit pa (sql_CreateMail row Submitted db)
      = Some (Ok (), a, db') \<and> filter (\<lambda>(i, _). i = next_id db) a = [(next_id db, mail_in_zone (local_zone db) m)]
    \<and> submitted db' = {}"
proof -
  let ?db = "sql_CreateMail row Submitted db"
  have inv: "table_inv db" using queue_inv_reachable [OF assms(1)] by (simp add: queue_inv_def)
  have "next_id db \<notin> submitted db" using submitted_less [OF inv] by blast
  moreover have "finite (submitted db)" by (simp add: submitted_def)
  ultimately have card: "card (submitted ?db) = Suc (card (submitted db))"
    by (simp add: submitted_CreateMail)
  have row: "DBEntityToMail pa (row_in_zone (local_zone db) row) = Ok (mail_in_zone (local_zone db) m)"
    using assms(6) by (simp add: DBEntityToMail_in_zone)
  have "all_rows (row_handled transmit pa) ?db"
    using assms(3,7) row by (simp add: stored_rows_def sql_CreateMail_def row_handled_def)
  from pg_queue_empties [OF assms(2) table_inv_CreateMail [OF inv] this] card assms(4,5) obtain a db' where
    "HandleMailQueue ticks fuel (pg_queries up delay choice) transmit pa ?db = Some (Ok (), a, db')"
    "submitted db' = {}" "distinct (map fst a)" "set a = waiting_mails pa ?db"
    by (metis Suc_leI)
  moreover have "(next_id db, mail_in_zone (local_zone db) m) \<in> waiting_mails pa ?db"
    using row by (force simp: waiting_mails_def sql_CreateMail_def)
  ultimately show ?thesis using distinct_keys_filter [of a "next_id db" "mail_in_zone (local_zone db) m"] by auto
qed

end
