(* ===== verification/Auth_Claims.thy ===== *)
theory Auth_Claims
  imports Go_Strings Prelude
begin

text \<open>
  \<^verbatim>\<open>internal/auth/token.go\<close> and \<^verbatim>\<open>internal/auth/interceptor.go\<close>: the claims of a caller, the
  roles they carry, and the gRPC interceptor that puts them into the context of a handler.
  The JWT library is the parameter \<open>jwt\<close>: given issuer, audience and token, it gives the
  claims of a token that it parsed and verified, with its \<open>Valid\<close> flag, or nothing.
\<close>

section \<open>Claims and roles\<close>

record CustomClaims =
  ClientID :: string
  ResourceAccess :: "string \<Rightarrow> (string \<Rightarrow> string list option) option"

text \<open>A \<open>*CustomClaims\<close> may be nil, here \<open>None\<close>; \<open>getRoles\<close> gives nil or the list.\<close>

definition getRoles :: "CustomClaims option \<Rightarrow> string list option" where
  "getRoles c = (case c of None \<Rightarrow> None
     | Some c \<Rightarrow> (case ResourceAccess c (ClientID c) of None \<Rightarrow> None
        | Some client \<Rightarrow> client ''roles''))"

definition CanMail :: "CustomClaims option \<Rightarrow> bool" where
  "CanMail c = (case getRoles c of None \<Rightarrow> False | Some roles \<Rightarrow> ''mail'' \<in> set roles)"

definition IsSenderAllowed :: "CustomClaims option \<Rightarrow> string \<Rightarrow> bool" where
  "IsSenderAllowed c sender = (case getRoles c of None \<Rightarrow> False
     | Some roles \<Rightarrow> ''mail-sender:'' @ sender \<in> set roles)"

definition IsHeaderAllowed :: "CustomClaims option \<Rightarrow> string \<Rightarrow> bool" where
  "IsHeaderAllowed c header = (case getRoles c of None \<Rightarrow> False
     | Some roles \<Rightarrow> ''mail-header:'' @ header \<in> set roles)"

text \<open>The three kinds of role do not overlap: none of them grants another.\<close>

lemma roles_disjoint:
  "''mail'' \<noteq> ''mail-sender:'' @ s" "''mail'' \<noteq> ''mail-header:'' @ h"
  "''mail-sender:'' @ s \<noteq> ''mail-header:'' @ h"
  by simp_all

lemma no_roles [simp]:
  "\<not> CanMail None" "\<not> IsSenderAllowed None s" "\<not> IsHeaderAllowed None h"
  by (simp_all add: CanMail_def IsSenderAllowed_def IsHeaderAllowed_def getRoles_def)

lemma permissions_own_client:
  assumes "ResourceAccess c (ClientID c) = None"
  shows "\<not> CanMail (Some c)" "\<not> IsSenderAllowed (Some c) s" "\<not> IsHeaderAllowed (Some c) h"
  using assms by (simp_all add: CanMail_def IsSenderAllowed_def IsHeaderAllowed_def getRoles_def)

section \<open>The interceptor\<close>

text \<open>What a handler sees of its \<open>context.Context\<close>: the incoming metadata, and the claims under
  \<open>authParsedTokenContextKey\<close>.\<close>

type_synonym grpc_metadata = "string \<Rightarrow> string list option"

record grpc_context =
  metadata :: "grpc_metadata option"
  claims :: "CustomClaims option"

type_synonym jwt_parser = "string \<Rightarrow> string \<Rightarrow> string \<Rightarrow> (CustomClaims \<times> bool) option"

datatype token_error = No_Metadata | Header_Count nat | Not_Bearer | Bad_Token | Token_Not_Valid

text \<open>\<open>md.Get\<close> looks its key up in lower case.\<close>

definition md_get :: "grpc_metadata \<Rightarrow> string \<Rightarrow> string list" where
  "md_get md k = (case md (to_lower k) of None \<Rightarrow> [] | Some vs \<Rightarrow> vs)"

definition parseIncomingToken ::
    "jwt_parser \<Rightarrow> string \<Rightarrow> string \<Rightarrow> grpc_context \<Rightarrow> (token_error, CustomClaims) outcome" where
  "parseIncomingToken jwt oidcIssuer oidcClientID ctx =
     (case metadata ctx of None \<Rightarrow> Err No_Metadata
      | Some md \<Rightarrow>
        (let authHeaders = md_get md ''Authorization'' in
         if length authHeaders \<noteq> 1 then Err (Header_Count (length authHeaders))
         else if \<not> has_prefix (authHeaders ! 0) ''Bearer '' then Err Not_Bearer
         else (case jwt oidcIssuer oidcClientID (drop (length ''Bearer '') (authHeaders ! 0)) of
             None \<Rightarrow> Err Bad_Token
           | Some (parsed, valid) \<Rightarrow>
             if \<not> valid then Err Token_Not_Valid
             else Ok (parsed\<lparr>ClientID := oidcClientID\<rparr>))))"

definition GetGrpcAuthInterceptor ::
    "jwt_parser \<Rightarrow> string \<Rightarrow> string \<Rightarrow> grpc_context \<Rightarrow> (grpc_context \<Rightarrow> 'r) \<Rightarrow> 'r" where
  "GetGrpcAuthInterceptor jwt oidcIssuer oidcClientID ctx handler =
     handler (case parseIncomingToken jwt oidcIssuer oidcClientID ctx of
         Ok c \<Rightarrow> ctx\<lparr>claims := Some c\<rparr>
       | _ \<Rightarrow> ctx)"

datatype grpc_code = Unauthenticated | PermissionDenied | InvalidArgument | Internal | Unknown_Code

definition GetClaimsFromEnrichedGrpcCtx :: "grpc_context \<Rightarrow> (grpc_code, CustomClaims) outcome" where
  "GetClaimsFromEnrichedGrpcCtx ctx = (case claims ctx of
      None \<Rightarrow> Err Unauthenticated | Some c \<Rightarrow> Ok c)"

lemma parseIncomingToken_Ok:
  "parseIncomingToken jwt iss cid ctx = Ok c \<longleftrightarrow>
    (\<exists>md tok parsed. metadata ctx = Some md \<and> md_get md ''Authorization'' = [''Bearer '' @ tok]
       \<and> jwt iss cid tok = Some (parsed, True) \<and> c = parsed\<lparr>ClientID := cid\<rparr>)"
proof (cases "metadata ctx")
  case (Some md)
  show ?thesis
  proof (cases "md_get md ''Authorization''")
    case (Cons h hs)
    then show ?thesis
      using Some by (auto simp: parseIncomingToken_def Let_def has_prefix_iff split: option.splits)
  qed (simp add: parseIncomingToken_def Some)
qed (simp add: parseIncomingToken_def)

lemma parseIncomingToken_no_panic: "\<not> panics (parseIncomingToken jwt iss cid ctx)"
  by (auto simp: parseIncomingToken_def Let_def split: option.splits)

text \<open>A handler behind the interceptor finds claims exactly where one verified bearer token
  came with the call, and they are that token's, with the ID of this client.\<close>

lemma interceptor_claims:
  assumes "claims ctx = None"
  shows "GetGrpcAuthInterceptor jwt iss cid ctx GetClaimsFromEnrichedGrpcCtx = Ok c \<longleftrightarrow>
    (\<exists>md tok parsed. metadata ctx = Some md \<and> md_get md ''Authorization'' = [''Bearer '' @ tok]
       \<and> jwt iss cid tok = Some (parsed, True) \<and> c = parsed\<lparr>ClientID := cid\<rparr>)"
  using assms parseIncomingToken_Ok [of jwt iss cid ctx]
  by (auto simp: GetGrpcAuthInterceptor_def GetClaimsFromEnrichedGrpcCtx_def split: outcome.splits)

lemma interceptor_unauthenticated:
  assumes "claims ctx = None" and "parseIncomingToken jwt iss cid ctx = Err e"
  shows "GetGrpcAuthInterceptor jwt iss cid ctx handler = handler ctx"
  using assms by (simp add: GetGrpcAuthInterceptor_def)

end
