(* ===== verification/Grpc_Mail.thy ===== *)
theory Grpc_Mail
  imports Grpc_Mailer Mail_Queue Auth_Claims
begin

text \<open>
  \<^verbatim>\<open>internal/grpcservers/mail.go\<close>: the three calls of the mail service. What a call does to the
  world is a list of effects in order: mails handed to the sender, rows handed to the
  database. The sender, the database, the generator of UUIDs, the clock and the address
  parser are the fields of \<open>mail_world\<close>.
\<close>

definition MaxMailSizeBytes :: nat where
  "MaxMailSizeBytes = 2 * 1024 * 1024"

record MailServer =
  loggingOnly :: bool
  unauthenticated :: bool

record mail_world =
  w_GetSender :: "address \<Rightarrow> address"
  w_MessageIDSuffix :: string
  w_TransmitMail :: transmitter
  w_CreateMail :: "mail_row \<Rightarrow> mail_status \<Rightarrow> bool"      \<comment> \<open>whether the insert succeeds\<close>
  w_uuid :: "string option"
  w_now :: gotime
  w_parse_address :: address_parser
  w_boundary :: "nat list \<Rightarrow> string"

datatype mail_effect =
    Transmitted mail
  | Created mail_row mail_status bool       \<comment> \<open>the flag: \<open>DateHeader\<close> is not NULL\<close>

datatype perm_error =
    May_Not_Mail
  | May_Not_Send_From string
  | Perm_Header_Nil
  | May_Not_Set string
  | Too_Big nat
  | Not_Rendered "mail_error list"

section \<open>Permissions\<close>

definition header_perm_errors :: "CustomClaims option \<Rightarrow> header option \<Rightarrow> perm_error list" where
  "header_perm_errors c h = (case h of
      None \<Rightarrow> [Perm_Header_Nil]
    | Some h \<Rightarrow> if IsHeaderAllowed c (Key h) then [] else [May_Not_Set (Key h)])"

definition checkSendPermission ::
    "(nat list \<Rightarrow> string) \<Rightarrow> CustomClaims option \<Rightarrow> pb_mail \<Rightarrow> mail \<Rightarrow> (perm_error list, unit) outcome" where
  "checkSendPermission rb c mailReq message =
     (let permErrors = (if CanMail c then [] else [May_Not_Mail])
        @ (if IsSenderAllowed c (Address (From message)) then []
           else [May_Not_Send_From (Address (From message))])
        @ concat (map (header_perm_errors c) (pb_ExtraHeaders mailReq))
      in case GetInternetMessageFormat rb message False of
           Err es \<Rightarrow> Err [Not_Rendered es]
         | Panic p \<Rightarrow> Panic p
         | Ok msgContent \<Rightarrow>
           (let permErrors = permErrors
              @ (if MaxMailSizeBytes < length msgContent then [Too_Big (length msgContent)] else [])
            in if permErrors = [] then Ok () else Err permErrors))"

section \<open>Preprocessing\<close>

definition requested_sender :: "pb_mail \<Rightarrow> address" where
  "requested_sender mailReq = (case pb_From mailReq of
      Some (Mail_Address n a) \<Rightarrow> \<lparr>Name = n, Address = a\<rparr>
    | _ \<Rightarrow> \<lparr>Name = [], Address = []\<rparr>)"

text \<open>The outcome, and the request as the call leaves it (its sender overwritten).\<close>

definition preprocessIncomingMailRequest ::
    "mail_world \<Rightarrow> MailServer \<Rightarrow> grpc_context \<Rightarrow> pb_mail \<Rightarrow> (grpc_code, mail) outcome \<times> pb_mail" where
  "preprocessIncomingMailRequest w s ctx mailReq =
     (case w_uuid w of None \<Rightarrow> (Err Internal, mailReq)
      | Some messageUUID \<Rightarrow>
        if pb_To mailReq = [] \<and> pb_Cc mailReq = [] \<and> pb_Bcc mailReq = [] then (Err InvalidArgument, mailReq)
        else if pb_Subject mailReq = [] \<or> pb_BodyOneof mailReq = None then (Err InvalidArgument, mailReq)
        else if claims ctx = None \<and> \<not> unauthenticated s then (Err Unauthenticated, mailReq)
        else (let sender = w_GetSender w (requested_sender mailReq);
                  mailReq' = with_sender mailReq sender
          in (case pbMailToValidatedMail (w_parse_address w) (w_now w) mailReq sender of
                Err _ \<Rightarrow> Err InvalidArgument
              | Panic p \<Rightarrow> Panic p
              | Ok m \<Rightarrow>
                (let validatedMail = m\<lparr>MessageID := messageUUID @ ''@'' @ w_MessageIDSuffix w\<rparr>
                 in (case checkSendPermission (w_boundary w) (claims ctx) mailReq' validatedMail of
                       Panic p \<Rightarrow> Panic p
                     | Err _ \<Rightarrow> if unauthenticated s then Ok validatedMail else Err PermissionDenied
                     | Ok _ \<Rightarrow> Ok validatedMail)),
              mailReq')))"

section \<open>The calls\<close>

definition log_rendered :: "mail_world \<Rightarrow> mail \<Rightarrow> (grpc_code, string) outcome" where
  "log_rendered w m = (case GetInternetMessageFormat (w_boundary w) m True of
      Err _ \<Rightarrow> Err Internal | Panic p \<Rightarrow> Panic p | Ok _ \<Rightarrow> Ok (MessageID m))"

definition create_effect :: "mail_row \<Rightarrow> mail_status \<Rightarrow> mail \<Rightarrow> mail_effect" where
  "create_effect row st m = Created row st (\<not> is_zero_time (Date m))"

definition QueueMail ::
    "mail_world \<Rightarrow> MailServer \<Rightarrow> grpc_context \<Rightarrow> pb_mail \<Rightarrow> (grpc_code, string) outcome \<times> mail_effect list" where
  "QueueMail w s ctx mailReq =
     (case fst (preprocessIncomingMailRequest w s ctx mailReq) of
        Err e \<Rightarrow> (Err e, [])
      | Panic p \<Rightarrow> (Panic p, [])
      | Ok sanitizedMail \<Rightarrow>
        if loggingOnly s then (log_rendered w sanitizedMail, [])
        else (case MailToDBEntity sanitizedMail of
            Err _ \<Rightarrow> (Err Internal, [])
          | Panic p \<Rightarrow> (Panic p, [])
          | Ok row \<Rightarrow>
            (if w_CreateMail w row Submitted then Ok (MessageID sanitizedMail) else Err Internal,
             [create_effect row Submitted sanitizedMail])))"

text \<open>What \<open>SendMail\<close> and \<open>SendDryRun\<close> share after the preprocessing: convert, transmit, store as
  sent; an error of the insert is logged and forgotten.\<close>

definition transmit_and_store ::
    "mail_world \<Rightarrow> mail \<Rightarrow> (grpc_code, string) outcome \<times> mail_effect list" where
  "transmit_and_store w sanitizedMail =
     (case MailToDBEntity sanitizedMail of
        Err _ \<Rightarrow> (Err Internal, [])
      | Panic p \<Rightarrow> (Panic p, [])
      | Ok row \<Rightarrow>
        (case w_TransmitMail w sanitizedMail of
           Err _ \<Rightarrow> (Err Internal, [Transmitted sanitizedMail])
         | Panic p \<Rightarrow> (Panic p, [Transmitted sanitizedMail])
         | Ok _ \<Rightarrow> (Ok (MessageID sanitizedMail),
             [Transmitted sanitizedMail, create_effect row Sent sanitizedMail])))"

definition SendMail ::
    "mail_world \<Rightarrow> MailServer \<Rightarrow> grpc_context \<Rightarrow> pb_mail \<Rightarrow> (grpc_code, string) outcome \<times> mail_effect list" where
  "SendMail w s ctx mailReq =
     (case fst (preprocessIncomingMailRequest w s ctx mailReq) of
        Err e \<Rightarrow> (Err e, [])
      | Panic p \<Rightarrow> (Panic p, [])
      | Ok sanitizedMail \<Rightarrow>
        if loggingOnly s then (log_rendered w sanitizedMail, [])
        else transmit_and_store w sanitizedMail)"

definition SendDryRun ::
    "mail_world \<Rightarrow> MailServer \<Rightarrow> grpc_context \<Rightarrow> pb_mail \<Rightarrow> (grpc_code, pb_mail) outcome \<times> mail_effect list" where
  "SendDryRun w s ctx mailReq =
     (case preprocessIncomingMailRequest w s ctx mailReq of
        (Err e, _) \<Rightarrow> (Err e, [])
      | (Panic p, _) \<Rightarrow> (Panic p, [])
      | (Ok sanitizedMail, mailReq') \<Rightarrow>
        (case transmit_and_store w sanitizedMail of
           (Ok _, es) \<Rightarrow> (Ok mailReq', es)
         | (Err e, es) \<Rightarrow> (Err e, es)
         | (Panic p, es) \<Rightarrow> (Panic p, es)))"

section \<open>What is let through\<close>

lemma concat_map_Nil: "concat (map f xs) = [] \<longleftrightarrow> list_all (\<lambda>x. f x = []) xs"
  by (induction xs) auto

lemma checkSendPermission_Ok:
  "checkSendPermission rb c req m = Ok u \<longleftrightarrow>
     CanMail c \<and> IsSenderAllowed c (Address (From m))
     \<and> list_all (\<lambda>h. case h of None \<Rightarrow> False | Some h \<Rightarrow> IsHeaderAllowed c (Key h)) (pb_ExtraHeaders req)
     \<and> (\<exists>s. GetInternetMessageFormat rb m False = Ok s \<and> length s \<le> MaxMailSizeBytes)"
proof -
  have "header_perm_errors c h = [] \<longleftrightarrow> (case h of None \<Rightarrow> False | Some h \<Rightarrow> IsHeaderAllowed c (Key h))" for h
    by (simp add: header_perm_errors_def split: option.split)
  note headers = this
  show ?thesis
    by (cases "GetInternetMessageFormat rb m False")
       (simp_all add: checkSendPermission_def Let_def concat_map_Nil not_less headers list_all_iff)
qed

text \<open>The permissions of a mail: those of the caller's verified claims.\<close>

definition permitted :: "mail_world \<Rightarrow> grpc_context \<Rightarrow> pb_mail \<Rightarrow> mail \<Rightarrow> bool" where
  "permitted w ctx mailReq m \<longleftrightarrow> (case claims ctx of None \<Rightarrow> False
     | Some c \<Rightarrow> CanMail (Some c) \<and> IsSenderAllowed (Some c) (Address (From m))
       \<and> list_all (\<lambda>h. case h of None \<Rightarrow> False | Some h \<Rightarrow> IsHeaderAllowed (Some c) (Key h)) (pb_ExtraHeaders mailReq)
       \<and> (\<exists>s. GetInternetMessageFormat (w_boundary w) m False = Ok s \<and> length s \<le> MaxMailSizeBytes))"

lemma preprocess_Ok:
  assumes "preprocessIncomingMailRequest w s ctx req = (Ok m, req')"
  obtains uuid m0 where "w_uuid w = Some uuid"
    and "pb_To req \<noteq> [] \<or> pb_Cc req \<noteq> [] \<or> pb_Bcc req \<noteq> []"
    and "pb_Subject req \<noteq> []"
    and "pbMailToValidatedMail (w_parse_address w) (w_now w) req (w_GetSender w (requested_sender req)) = Ok m0"
    and "m = m0\<lparr>MessageID := uuid @ ''@'' @ w_MessageIDSuffix w\<rparr>"
    and "req' = with_sender req (w_GetSender w (requested_sender req))"
    and "unauthenticated s \<or> permitted w ctx req m"
proof -
  from assms obtain uuid where u: "w_uuid w = Some uuid"
    by (auto simp: preprocessIncomingMailRequest_def split: option.splits)
  with assms have guards: "pb_To req \<noteq> [] \<or> pb_Cc req \<noteq> [] \<or> pb_Bcc req \<noteq> []" "pb_Subject req \<noteq> []"
    "claims ctx \<noteq> None \<or> unauthenticated s"
    by (auto simp: preprocessIncomingMailRequest_def split: if_splits)
  define sender where "sender = w_GetSender w (requested_sender req)"
  obtain m0 where conv: "pbMailToValidatedMail (w_parse_address w) (w_now w) req sender = Ok m0"
    using assms u guards
    by (auto simp: preprocessIncomingMailRequest_def Let_def sender_def split: if_splits outcome.splits)
  define m1 where "m1 = m0\<lparr>MessageID := uuid @ ''@'' @ w_MessageIDSuffix w\<rparr>"
  have req': "req' = with_sender req sender" and m: "m = m1"
    and perm: "unauthenticated s \<or> checkSendPermission (w_boundary w) (claims ctx) req' m1 = Ok ()"
    using assms u guards conv
    by (auto simp: preprocessIncomingMailRequest_def Let_def sender_def m1_def
        split: if_splits outcome.splits)
  have "unauthenticated s \<or> permitted w ctx req m"
    using perm guards(3)
    by (auto simp: m req' permitted_def checkSendPermission_Ok with_sender_def split: option.splits)
  with that u guards conv m req' show thesis by (simp add: sender_def m1_def)
qed

definition effect_mails :: "mail_effect list \<Rightarrow> mail list" where
  "effect_mails es = concat (map (\<lambda>e. case e of Transmitted m \<Rightarrow> [m] | _ \<Rightarrow> []) es)"

text \<open>The effects of the three calls come from a preprocessed mail.\<close>

lemma transmit_and_store_effects:
  "snd (transmit_and_store w m) \<in> {[], [Transmitted m]}
   \<or> (\<exists>row. MailToDBEntity m = Ok row \<and> snd (transmit_and_store w m) = [Transmitted m, create_effect row Sent m])"
  by (auto simp: transmit_and_store_def split: outcome.split)

lemma SendMail_effects:
  "snd (SendMail w s ctx req) = [] \<or>
   (\<exists>m req'. preprocessIncomingMailRequest w s ctx req = (Ok m, req') \<and> \<not> loggingOnly s
      \<and> snd (SendMail w s ctx req) = snd (transmit_and_store w m))"
  by (cases "preprocessIncomingMailRequest w s ctx req") (auto simp: SendMail_def split: outcome.split)

lemma SendDryRun_effects:
  "snd (SendDryRun w s ctx req) = [] \<or>
   (\<exists>m req'. preprocessIncomingMailRequest w s ctx req = (Ok m, req')
      \<and> snd (SendDryRun w s ctx req) = snd (transmit_and_store w m))"
  by (cases "preprocessIncomingMailRequest w s ctx req")
     (auto simp: SendDryRun_def split: outcome.split prod.split)

lemma QueueMail_effects:
  "snd (QueueMail w s ctx req) = [] \<or>
   (\<exists>m req' row. preprocessIncomingMailRequest w s ctx req = (Ok m, req') \<and> \<not> loggingOnly s
      \<and> MailToDBEntity m = Ok row \<and> snd (QueueMail w s ctx req) = [create_effect row Submitted m])"
  by (cases "preprocessIncomingMailRequest w s ctx req") (auto simp: QueueMail_def split: outcome.split)

text \<open>A preprocessed mail is rendered without an error.\<close>

lemma preprocess_renders:
  assumes "preprocessIncomingMailRequest w s ctx req = (Ok m, req')"
  shows "\<exists>t. GetInternetMessageFormat rb m has8 = Ok t"
  using assms by (rule preprocess_Ok) (use converted_mail_renders in blast)

text \<open>Every effect of every call is one of a mail that was preprocessed.\<close>

definition effect_of :: "mail \<Rightarrow> mail_effect \<Rightarrow> bool" where
  "effect_of m e \<longleftrightarrow> e = Transmitted m
     \<or> (\<exists>row st. MailToDBEntity m = Ok row \<and> st \<in> {Submitted, Sent} \<and> e = create_effect row st m)"

lemma call_effects:
  assumes "e \<in> set (snd (QueueMail w s ctx req)) \<union> set (snd (SendMail w s ctx req))
    \<union> set (snd (SendDryRun w s ctx req))"
  shows "\<exists>m req'. preprocessIncomingMailRequest w s ctx req = (Ok m, req') \<and> effect_of m e"
proof -
  have t: "effect_of m e" if "e \<in> set (snd (transmit_and_store w m))" for m
    using that transmit_and_store_effects [of w m] by (auto simp: effect_of_def)
  from assms consider "e \<in> set (snd (QueueMail w s ctx req))" | "e \<in> set (snd (SendMail w s ctx req))"
    | "e \<in> set (snd (SendDryRun w s ctx req))" by blast
  then show ?thesis
  proof cases
    case 1
    then show ?thesis using QueueMail_effects [of w s ctx req] by (auto simp: effect_of_def)
  next
    case 2
    then show ?thesis using SendMail_effects [of w s ctx req] t by auto
  next
    case 3
    then show ?thesis using SendDryRun_effects [of w s ctx req] t by auto
  qed
qed

lemma preprocess_permitted:
  assumes "preprocessIncomingMailRequest w s ctx req = (Ok m, req')" and "\<not> unauthenticated s"
  shows "permitted w ctx req m"
  using assms(1) by (rule preprocess_Ok) (use assms(2) in auto)

lemma preprocess_recipients:
  assumes "preprocessIncomingMailRequest w s ctx req = (Ok m, req')"
  shows "To m @ Cc m @ Bcc m \<noteq> []" and "list_all (address_sane (w_parse_address w)) (all_addresses m)"
    and "From m = w_GetSender w (requested_sender req)" and "Headers m = []" and "Subject m \<noteq> []"
    and "ValidateMail m = Ok ()"
  using assms
  by (rule preprocess_Ok;
      force simp: pbMailToValidatedMail_Ok transformAddressLists_Ok check_extra_headers_Ok
        all_addresses_def ValidateMail_MessageID)+

text \<open>A request without a nil part is answered or refused, never with a panic.\<close>

lemma checkSendPermission_no_panic:
  assumes "pbMailToValidatedMail pa now req sender = Ok m"
  shows "\<not> panics (checkSendPermission rb c req' (m\<lparr>MessageID := i\<rparr>))"
proof -
  have "\<not> panics (if b then Ok x else Err y)" for b and x :: unit and y :: "perm_error list"
    by simp
  then show ?thesis
    using converted_mail_renders [OF assms, of rb i False] by (auto simp only: checkSendPermission_def Let_def outcome.case)
qed

lemma preprocess_no_panic:
  assumes "body_nil_free (pb_BodyOneof req)"
  shows "\<not> panics (fst (preprocessIncomingMailRequest w s ctx req))"
proof -
  define sender where "sender = w_GetSender w (requested_sender req)"
  have conv: "\<not> panics (pbMailToValidatedMail (w_parse_address w) (w_now w) req sender)"
    by (rule pbMailToValidatedMail_no_panic) (rule assms)
  show ?thesis
  proof (cases "pbMailToValidatedMail (w_parse_address w) (w_now w) req sender")
    case (Ok m)
    have "\<not> panics (checkSendPermission (w_boundary w) c req' (m\<lparr>MessageID := i\<rparr>))" for c req' i
      using Ok by (rule checkSendPermission_no_panic)
    with Ok show ?thesis
      unfolding preprocessIncomingMailRequest_def sender_def
      by (auto simp: Let_def panics_iff split: option.split outcome.split)
  qed (use conv in \<open>simp_all add: preprocessIncomingMailRequest_def Let_def sender_def split: option.split\<close>)
qed

text \<open>The extra headers are checked, and dropped: without them the mail is the same.\<close>

lemma preprocess_without_extra_headers:
  assumes "preprocessIncomingMailRequest w s ctx req = (Ok m, req')"
  shows "fst (preprocessIncomingMailRequest w s ctx (req\<lparr>pb_ExtraHeaders := []\<rparr>)) = Ok m"
proof -
  from assms obtain uuid m0 where u: "w_uuid w = Some uuid"
    and to: "pb_To req \<noteq> [] \<or> pb_Cc req \<noteq> [] \<or> pb_Bcc req \<noteq> []" and sub: "pb_Subject req \<noteq> []"
    and conv: "pbMailToValidatedMail (w_parse_address w) (w_now w) req (w_GetSender w (requested_sender req)) = Ok m0"
    and m: "m = m0\<lparr>MessageID := uuid @ ''@'' @ w_MessageIDSuffix w\<rparr>"
    and perm: "unauthenticated s \<or> permitted w ctx req m"
    by (rule preprocess_Ok)
  have body: "pb_BodyOneof req \<noteq> None"
    using conv by (cases "pb_BodyOneof req") (simp_all add: pbMailToValidatedMail_Ok mail_body_def)
  have "claims ctx \<noteq> None \<or> unauthenticated s"
    using perm by (auto simp: permitted_def split: option.splits)
  moreover have "pbMailToValidatedMail (w_parse_address w) (w_now w) (req\<lparr>pb_ExtraHeaders := []\<rparr>)
      (w_GetSender w (requested_sender req)) = Ok m0"
    using conv by (simp add: pbMailToValidatedMail_Ok check_extra_headers_Ok)
  moreover have "unauthenticated s \<or> checkSendPermission (w_boundary w) (claims ctx)
      (with_sender (req\<lparr>pb_ExtraHeaders := []\<rparr>) (w_GetSender w (requested_sender req))) m = Ok ()"
    using perm by (auto simp: permitted_def checkSendPermission_Ok with_sender_def split: option.splits)
  moreover have "checkSendPermission (w_boundary w) c req'' m \<noteq> Panic p" for c req'' p
    using checkSendPermission_no_panic [OF conv] unfolding m panics_iff by blast
  moreover have "requested_sender (req\<lparr>pb_ExtraHeaders := []\<rparr>) = requested_sender req"
    by (simp add: requested_sender_def)
  ultimately show ?thesis
    using u to sub body
    by (auto simp: preprocessIncomingMailRequest_def Let_def m split: outcome.split)
qed

section \<open>Behind the interceptor\<close>

text \<open>A token that the verifier accepts and whose roles for this client allow the mail.\<close>

definition token_allows :: "jwt_parser \<Rightarrow> string \<Rightarrow> string \<Rightarrow> string \<Rightarrow> mail \<Rightarrow> bool" where
  "token_allows jwt iss cid tok m \<longleftrightarrow>
     (\<exists>parsed client roles. jwt iss cid tok = Some (parsed, True) \<and> ResourceAccess parsed cid = Some client
        \<and> client ''roles'' = Some roles \<and> ''mail'' \<in> set roles \<and> ''mail-sender:'' @ Address (From m) \<in> set roles)"

lemma intercepted_effect:
  assumes "claims ctx = None" and "\<not> unauthenticated s"
    and "e \<in> set (GetGrpcAuthInterceptor jwt iss cid ctx (\<lambda>c. snd (QueueMail w s c req)
      @ snd (SendMail w s c req) @ snd (SendDryRun w s c req)))"
  shows "\<exists>m md tok ctx' req'. metadata ctx = Some md \<and> md_get md ''Authorization'' = [''Bearer '' @ tok]
    \<and> token_allows jwt iss cid tok m \<and> effect_of m e
    \<and> preprocessIncomingMailRequest w s ctx' req = (Ok m, req')"
proof -
  define ctx' where "ctx' = (case parseIncomingToken jwt iss cid ctx of Ok c \<Rightarrow> ctx\<lparr>claims := Some c\<rparr> | _ \<Rightarrow> ctx)"
  have "e \<in> set (snd (QueueMail w s ctx' req)) \<union> set (snd (SendMail w s ctx' req)) \<union> set (snd (SendDryRun w s ctx' req))"
    using assms(3) by (simp add: GetGrpcAuthInterceptor_def ctx'_def)
  then obtain m req' where m: "preprocessIncomingMailRequest w s ctx' req = (Ok m, req')" "effect_of m e"
    using call_effects by blast
  then have "permitted w ctx' req m" using assms(2) preprocess_permitted by blast
  then obtain c where c: "claims ctx' = Some c" "CanMail (Some c)" "IsSenderAllowed (Some c) (Address (From m))"
    by (auto simp: permitted_def split: option.splits)
  with assms(1) have "parseIncomingToken jwt iss cid ctx = Ok c"
    by (auto simp: ctx'_def split: outcome.splits)
  then obtain md tok parsed where t: "metadata ctx = Some md" "md_get md ''Authorization'' = [''Bearer '' @ tok]"
    "jwt iss cid tok = Some (parsed, True)" "c = parsed\<lparr>ClientID := cid\<rparr>"
    unfolding parseIncomingToken_Ok by blast
  with c(2,3) have "token_allows jwt iss cid tok m"
    by (auto simp: token_allows_def CanMail_def IsSenderAllowed_def getRoles_def split: option.splits)
  with t m show ?thesis by blast
qed

end
