(* ===== verification/Smtp_Proxy.thy ===== *)
theory Smtp_Proxy
  imports Grpc_Mailer Auth_Token_Provider
begin

text \<open>
  \<^verbatim>\<open>internal/smtp-proxy\<close>: the proxy that takes mails over SMTP and hands them to the mail
  service over gRPC. \<open>grpc.go\<close> turns a mail into a request; \<open>smtp-proxy.go\<close> holds the handlers
  of the SMTP server. The calls of the gRPC client are recorded in order; what they answer is
  a parameter.
\<close>

section \<open>From a mail to a request\<close>

definition MakePbAddress :: "string \<Rightarrow> string \<Rightarrow> pb_address option" where
  "MakePbAddress n a = Some (Mail_Address n a)"

definition pb_addresses :: "address list \<Rightarrow> pb_address option list" where
  "pb_addresses as = map (\<lambda>a. MakePbAddress (Name a) (Address a)) as"

definition pb_headers :: "header list \<Rightarrow> header option list" where
  "pb_headers hs = map (\<lambda>h. Some \<lparr>Key = Key h, Value = Value h\<rparr>) hs"

definition non_empty :: "string \<Rightarrow> string option" where
  "non_empty s = (if s = [] then None else Some s)"

datatype build_error = Unsupported_Part

fun transformPartToProto :: "part \<Rightarrow> (build_error, mime_content) outcome"
  and transformChildToProto :: "child \<Rightarrow> (build_error, mime_part) outcome" where
  "transformPartToProto (Text t) = Ok (Content t)"
| "transformPartToProto (Binary b) = Ok (ContentBytes b)"
| "transformPartToProto (Multipart cs) =
     obind (traverse transformChildToProto cs) (\<lambda>parts. Ok (Nested (MimeBody parts)))"
| "transformPartToProto NoPart = Err Unsupported_Part"
| "transformChildToProto (Child ct hs p) =
     obind (transformPartToProto p) (\<lambda>c. Ok (MimePart (non_empty ct) (pb_headers hs) c))"

definition buildGrpcRequestFromMail :: "mail \<Rightarrow> (build_error, pb_mail) outcome" where
  "buildGrpcRequestFromMail m =
     obind (case Body m of
        Text t \<Rightarrow> Ok (PlainText t)
      | Binary b \<Rightarrow> Ok (RawBody b)
      | Multipart cs \<Rightarrow> obind (traverse transformChildToProto cs) (\<lambda>parts. Ok (MultipartBody (MimeBody parts)))
      | NoPart \<Rightarrow> Err Unsupported_Part)
     (\<lambda>body. Ok
       \<lparr>pb_From = MakePbAddress (Name (From m)) (Address (From m)),
        pb_ReplyTo = pb_addresses (ReplyTo m), pb_To = pb_addresses (To m),
        pb_Cc = pb_addresses (Cc m), pb_Bcc = pb_addresses (Bcc m),
        pb_ExtraHeaders = pb_headers (Headers m), pb_Subject = Subject m,
        pb_ContentType = non_empty (ContentType m), pb_BodyOneof = Some body\<rparr>)"

section \<open>The two conversions are inverse\<close>

text \<open>What the conversion back accepts: part headers with a valid key, parts that are not nil,
  and, so that no default is filled in, a content type.\<close>

fun part_transferable :: "part \<Rightarrow> bool" and child_transferable :: "child \<Rightarrow> bool" where
  "part_transferable NoPart = False"
| "part_transferable (Text t) = True"
| "part_transferable (Binary b) = True"
| "part_transferable (Multipart cs) = list_all child_transferable cs"
| "child_transferable (Child ct hs p) =
     (ct \<noteq> [] \<and> list_all (\<lambda>h. ValidateHeaderKey (Key h)) hs \<and> part_transferable p)"

lemma part_headers_inverse:
  "list_all (\<lambda>h. ValidateHeaderKey (Key h)) hs \<Longrightarrow> traverse part_header (pb_headers hs) = Ok hs"
  by (induction hs) (simp_all add: pb_headers_def part_header_def)

lemma traverse_both_inverse:
  assumes "\<And>x. x \<in> set xs \<Longrightarrow> \<exists>y. f x = Ok y \<and> g y = Ok x"
  shows "\<exists>ys. traverse f xs = Ok ys \<and> traverse g ys = Ok xs"
  using assms
proof (induction xs)
  case (Cons x xs)
  from Cons.IH Cons.prems obtain ys where "traverse f xs = Ok ys" "traverse g ys = Ok xs" by auto
  moreover from Cons.prems [of x] obtain y where "f x = Ok y" "g y = Ok x" by auto
  ultimately show ?case by (intro exI [of _ "y # ys"]) simp
qed simp

lemma transform_inverse:
  "part_transferable p \<Longrightarrow>
     \<exists>c. transformPartToProto p = Ok c \<and> transformMimePartsToMailerParts c = Ok p"
  and transform_child_inverse:
  "child_transferable ch \<Longrightarrow> \<exists>mp. transformChildToProto ch = Ok mp \<and> transform_child mp = Ok ch"
proof (induction p and ch rule: part_transferable_child_transferable.induct)
  case (4 cs)
  then have "\<exists>ys. traverse transformChildToProto cs = Ok ys \<and> traverse transform_child ys = Ok cs"
    by (intro traverse_both_inverse) (simp add: list_all_iff)
  then show ?case by auto
next
  case (5 ct hs p)
  then obtain c where "transformPartToProto p = Ok c" "transformMimePartsToMailerParts c = Ok p" by auto
  with 5(2) show ?case by (auto simp: part_headers_inverse non_empty_def)
qed simp_all

lemma transformAddressLists_pb:
  "list_all (address_sane pa) as \<Longrightarrow> transformAddressLists pa (pb_addresses as) = Ok as"
  by (simp add: transformAddressLists_Ok pb_addresses_def MakePbAddress_def)

text \<open>A valid mail that the proxy hands on is the mail the service then builds, but for the
  date, the Message-ID and the extra headers, which the service does not take from it.\<close>

definition handed_on :: "gotime \<Rightarrow> mail \<Rightarrow> mail" where
  "handed_on now m = m\<lparr>Date := now, MessageID := [], Headers := []\<rparr>"

lemma ValidateMail_handed_on: "ValidateMail m = Ok () \<Longrightarrow> ValidateMail (handed_on now m) = Ok ()"
proof -
  have "content_type_errors (handed_on now m) = content_type_errors m"
    by (simp add: handed_on_def content_type_errors_def Let_def split: prod.split option.split)
  then show "ValidateMail m = Ok () \<Longrightarrow> ?thesis"
    by (simp add: ValidateMail_Ok) (simp add: handed_on_def)
qed

lemma check_extra_headers_pb:
  "list_all (\<lambda>h. header_errors h = []) hs \<Longrightarrow> check_extra_headers (pb_headers hs) = Ok []"
  by (simp add: check_extra_headers_Ok pb_headers_def list_all_iff header_errors_Nil)

lemma proxy_roundtrip:
  assumes "ValidateMail m = Ok ()" and "part_transferable (Body m)" and "ContentType m \<noteq> []"
    and "list_all (address_sane pa) (all_addresses m)"
  shows "\<exists>req. buildGrpcRequestFromMail m = Ok req
    \<and> pbMailToValidatedMail pa now req (From m) = Ok (handed_on now m)"
proof -
  have ct: "check_content_type (Some (ContentType m)) = Ok ()"
    using assms(1,3) by (auto simp: ValidateMail_Ok content_type_errors_def check_content_type_def
        split: prod.splits option.splits)
  obtain req where req: "buildGrpcRequestFromMail m = Ok req"
    "mail_body (Some (ContentType m)) (pb_BodyOneof req) = Ok (ContentType m, Body m)"
  proof (cases "Body m")
    case (Multipart cs)
    have "\<exists>ys. traverse transformChildToProto cs = Ok ys \<and> traverse transform_child ys = Ok cs"
      using assms(2) Multipart transform_child_inverse
      by (intro traverse_both_inverse) (simp add: list_all_iff)
    with that Multipart show thesis by (auto simp: buildGrpcRequestFromMail_def mail_body_def)
  qed (use assms(2) that in \<open>auto simp: buildGrpcRequestFromMail_def mail_body_def\<close>)
  have "pbMailToValidatedMail pa now req (From m) = Ok (handed_on now m)"
    using assms ct req ValidateMail_handed_on [OF assms(1)]
    by (auto simp: pbMailToValidatedMail_Ok buildGrpcRequestFromMail_def obind_eq_Ok non_empty_def
        transformAddressLists_pb check_extra_headers_pb ValidateMail_Ok [of m] all_addresses_def
        handed_on_def)
  with req show ?thesis by blast
qed

section \<open>The handlers\<close>

datatype GrpcAuthMode = SMTPPassthrough | OIDCInject | GrpcAuthNone | GrpcAuthOther string
datatype SMTPAuthMode = SMTPAuthPlain | SMTPAuthNone | SMTPAuthOther string

record OIDCConfig =
  oidcTokenEndpoint :: string
  oidcClientID :: string
  oidcClientSecret :: string

record SMTPProxyConfig =
  smtpAuthMode :: SMTPAuthMode
  SMTPEnsureSender :: bool
  grpcAuthMode :: GrpcAuthMode
  OidcConfig :: "OIDCConfig option"
  TokenProviderOptions :: "(OidcTokenProvider \<Rightarrow> OidcTokenProvider) list"
  LoggingOnly :: bool
  UseQueuing :: bool

datatype proxy_error =
    Build_Failed build_error
  | No_Provider
  | Token_Failed provider_error
  | Unknown_Auth_Mode string
  | Not_Renderable "mail_error list"
  | Dry_Run_Failed string | Dry_Run_No_From | Sender_Rejected string
  | Queue_Failed string | Send_Mail_Failed string

text \<open>The calls of the client: the value of the Authorization metadata, if any, and the request.\<close>

datatype client_call =
    Call_DryRun "string option" pb_mail
  | Call_Queue "string option" pb_mail
  | Call_Send "string option" pb_mail

record mail_client =
  cl_SendDryRun :: "string option \<Rightarrow> pb_mail \<Rightarrow> (string, pb_mail) outcome"
  cl_QueueMail :: "string option \<Rightarrow> pb_mail \<Rightarrow> (string, string) outcome"
  cl_SendMail :: "string option \<Rightarrow> pb_mail \<Rightarrow> (string, string) outcome"

definition get_mail_address :: "pb_address option \<Rightarrow> address option" where
  "get_mail_address a = (case a of Some (Mail_Address n s) \<Rightarrow> Some \<lparr>Name = n, Address = s\<rparr> | _ \<Rightarrow> None)"

text \<open>The Authorization value for the mode: from the session's provider, from the proxy's own, or
  none. The providers are the ones the handler may use, and are given back as it leaves them.\<close>

record providers =
  injected :: "OidcTokenProvider option"
  of_session :: "OidcTokenProvider option"

definition bearer :: "string option \<Rightarrow> (proxy_error, string option) outcome" where
  "bearer t = (case t of None \<Rightarrow> Panic Nil_Deref | Some token \<Rightarrow> Ok (Some (''Bearer '' @ token)))"

definition authorization ::
    "GrpcAuthMode \<Rightarrow> token_world \<Rightarrow> int64 \<Rightarrow> providers \<Rightarrow> (proxy_error, string option) outcome \<times> providers" where
  "authorization mode w now ps =
     (case mode of
        GrpcAuthNone \<Rightarrow> (Ok None, ps)
      | SMTPPassthrough \<Rightarrow>
        (case of_session ps of None \<Rightarrow> (Err No_Provider, ps)
         | Some tp \<Rightarrow> (case GetAccessToken w now tp of
             (Err e, tp') \<Rightarrow> (Err (Token_Failed e), ps\<lparr>of_session := Some tp'\<rparr>)
           | (Panic p, tp') \<Rightarrow> (Panic p, ps\<lparr>of_session := Some tp'\<rparr>)
           | (Ok t, tp') \<Rightarrow> (bearer t, ps\<lparr>of_session := Some tp'\<rparr>)))
      | OIDCInject \<Rightarrow>
        (case injected ps of None \<Rightarrow> (Panic Nil_Deref, ps)
         | Some tp \<Rightarrow> (case GetAccessToken w now tp of
             (Err e, tp') \<Rightarrow> (Err (Token_Failed e), ps\<lparr>injected := Some tp'\<rparr>)
           | (Panic p, tp') \<Rightarrow> (Panic p, ps\<lparr>injected := Some tp'\<rparr>)
           | (Ok t, tp') \<Rightarrow> (bearer t, ps\<lparr>injected := Some tp'\<rparr>)))
      | GrpcAuthOther s \<Rightarrow> (Err (Unknown_Auth_Mode s), ps))"

text \<open>The dry run that \<open>SMTPEnsureSender\<close> asks for.\<close>

definition ensure_sender ::
    "mail_client \<Rightarrow> string option \<Rightarrow> pb_mail \<Rightarrow> mail \<Rightarrow> (proxy_error, unit) outcome" where
  "ensure_sender client authz pbMail m =
     (case cl_SendDryRun client authz pbMail of
        Err e \<Rightarrow> Err (Dry_Run_Failed e)
      | Panic p \<Rightarrow> Panic p
      | Ok resp \<Rightarrow> (case get_mail_address (pb_From resp) of
            None \<Rightarrow> Err Dry_Run_No_From
          | Some a \<Rightarrow> if Address a \<noteq> Address (From m) then Err (Sender_Rejected (Address (From m))) else Ok ()))"

definition deliver_mail :: "SMTPProxyConfig \<Rightarrow> mail_client \<Rightarrow> string option \<Rightarrow> pb_mail \<Rightarrow> (proxy_error, unit) outcome" where
  "deliver_mail cfg client authz pbMail =
     (if UseQueuing cfg
      then (case cl_QueueMail client authz pbMail of
          Err e \<Rightarrow> Err (Queue_Failed e) | Panic p \<Rightarrow> Panic p | Ok _ \<Rightarrow> Ok ())
      else (case cl_SendMail client authz pbMail of
          Err e \<Rightarrow> Err (Send_Mail_Failed e) | Panic p \<Rightarrow> Panic p | Ok _ \<Rightarrow> Ok ()))"

definition deliver_call :: "SMTPProxyConfig \<Rightarrow> string option \<Rightarrow> pb_mail \<Rightarrow> client_call" where
  "deliver_call cfg authz pbMail = (if UseQueuing cfg then Call_Queue authz pbMail else Call_Send authz pbMail)"

definition mailHandler ::
    "SMTPProxyConfig \<Rightarrow> mail_client \<Rightarrow> token_world \<Rightarrow> int64 \<Rightarrow> (nat list \<Rightarrow> string) \<Rightarrow> providers \<Rightarrow> mail
       \<Rightarrow> (proxy_error, unit) outcome \<times> client_call list \<times> providers" where
  "mailHandler cfg client w now rb ps m =
     (case buildGrpcRequestFromMail m of
        Err e \<Rightarrow> (Err (Build_Failed e), [], ps)
      | Panic p \<Rightarrow> (Panic p, [], ps)
      | Ok pbMail \<Rightarrow>
        (case authorization (grpcAuthMode cfg) w now ps of
           (Err e, ps') \<Rightarrow> (Err e, [], ps')
         | (Panic p, ps') \<Rightarrow> (Panic p, [], ps')
         | (Ok authz, ps') \<Rightarrow>
           if LoggingOnly cfg then
             (case GetInternetMessageFormat rb m True of
                Err es \<Rightarrow> Err (Not_Renderable es) | Panic p \<Rightarrow> Panic p | Ok _ \<Rightarrow> Ok (), [], ps')
           else (case (if SMTPEnsureSender cfg then ensure_sender client authz pbMail m else Ok ()) of
               Err e \<Rightarrow> (Err e, [Call_DryRun authz pbMail], ps')
             | Panic p \<Rightarrow> (Panic p, [Call_DryRun authz pbMail], ps')
             | Ok _ \<Rightarrow> (deliver_mail cfg client authz pbMail,
                 (if SMTPEnsureSender cfg then [Call_DryRun authz pbMail] else [])
                   @ [deliver_call cfg authz pbMail], ps'))))"

definition authHandler ::
    "SMTPProxyConfig \<Rightarrow> token_world \<Rightarrow> int64 \<Rightarrow> string \<Rightarrow> string \<Rightarrow> (provider_error, OidcTokenProvider) outcome" where
  "authHandler cfg w now username password =
     (case OidcConfig cfg of None \<Rightarrow> Panic Nil_Deref
      | Some oc \<Rightarrow>
        (let tp = NewOidcTokenProvider (oidcTokenEndpoint oc) username password (TokenProviderOptions cfg)
         in (case GetAccessToken w now tp of
               (Err e, _) \<Rightarrow> Err e | (Panic p, _) \<Rightarrow> Panic p | (Ok _, tp') \<Rightarrow> Ok tp')))"

text \<open>\<open>GetSMTPServer\<close>: the proxy's own provider, and whether the server asks for authentication.\<close>

definition GetSMTPServer ::
    "SMTPProxyConfig \<Rightarrow> token_world \<Rightarrow> int64 \<Rightarrow> (provider_error, OidcTokenProvider option \<times> bool) outcome" where
  "GetSMTPServer cfg w now =
     obind (if grpcAuthMode cfg = OIDCInject then
         (case OidcConfig cfg of None \<Rightarrow> Panic Nil_Deref
          | Some oc \<Rightarrow>
            (case GetAccessToken w now (NewOidcTokenProvider (oidcTokenEndpoint oc) (oidcClientID oc)
                (oidcClientSecret oc) (TokenProviderOptions cfg)) of
               (Err e, _) \<Rightarrow> Err e | (Panic p, _) \<Rightarrow> Panic p | (Ok _, tp) \<Rightarrow> Ok (Some tp)))
       else Ok None)
     (\<lambda>tp. Ok (tp, smtpAuthMode cfg = SMTPAuthPlain))"

section \<open>What the handlers guarantee\<close>

text \<open>Every call carries the same request and the same authorization; a mail is delivered at most
  once, as the last call, and success means that the delivering call succeeded.\<close>

lemma mailHandler_calls:
  assumes "mailHandler cfg client w now rb ps m = (res, calls, ps')"
  shows "calls = [] \<or> (\<exists>authz req. buildGrpcRequestFromMail m = Ok req
      \<and> fst (authorization (grpcAuthMode cfg) w now ps) = Ok authz \<and> \<not> LoggingOnly cfg
      \<and> (calls = [Call_DryRun authz req] \<and> SMTPEnsureSender cfg \<and> res \<noteq> Ok ()
         \<or> calls = (if SMTPEnsureSender cfg then [Call_DryRun authz req] else []) @ [deliver_call cfg authz req]
           \<and> res = deliver_mail cfg client authz req
           \<and> (SMTPEnsureSender cfg \<longrightarrow> ensure_sender client authz req m = Ok ())))"
  using assms
  by (cases "authorization (grpcAuthMode cfg) w now ps")
     (auto simp: mailHandler_def split: outcome.splits if_splits)

text \<open>The handler does not panic over a valid mail, where the calls of the client do not and the
  proxy's own provider is there if it is used.\<close>

definition client_answers :: "mail_client \<Rightarrow> bool" where
  "client_answers client \<longleftrightarrow> (\<forall>a r. \<not> panics (cl_SendDryRun client a r) \<and> \<not> panics (cl_QueueMail client a r)
     \<and> \<not> panics (cl_SendMail client a r))"

lemma transform_no_panic: "\<not> panics (transformPartToProto p)" and transform_child_no_panic: "\<not> panics (transformChildToProto c)"
proof (induction p and c rule: part_transferable_child_transferable.induct)
  case (4 cs)
  then have "\<not> panics (traverse transformChildToProto cs)" by (intro traverse_no_panic) (simp add: list_all_iff)
  then show ?case by simp
qed simp_all

lemma build_no_panic: "\<not> panics (buildGrpcRequestFromMail m)"
  by (cases "Body m") (simp_all add: buildGrpcRequestFromMail_def transform_child_no_panic traverse_no_panic)

lemma bearer_of_token:
  "fst (GetAccessToken w now tp) = Ok t \<Longrightarrow> \<not> panics (bearer t)"
  using GetAccessToken_given [of w now tp t] by (auto simp: bearer_def split: option.split)

lemma authorization_no_panic:
  assumes "mode = OIDCInject \<longrightarrow> injected ps \<noteq> None"
  shows "\<not> panics (fst (authorization mode w now ps))"
proof -
  have "\<not> panics (fst (case GetAccessToken w now tp of (Err e, tp') \<Rightarrow> (Err (Token_Failed e), f tp')
      | (Panic p, tp') \<Rightarrow> (Panic p, f tp') | (Ok t, tp') \<Rightarrow> (bearer t, f tp')))" for tp and f :: "OidcTokenProvider \<Rightarrow> providers"
    using GetAccessToken_no_panic [of w now tp] bearer_of_token [of w now tp]
    by (auto split: prod.split outcome.split)
  with assms show ?thesis by (auto simp: authorization_def split: GrpcAuthMode.split option.split)
qed

lemma mailHandler_no_panic:
  assumes "ValidateMail m = Ok ()" and "is_multipart (Body m) \<Longrightarrow> ContentType m \<noteq> []" and "client_answers client"
    and "grpcAuthMode cfg = OIDCInject \<longrightarrow> injected ps \<noteq> None"
  shows "\<not> panics (fst (mailHandler cfg client w now rb ps m))"
proof -
  have "\<not> panics (GetInternetMessageFormat rb m True)" using assms(1,2) by (rule GetInternetMessageFormat_no_panic)
  moreover have "\<not> panics (ensure_sender client a r m)" "\<not> panics (deliver_mail cfg client a r)" for a r
    using assms(3) by (auto simp: ensure_sender_def deliver_mail_def client_answers_def panics_iff split: outcome.split option.split)
  ultimately show ?thesis
    using build_no_panic [of m] authorization_no_panic [OF assms(4), of w now]
    by (auto simp: mailHandler_def panics_iff split: outcome.split prod.split)
qed

lemma GetAccessToken_empty:
  "no_credentials tp \<Longrightarrow> GetAccessToken w now tp = (Ok (Some []), tp)"
  by (simp add: GetAccessToken_def)

lemma authHandler_empty_credentials:
  assumes "OidcConfig cfg = Some oc" and "TokenProviderOptions cfg = []"
  shows "\<exists>tp. authHandler cfg w now [] [] = Ok tp"
  using assms by (simp add: authHandler_def NewOidcTokenProvider_def GetAccessToken_empty no_credentials_def)

end
