(* ===== verification/Smtp_Server.thy ===== *)
theory Smtp_Server
  imports Mailer_Mail
begin

text \<open>
  \<^verbatim>\<open>pkg/smtpserver/server.go\<close>: the SMTP session and the reading of the message that a client
  sends. The large parsers of the library (the message reader, address lists, encoded words,
  dates, MIME multiparts, charsets) are the fields of \<open>mail_lib\<close>; a MIME header is the list of
  its keys with their values, in the order in which the code's \<open>range\<close> meets them.
\<close>

section \<open>What the library reads\<close>

type_synonym mime_map = "(string \<times> string list) list"

record mail_lib =
  lib_ReadMessage :: "bytes \<Rightarrow> (mime_map \<times> bytes) option"
  lib_ParseAddressList :: "string \<Rightarrow> address list option"
  lib_DecodeHeader :: "string \<Rightarrow> string option"
  lib_ParseDate :: "string \<Rightarrow> gotime option"
  lib_parts :: "string \<Rightarrow> bytes \<Rightarrow> (mime_map \<times> bytes) list \<times> bool"
     \<comment> \<open>the parts up to the end (\<open>True\<close>) or up to an error\<close>
  lib_qp_read :: "bytes \<Rightarrow> bytes option"
  lib_charset :: "string \<Rightarrow> bytes \<Rightarrow> bytes option"
  lib_ToLower :: "string \<Rightarrow> string"
     \<comment> \<open>\<open>strings.ToLower\<close> with the whole of the Unicode tables\<close>

text \<open>\<open>Header.Get\<close>: the first value under the canonical key, or the empty string.\<close>

definition header_get :: "mime_map \<Rightarrow> string \<Rightarrow> string" where
  "header_get h k = (case map_of h (canonical_key k) of Some (v # _) \<Rightarrow> v | _ \<Rightarrow> [])"

datatype data_error =
    Auth_Required
  | Unreadable_Message
  | Header_Not_Present string | Bad_Address_List string
  | From_Count nat | From_Mismatch
  | To_Not_Recipient | Cc_Not_Recipient
  | Bad_Message_Id string | Bad_Date string
  | Encoded_Multipart string | No_Boundary | Bad_Part | Unreadable_Part
  | Beyond_Fuel      \<comment> \<open>no error of the code: a nesting deeper than the body is long\<close>
  | Not_Valid "mail_error list"
  | Handler_Failed

definition getAddressList :: "mail_lib \<Rightarrow> mime_map \<Rightarrow> string \<Rightarrow> (data_error, address list) outcome" where
  "getAddressList lib h headername =
     (let hdr = header_get h headername in
      if hdr = [] then Err (Header_Not_Present headername)
      else (case lib_ParseAddressList lib hdr of
          None \<Rightarrow> Err (Bad_Address_List headername)
        | Some l \<Rightarrow> if list_ex (\<lambda>a. Address a = []) l then Err (Bad_Address_List headername) else Ok l))"

fun is_not_present :: "('a, 'b) outcome \<Rightarrow> ('a \<Rightarrow> bool) \<Rightarrow> bool" where
  "is_not_present (Err e) p = p e"
| "is_not_present _ p = False"

definition not_present :: "data_error \<Rightarrow> bool" where
  "not_present e = (case e of Header_Not_Present _ \<Rightarrow> True | _ \<Rightarrow> False)"

definition decodeRFC2047 :: "mail_lib \<Rightarrow> string \<Rightarrow> string" where
  "decodeRFC2047 lib s = (case lib_DecodeHeader lib s of Some d \<Rightarrow> d | None \<Rightarrow> s)"

definition normalizeCTE :: "string \<Rightarrow> string" where
  "normalizeCTE cte = to_lower (trim_space cte)"

text \<open>What reading all of the decoder gives.\<close>

definition decodeTransferEncoding :: "mail_lib \<Rightarrow> string \<Rightarrow> bytes \<Rightarrow> bytes option" where
  "decodeTransferEncoding lib cte body =
     (if normalizeCTE cte = ''quoted-printable'' then lib_qp_read lib body
      else if normalizeCTE cte = ''base64'' then b64_decode body
      else Some body)"

definition decodeText :: "mail_lib \<Rightarrow> bytes \<Rightarrow> string \<Rightarrow> string" where
  "decodeText lib raw charset =
     (let charset = normalizeCTE charset in
      if charset = [] \<or> charset = ''us-ascii'' \<or> charset = ''ascii'' \<or> charset = ''utf-8'' then raw
      else (case lib_charset lib charset raw of Some d \<Rightarrow> d | None \<Rightarrow> raw))"

section \<open>Parts\<close>

text \<open>
  \<open>parsePart\<close> and \<open>parseChild\<close>. The recursion goes from a multipart body to its parts; the fuel
  bounds the nesting, and \<open>None\<close> is a nesting beyond it.
\<close>

definition child_headers :: "mail_lib \<Rightarrow> mime_map \<Rightarrow> header list" where
  "child_headers lib h = concat (map (\<lambda>(k, vs).
     if canonical_key k = ''Content-Type'' \<or> canonical_key k = ''Content-Transfer-Encoding'' then []
     else map (\<lambda>v. \<lparr>Key = k, Value = decodeRFC2047 lib v\<rparr>) vs) h)"

definition part_type :: "mime_map \<Rightarrow> string \<times> params" where
  "part_type h = (case parse_media_type (header_get h ''Content-Type'') of
      (mt, Some ps, None) \<Rightarrow> (mt, ps)
    | _ \<Rightarrow> (''text/plain'', [(''charset'', ''us-ascii'')]))"

definition multipart_cte_ok :: "mime_map \<Rightarrow> bool" where
  "multipart_cte_ok h = (let cte = to_lower (header_get h ''Content-Transfer-Encoding'') in
     cte = [] \<or> cte = ''7bit'' \<or> cte = ''8bit'' \<or> cte = ''binary'')"

definition get_param :: "params \<Rightarrow> string \<Rightarrow> string" where
  "get_param ps k = (case map_of ps k of Some v \<Rightarrow> v | None \<Rightarrow> [])"

definition leaf_part :: "mail_lib \<Rightarrow> string \<Rightarrow> params \<Rightarrow> bytes \<Rightarrow> part" where
  "leaf_part lib mt ps raw =
     (if has_prefix mt ''text/'' \<and> valid_utf8 (decodeText lib raw (get_param ps ''charset''))
      then Text (replace_all (decodeText lib raw (get_param ps ''charset'')) CRLF [LF])
      else Binary raw)"

fun sequence_parts :: "('e, 'a) outcome option list \<Rightarrow> ('e, 'a list) outcome option" where
  "sequence_parts [] = Some (Ok [])"
| "sequence_parts (None # xs) = None"
| "sequence_parts (Some (Ok x) # xs) = map_option (\<lambda>r. obind r (\<lambda>ys. Ok (x # ys))) (sequence_parts xs)"
| "sequence_parts (Some (Err e) # xs) = Some (Err e)"
| "sequence_parts (Some (Panic p) # xs) = Some (Panic p)"

fun parsePart :: "nat \<Rightarrow> mail_lib \<Rightarrow> mime_map \<Rightarrow> bytes \<Rightarrow> (data_error, part) outcome option" where
  "parsePart n lib h body =
     (let (mt, ps) = part_type h in
      if has_prefix mt ''multipart/'' then
        if \<not> multipart_cte_ok h then Some (Err (Encoded_Multipart mt))
        else if get_param ps ''boundary'' = [] then Some (Err No_Boundary)
        else (case n of 0 \<Rightarrow> None
          | Suc n \<Rightarrow>
            (let (parts, complete) = lib_parts lib (get_param ps ''boundary'') body in
             map_option (\<lambda>r. obind r (\<lambda>cs. if complete then Ok (Multipart cs) else Err Bad_Part))
               (sequence_parts (map (\<lambda>(h', b).
                  map_option (\<lambda>r. obind r (\<lambda>p. Ok (Child (header_get h' ''Content-Type'') (child_headers lib h') p)))
                    (parsePart n lib h' b)) parts))))
      else (case decodeTransferEncoding lib (header_get h ''Content-Transfer-Encoding'') body of
          None \<Rightarrow> Some (Err Unreadable_Part)
        | Some raw \<Rightarrow> Some (Ok (leaf_part lib mt ps raw))))"

declare parsePart.simps [simp del]

text \<open>The parts of a multipart lie in its body, so each is shorter than it; then the length of
  the body is fuel enough.\<close>

definition parts_shrink :: "mail_lib \<Rightarrow> bool" where
  "parts_shrink lib \<longleftrightarrow> (\<forall>b body p. p \<in> set (fst (lib_parts lib b body)) \<longrightarrow> length (snd p) < length body)"

lemma sequence_parts_Some: "None \<notin> set xs \<Longrightarrow> \<exists>r. sequence_parts xs = Some r"
  by (induction xs rule: sequence_parts.induct) auto

lemma parsePart_enough_fuel:
  "parts_shrink lib \<Longrightarrow> length body < n \<Longrightarrow> \<exists>r. parsePart n lib h body = Some r"
proof (induction n arbitrary: h body)
  case (Suc n)
  obtain mt ps where pt: "part_type h = (mt, ps)" by fastforce
  obtain parts complete where lp: "lib_parts lib (get_param ps ''boundary'') body = (parts, complete)"
    by fastforce
  have sub: "\<exists>r. parsePart n lib h' b = Some r" if "(h', b) \<in> set parts" for h' b
  proof -
    have "length b < length body"
      using Suc.prems(1) lp that unfolding parts_shrink_def by (metis fst_conv snd_conv)
    then show ?thesis using Suc by simp
  qed
  have "None \<notin> set (map (\<lambda>(h', b).
      map_option (\<lambda>r. obind r (\<lambda>p. Ok (Child (header_get h' ''Content-Type'') (child_headers lib h') p)))
        (parsePart n lib h' b)) parts)"
    by (auto dest!: sub)
  from sequence_parts_Some [OF this] pt lp show ?case
    by (auto simp: parsePart.simps [of "Suc n"] split: option.split)
qed simp

text \<open>More fuel does not change a result.\<close>

lemma sequence_parts_mono:
  "list_all2 (\<lambda>x y. \<forall>r. x = Some r \<longrightarrow> y = Some r) xs ys \<Longrightarrow> sequence_parts xs = Some r \<Longrightarrow> sequence_parts ys = Some r"
proof (induction xs ys arbitrary: r rule: list_all2_induct)
  case (Cons x xs y ys)
  show ?case
  proof (cases x)
    case (Some o')
    with Cons show ?thesis by (cases o') auto
  qed (use Cons in simp)
qed simp

lemma parsePart_Suc: "parsePart n lib h body = Some r \<Longrightarrow> parsePart (Suc n) lib h body = Some r"
proof (induction n arbitrary: h body r)
  case 0
  then show ?case
    by (auto simp: parsePart.simps [of 0] parsePart.simps [of "Suc 0"] split: prod.splits if_splits option.splits)
next
  case (Suc n)
  define sub where "sub k = (\<lambda>(h', b). map_option (\<lambda>r. obind r (\<lambda>p.
      Ok (Child (header_get h' ''Content-Type'') (child_headers lib h') p))) (parsePart k lib h' b))" for k
  have unfold: "parsePart (Suc k) lib h body =
    (let (mt, ps) = part_type h in
      if has_prefix mt ''multipart/'' then
        if \<not> multipart_cte_ok h then Some (Err (Encoded_Multipart mt))
        else if get_param ps ''boundary'' = [] then Some (Err No_Boundary)
        else (let (parts, complete) = lib_parts lib (get_param ps ''boundary'') body in
             map_option (\<lambda>r. obind r (\<lambda>cs. if complete then Ok (Multipart cs) else Err Bad_Part))
               (sequence_parts (map (sub k) parts)))
      else (case decodeTransferEncoding lib (header_get h ''Content-Transfer-Encoding'') body of
          None \<Rightarrow> Some (Err Unreadable_Part)
        | Some raw \<Rightarrow> Some (Ok (leaf_part lib mt ps raw))))" for k
    unfolding parsePart.simps [of "Suc k"] sub_def nat.case by (rule refl)
  have step: "sub n x = Some q \<Longrightarrow> sub (Suc n) x = Some q" for x q
    using Suc.IH by (auto simp: sub_def split: prod.splits)
  have "list_all2 (\<lambda>x y. \<forall>r. x = Some r \<longrightarrow> y = Some r) (map (sub n) parts) (map (sub (Suc n)) parts)" for parts
    using step by (simp add: list_all2_conv_all_nth)
  from sequence_parts_mono [OF this] Suc.prems show ?case
    unfolding unfold by (auto simp: Let_def split: prod.splits if_splits)
qed

lemma parsePart_mono: "n \<le> k \<Longrightarrow> parsePart n lib h body = Some r \<Longrightarrow> parsePart k lib h body = Some r"
  by (induction k rule: dec_induct) (auto intro: parsePart_Suc)

section \<open>The session\<close>

text \<open>The authentication handler gives the context of the authenticated session, here a value
  of type \<open>'c\<close>. The handler of messages is run with the context; what the context refers to may
  change under it (a provider keeps the token that it fetched), so the handler gives it back as
  it leaves it.\<close>

type_synonym 'c message_handler = "'c \<Rightarrow> mail \<Rightarrow> (unit, unit) outcome \<times> 'c"
type_synonym 'c auth_handler = "'c \<Rightarrow> string \<Rightarrow> string \<Rightarrow> (unit, 'c) outcome"

record 'c backend =
  handleMessage :: "'c message_handler"
  handleAuth :: "'c auth_handler option"
  requireAuth :: bool

definition NewBackend :: "'c message_handler \<Rightarrow> ('c backend \<Rightarrow> 'c backend) list \<Rightarrow> 'c backend" where
  "NewBackend hm options =
     fold (\<lambda>o' b. o' b) options \<lparr>handleMessage = hm, handleAuth = None, requireAuth = False\<rparr>"

definition WithAuthHandler :: "'c auth_handler \<Rightarrow> 'c backend \<Rightarrow> 'c backend" where
  "WithAuthHandler ha b = b\<lparr>requireAuth := True, handleAuth := Some ha\<rparr>"

record 'c session =
  sfrom :: string
  recipients :: "string list"
  sctx :: 'c
  rootCtx :: 'c
  isAuthenticated :: bool
  hadError :: bool

definition Reset :: "'c session \<Rightarrow> 'c session" where
  "Reset s = s\<lparr>sfrom := [], recipients := [], sctx := rootCtx s, isAuthenticated := False\<rparr>"

definition NewSession :: "'c \<Rightarrow> 'c session" where
  "NewSession root = Reset \<lparr>sfrom = [], recipients = [], sctx = root, rootCtx = root,
     isAuthenticated = False, hadError = False\<rparr>"

datatype session_error = Data_Error data_error | Auth_Failed | Auth_Not_Required | No_Mechanism string

text \<open>The callback of the PLAIN server that \<open>Auth\<close> makes, and \<open>AuthPlain\<close>.\<close>

definition run_auth ::
    "'c backend \<Rightarrow> 'c session \<Rightarrow> string \<Rightarrow> string \<Rightarrow> (session_error, unit) outcome \<times> 'c session" where
  "run_auth b s username password =
     (case handleAuth b of None \<Rightarrow> (Panic Nil_Deref, s)
      | Some ha \<Rightarrow> (case ha (sctx s) username password of
            Err _ \<Rightarrow> (Err Auth_Failed, s)
          | Panic p \<Rightarrow> (Panic p, s)
          | Ok c \<Rightarrow> (Ok (), s\<lparr>sctx := c, isAuthenticated := True\<rparr>)))"

definition Auth ::
    "'c backend \<Rightarrow> 'c session \<Rightarrow> string \<Rightarrow> string \<Rightarrow> string \<Rightarrow> (session_error, unit) outcome \<times> 'c session" where
  "Auth b s mech username password =
     (if mech = ''PLAIN'' then run_auth b s username password else (Err (No_Mechanism mech), s))"

text \<open>The mechanisms that are announced are the ones that \<open>Auth\<close> knows.\<close>

definition AuthMechanisms :: "string list" where
  "AuthMechanisms = [''PLAIN'']"

lemma AuthMechanisms_known:
  "mech \<in> set AuthMechanisms \<longleftrightarrow> fst (Auth b s mech username password) \<noteq> Err (No_Mechanism mech)"
  by (auto simp: AuthMechanisms_def Auth_def run_auth_def split: option.split outcome.split)

definition AuthPlain ::
    "'c backend \<Rightarrow> 'c session \<Rightarrow> string \<Rightarrow> string \<Rightarrow> (session_error, unit) outcome \<times> 'c session" where
  "AuthPlain b s username password =
     (if \<not> requireAuth b then (Err Auth_Not_Required, s) else run_auth b s username password)"

definition auth_missing :: "'c backend \<Rightarrow> 'c session \<Rightarrow> bool" where
  "auth_missing b s \<longleftrightarrow> requireAuth b \<and> \<not> isAuthenticated s"

definition Mail :: "'c backend \<Rightarrow> 'c session \<Rightarrow> string \<Rightarrow> (session_error, unit) outcome \<times> 'c session" where
  "Mail b s from = (if auth_missing b s then (Err (Data_Error Auth_Required), s)
     else (Ok (), s\<lparr>sfrom := from\<rparr>))"

definition Rcpt :: "'c backend \<Rightarrow> 'c session \<Rightarrow> string \<Rightarrow> (session_error, unit) outcome \<times> 'c session" where
  "Rcpt b s to = (if auth_missing b s then (Err (Data_Error Auth_Required), s)
     else (Ok (), s\<lparr>recipients := recipients s @ [to]\<rparr>))"

text \<open>\<open>Logout\<close> ends the connection's span, if there is one: the status that the span gets.\<close>

datatype span_status = Status_Error string | Status_Ok string

definition Logout :: "bool \<Rightarrow> 'c session \<Rightarrow> span_status option" where
  "Logout has_span s =
     (if has_span then Some (if hadError s then Status_Error ''session had at least one failed message''
        else Status_Ok ''session closed'')
      else None)"

section \<open>DATA\<close>

text \<open>The check that one of the addresses is an SMTP recipient.\<close>

definition some_recipient :: "address list \<Rightarrow> string list \<Rightarrow> bool" where
  "some_recipient as rcpts \<longleftrightarrow> list_ex (\<lambda>a. list_ex (\<lambda>r. Address a = r) rcpts) as"

text \<open>Reply-To, and To: the error of parsing To is dropped, and the test whether To is absent
  looks at the error that Reply-To left, so the recipients in To are only checked when there
  is a Reply-To.\<close>

definition reply_to_list :: "mail_lib \<Rightarrow> mime_map \<Rightarrow> (data_error, address list) outcome" where
  "reply_to_list lib h = (case getAddressList lib h ''Reply-To'' of
      Ok as \<Rightarrow> Ok as | Panic p \<Rightarrow> Panic p
    | Err e \<Rightarrow> if not_present e then Ok [] else Err e)"

definition or_nil :: "('e, 'a list) outcome \<Rightarrow> 'a list" where
  "or_nil r = (case r of Ok xs \<Rightarrow> xs | _ \<Rightarrow> [])"

definition to_list :: "mail_lib \<Rightarrow> mime_map \<Rightarrow> string list \<Rightarrow> (data_error, address list) outcome" where
  "to_list lib h rcpts =
     (let to = or_nil (getAddressList lib h ''To'') in
      if is_not_present (getAddressList lib h ''Reply-To'') not_present then Ok to
      else if some_recipient to rcpts then Ok to else Err To_Not_Recipient)"

definition cc_list :: "mail_lib \<Rightarrow> mime_map \<Rightarrow> string list \<Rightarrow> (data_error, address list) outcome" where
  "cc_list lib h rcpts = (case getAddressList lib h ''Cc'' of
      Panic p \<Rightarrow> Panic p
    | Err e \<Rightarrow> if not_present e then Ok [] else Err e
    | Ok cc \<Rightarrow> if some_recipient cc rcpts then Ok cc else Err Cc_Not_Recipient)"

text \<open>\<open>messageId[1 : len(messageId)-1]\<close>, whose bounds cross for a single byte.\<close>

definition message_id :: "string \<Rightarrow> (data_error, string) outcome" where
  "message_id i = (if i = [] then Ok []
     else if hd i \<noteq> CHR ''<'' \<and> last i \<noteq> CHR ''>'' then Err (Bad_Message_Id i)
     else if length i < 2 then Panic Slice_Bounds
     else Ok (butlast (tl i)))"

text \<open>The recipients that neither To nor Cc names, all compared as \<open>strings.ToLower\<close> gives them.\<close>

definition bcc_list :: "mail_lib \<Rightarrow> address list \<Rightarrow> address list \<Rightarrow> string list \<Rightarrow> address list" where
  "bcc_list lib to cc rcpts =
     (let seen = map (\<lambda>a. lib_ToLower lib (Address a)) (to @ cc)
      in map (\<lambda>r. \<lparr>Name = [], Address = r\<rparr>) (filter (\<lambda>r. lib_ToLower lib r \<notin> set seen) rcpts))"

definition skipped_header :: "string \<Rightarrow> string list \<Rightarrow> bool" where
  "skipped_header key values \<longleftrightarrow>
     to_lower key \<in> {''from'', ''reply-to'', ''to'', ''cc'', ''subject'', ''message-id'', ''content-type'',
       ''date'', ''content-transfer-encoding''}
     \<or> (to_lower key = ''mime-version'' \<and> list_all (\<lambda>v. v = ''1.0'') values)"

text \<open>The extra headers that \<open>Data\<close> collects (and does not put into the mail).\<close>

definition extraHeaders :: "mail_lib \<Rightarrow> mime_map \<Rightarrow> mime_map" where
  "extraHeaders lib h = map (\<lambda>(k, vs). (k, map (decodeRFC2047 lib) vs))
     (filter (\<lambda>(k, vs). \<not> skipped_header k vs) h)"

definition date_of :: "mail_lib \<Rightarrow> mime_map \<Rightarrow> (data_error, gotime) outcome" where
  "date_of lib h = (let d = header_get h ''Date'' in
     if d = [] then Ok \<lparr>unix = - 62135596800, zone = 0\<rparr>
     else (case lib_ParseDate lib d of None \<Rightarrow> Err (Bad_Date d) | Some t \<Rightarrow> Ok t))"

definition body_of :: "mail_lib \<Rightarrow> mime_map \<Rightarrow> bytes \<Rightarrow> (data_error, part) outcome" where
  "body_of lib h body =
     (if header_get h ''Mime-Version'' = [] then Ok (Binary body)
      else (case parsePart (Suc (length body)) lib h body of Some r \<Rightarrow> r | None \<Rightarrow> Err Beyond_Fuel))"

text \<open>That fuel is enough: where parts lie in their body, what is read is what the code reads.\<close>

lemma body_of_reads:
  assumes "parts_shrink lib" and "header_get h ''Mime-Version'' \<noteq> []" and "length body < n"
  shows "parsePart n lib h body = Some (body_of lib h body)"
proof -
  obtain r where r: "parsePart (Suc (length body)) lib h body = Some r"
    using parsePart_enough_fuel [OF assms(1), of body "Suc (length body)" h] by auto
  with assms(2,3) parsePart_mono [of "Suc (length body)" n lib h body r] show ?thesis by (simp add: body_of_def)
qed

definition parse_data :: "mail_lib \<Rightarrow> string \<Rightarrow> string list \<Rightarrow> bytes \<Rightarrow> (data_error, mail) outcome" where
  "parse_data lib from rcpts r =
     (case lib_ReadMessage lib r of None \<Rightarrow> Err Unreadable_Message
      | Some (h, body) \<Rightarrow>
        obind (getAddressList lib h ''From'') (\<lambda>fromList.
        if length fromList \<noteq> 1 then Err (From_Count (length fromList))
        else if Address (hd fromList) \<noteq> from then Err From_Mismatch
        else
        obind (reply_to_list lib h) (\<lambda>replyTo.
        obind (to_list lib h rcpts) (\<lambda>to.
        obind (cc_list lib h rcpts) (\<lambda>cc.
        obind (message_id (header_get h ''Message-ID'')) (\<lambda>mid.
        obind (date_of lib h) (\<lambda>date.
        obind (body_of lib h body) (\<lambda>p.
        (let m = \<lparr>From = hd fromList, ReplyTo = replyTo, To = to, Cc = cc, Bcc = bcc_list lib to cc rcpts,
               Subject = decodeRFC2047 lib (header_get h ''Subject''), Date = date, MessageID = mid,
               ContentType = header_get h ''Content-Type'', Headers = [], Body = p\<rparr>
         in case ValidateMail m of Err es \<Rightarrow> Err (Not_Valid es) | Panic x \<Rightarrow> Panic x | Ok _ \<Rightarrow> Ok m))))))))) "

text \<open>What the deferred function of \<open>Data\<close> looks at on the way out of a panic is the error that the last
  check left: where the Message-ID panics that is the error of reading Cc, nil where there is a
  Cc.\<close>

definition nil_error_at_panic :: "mail_lib \<Rightarrow> bytes \<Rightarrow> bool" where
  "nil_error_at_panic lib r = (case lib_ReadMessage lib r of None \<Rightarrow> False
     | Some (h, body) \<Rightarrow> (case getAddressList lib h ''Cc'' of Ok _ \<Rightarrow> True | _ \<Rightarrow> False))"

text \<open>\<open>Data\<close>: the outcome, the mail handed to the handler with the session's context, and the
  session after it. A panic of the handler finds the error of the last check, nil.\<close>

definition Data ::
    "mail_lib \<Rightarrow> 'c backend \<Rightarrow> 'c session \<Rightarrow> bytes
       \<Rightarrow> (session_error, unit) outcome \<times> ('c \<times> mail) list \<times> 'c session" where
  "Data lib b s r =
     (if auth_missing b s then (Err (Data_Error Auth_Required), [], s)
      else (case parse_data lib (sfrom s) (recipients s) r of
          Err e \<Rightarrow> (Err (Data_Error e), [], s\<lparr>hadError := True\<rparr>)
        | Panic p \<Rightarrow> (Panic p, [], s\<lparr>hadError := (hadError s \<or> \<not> nil_error_at_panic lib r)\<rparr>)
        | Ok m \<Rightarrow> (case handleMessage b (sctx s) m of
            (Ok _, c) \<Rightarrow> (Ok (), [(sctx s, m)], s\<lparr>sctx := c\<rparr>)
          | (Err _, c) \<Rightarrow> (Err (Data_Error Handler_Failed), [(sctx s, m)], s\<lparr>sctx := c, hadError := True\<rparr>)
          | (Panic p, c) \<Rightarrow> (Panic p, [(sctx s, m)], s\<lparr>sctx := c\<rparr>))))"

section \<open>What a mail taken over SMTP is\<close>

lemma validated_mail_Ok:
  "(case r of Err es \<Rightarrow> Err (Not_Valid es) | Panic x \<Rightarrow> Panic x | Ok _ \<Rightarrow> Ok m) = Ok m' \<longleftrightarrow> r = Ok () \<and> m' = m"
  by (cases r) auto

lemma parse_data_Ok:
  assumes "parse_data lib sender rcpts r = Ok m"
  shows "ValidateMail m = Ok ()" and "Address (From m) = sender" and "Headers m = []"
    and "Bcc m = bcc_list lib (To m) (Cc m) rcpts"
  using assms
  by (auto simp: parse_data_def Let_def obind_eq_Ok validated_mail_Ok split: option.splits if_splits)

text \<open>A message with parts has a content type.\<close>

lemma part_type_empty: "header_get h ''Content-Type'' = [] \<Longrightarrow> fst (part_type h) = ''text/plain''"
  by (simp add: part_type_def) code_simp

lemma parsePart_multipart:
  assumes "parsePart n lib h body = Some (Ok p)" and "is_multipart p"
  shows "header_get h ''Content-Type'' \<noteq> []"
proof
  assume e: "header_get h ''Content-Type'' = []"
  obtain mt ps where pt: "part_type h = (mt, ps)" by fastforce
  with part_type_empty [OF e] have "\<not> has_prefix mt ''multipart/''" by simp
  with assms pt show False by (auto simp: parsePart.simps [of n] leaf_part_def split: option.splits if_splits)
qed

lemma parse_data_multipart:
  assumes "parse_data lib sender rcpts r = Ok m" and "is_multipart (Body m)"
  shows "ContentType m \<noteq> []"
  using assms parsePart_multipart
  by (auto simp: parse_data_def Let_def obind_eq_Ok validated_mail_Ok body_of_def split: option.splits if_splits)

text \<open>Every SMTP recipient is a recipient of the mail, and a blind copy goes to SMTP recipients
  only.\<close>

lemma bcc_list_covers:
  assumes "r \<in> set rcpts"
  shows "\<exists>a \<in> set (to @ cc @ bcc_list lib to cc rcpts). lib_ToLower lib (Address a) = lib_ToLower lib r"
proof (cases "lib_ToLower lib r \<in> set (map (\<lambda>a. lib_ToLower lib (Address a)) (to @ cc))")
  case True
  then have "\<exists>a \<in> set (to @ cc). lib_ToLower lib (Address a) = lib_ToLower lib r" by (auto dest: sym)
  then show ?thesis by auto
next
  case False
  with assms have "\<lparr>Name = [], Address = r\<rparr> \<in> set (bcc_list lib to cc rcpts)" by (simp add: bcc_list_def)
  then show ?thesis by (intro bexI [of _ "\<lparr>Name = [], Address = r\<rparr>"]) auto
qed

lemma bcc_list_recipients: "a \<in> set (bcc_list lib to cc rcpts) \<Longrightarrow> Address a \<in> set rcpts"
  by (auto simp: bcc_list_def)

lemma bcc_list_disjoint:
  "a \<in> set (bcc_list lib to cc rcpts) \<Longrightarrow> b \<in> set (to @ cc)
    \<Longrightarrow> lib_ToLower lib (Address a) \<noteq> lib_ToLower lib (Address b)"
  by (auto simp: bcc_list_def)

lemma message_id_panics: "panics (message_id i) \<longleftrightarrow> length i = 1 \<and> (hd i = CHR ''<'' \<or> hd i = CHR ''>'')"
  by (cases i) (auto simp: message_id_def)

section \<open>When a message panics\<close>

lemma sequence_parts_cases:
  "sequence_parts xs = Some (Ok ys) \<Longrightarrow> xs = map (\<lambda>y. Some (Ok y)) ys"
  by (induction xs arbitrary: ys rule: sequence_parts.induct) (auto simp: obind_eq_Ok)

lemma sequence_parts_panics: "sequence_parts xs = Some r \<Longrightarrow> panics r \<Longrightarrow> \<exists>q. Some q \<in> set xs \<and> panics q"
  by (induction xs arbitrary: r rule: sequence_parts.induct) auto

text \<open>The parts that the server reads are all there, and reading them does not panic.\<close>

lemma parsePart_complete:
  "parsePart n lib h body = Some r \<Longrightarrow> \<not> panics r \<and> (\<forall>p. r = Ok p \<longrightarrow> complete p)"
proof (induction n arbitrary: h body r)
  case 0
  then show ?case
    by (auto simp: parsePart.simps [of 0] leaf_part_def split: prod.splits if_splits option.splits)
next
  case (Suc n)
  define sub where "sub = (\<lambda>(h', b). map_option (\<lambda>r. obind r (\<lambda>p.
      Ok (Child (header_get h' ''Content-Type'') (child_headers lib h') p))) (parsePart n lib h' b))"
  have sub: "\<not> panics q \<and> (\<forall>c. q = Ok c \<longrightarrow> complete_child c)" if "sub x = Some q" for x q
    using Suc.IH that by (cases x) (fastforce simp: sub_def obind_eq_Ok panics_obind)
  have seq: "\<not> panics q \<and> (\<forall>cs. q = Ok cs \<longrightarrow> list_all complete_child cs)"
    if s: "sequence_parts (map sub parts) = Some q" for parts q
  proof -
    have "list_all complete_child cs" if "q = Ok cs" for cs
    proof -
      from sequence_parts_cases s that have "map sub parts = map (\<lambda>y. Some (Ok y)) cs" by blast
      then have "\<exists>x. sub x = Some (Ok c)" if "c \<in> set cs" for c
        using that by (metis (no_types, lifting) ex_map_conv image_eqI list.set_map)
      with sub show ?thesis by (force simp: list_all_iff)
    qed
    moreover have "\<not> panics q"
      using sequence_parts_panics [OF s] sub by auto
    ultimately show ?thesis by blast
  qed
  from Suc.prems show ?case
    unfolding parsePart.simps [of "Suc n"] nat.case sub_def [symmetric]
    by (auto simp: Let_def leaf_part_def panics_obind obind_eq_Ok dest!: seq split: prod.splits if_splits option.splits)
qed

lemma address_lists_no_panic:
  "\<not> panics (getAddressList lib h f)" "\<not> panics (reply_to_list lib h)" "\<not> panics (to_list lib h rcpts)"
  "\<not> panics (cc_list lib h rcpts)"
proof -
  show g: "\<not> panics (getAddressList lib h f)" for f
    by (simp add: getAddressList_def Let_def split: option.split)
  show "\<not> panics (reply_to_list lib h)" "\<not> panics (cc_list lib h rcpts)"
    using g by (auto simp: reply_to_list_def cc_list_def panics_iff split: outcome.split)
  show "\<not> panics (to_list lib h rcpts)" by (simp add: to_list_def Let_def)
qed

lemma parts_of_data:
  "\<not> panics (date_of lib h)" "\<not> panics (body_of lib h body)" "body_of lib h body = Ok p \<Longrightarrow> complete p"
  by (auto simp: date_of_def body_of_def Let_def dest: parsePart_complete split: option.split if_splits option.splits)

lemma ValidateMail_complete: "complete (Body m) \<Longrightarrow> \<not> panics (ValidateMail m)"
  by (simp add: ValidateMail_panics validate_no_panic)

text \<open>The one panic is the Message-ID of a single byte.\<close>

lemma parse_data_panics:
  assumes "panics (parse_data lib sender rcpts r)"
  shows "\<exists>h body. lib_ReadMessage lib r = Some (h, body) \<and> length (header_get h ''Message-ID'') = 1"
proof (cases "lib_ReadMessage lib r")
  case (Some hb)
  obtain h body where hb: "hb = (h, body)" by fastforce
  have "panics (message_id (header_get h ''Message-ID''))"
  proof (rule ccontr)
    assume mid: "\<not> panics (message_id (header_get h ''Message-ID''))"
    have v: "\<not> panics (case ValidateMail m of Err es \<Rightarrow> Err (Not_Valid es) | Panic x \<Rightarrow> Panic x | Ok _ \<Rightarrow> Ok m)"
      if "body_of lib h body = Ok (Body m)" for m
      using ValidateMail_complete [OF parts_of_data(3) [OF that]] by (cases "ValidateMail m") simp_all
    from assms Some hb mid show False
      by (auto simp: parse_data_def Let_def address_lists_no_panic parts_of_data(1,2) v split: if_splits)
  qed
  with Some hb show ?thesis by (simp add: message_id_panics)
qed (use assms in \<open>simp add: parse_data_def\<close>)

lemma Data_panics:
  assumes "panics (fst (Data lib b s r))"
  shows "(\<exists>h body. lib_ReadMessage lib r = Some (h, body) \<and> length (header_get h ''Message-ID'') = 1)
    \<or> (\<exists>m. parse_data lib (sfrom s) (recipients s) r = Ok m \<and> panics (fst (handleMessage b (sctx s) m)))"
proof (cases "parse_data lib (sfrom s) (recipients s) r")
  case (Ok m)
  then have "panics (fst (handleMessage b (sctx s) m))"
    using assms by (auto simp: Data_def split: if_splits outcome.splits prod.splits)
  with Ok show ?thesis by blast
next
  case (Panic p)
  then show ?thesis using parse_data_panics [of lib "sfrom s" "recipients s" r] by simp
qed (use assms in \<open>simp add: Data_def split: if_splits\<close>)

section \<open>The session as a state machine\<close>

text \<open>The commands of a client, in any order, with the log of what came of them, the latest first.
  The back end may be another one at every command (any of a set): time passes, what the handlers ask
  of others is answered anew, and other sessions use what the handlers share.\<close>

datatype 'c session_event = Logged_In string string | Handed 'c mail | Was_Reset

type_synonym 'c session_state = "'c session \<times> 'c session_event list"

definition login_event :: "(session_error, unit) outcome \<Rightarrow> string \<Rightarrow> string \<Rightarrow> 'c session_event list" where
  "login_event res u p = (if res = Ok () then [Logged_In u p] else [])"

definition handed_events :: "('c \<times> mail) list \<Rightarrow> 'c session_event list" where
  "handed_events handed = rev (map (\<lambda>(c, m). Handed c m) handed)"

inductive session_step :: "mail_lib \<Rightarrow> 'c backend set \<Rightarrow> 'c session_state \<Rightarrow> 'c session_state \<Rightarrow> bool"
  for lib B where
  auth: "b \<in> B \<Longrightarrow> Auth b s mech u p = (res, s') \<Longrightarrow> session_step lib B (s, log) (s', login_event res u p @ log)"
| auth_plain: "b \<in> B \<Longrightarrow> AuthPlain b s u p = (res, s') \<Longrightarrow> session_step lib B (s, log) (s', login_event res u p @ log)"
| mail: "b \<in> B \<Longrightarrow> session_step lib B (s, log) (snd (Mail b s sender), log)"
| rcpt: "b \<in> B \<Longrightarrow> session_step lib B (s, log) (snd (Rcpt b s to), log)"
| data: "b \<in> B \<Longrightarrow> Data lib b s r = (res, handed, s') \<Longrightarrow> session_step lib B (s, log) (s', handed_events handed @ log)"
| reset: "session_step lib B (s, log) (Reset s, Was_Reset # log)"

inductive session_reachable :: "mail_lib \<Rightarrow> 'c backend set \<Rightarrow> 'c session_state \<Rightarrow> bool"
  for lib B where
  start: "session_reachable lib B (NewSession root, [])"
| step: "session_reachable lib B st \<Longrightarrow> session_step lib B st st' \<Longrightarrow> session_reachable lib B st'"

text \<open>The library calls \<open>Reset\<close> after every message: where authentication is required, a client must
  authenticate again for the next one.\<close>

lemma after_Reset:
  assumes "requireAuth b"
  shows "Mail b (Reset s) sender = (Err (Data_Error Auth_Required), Reset s)"
    and "Rcpt b (Reset s) to = (Err (Data_Error Auth_Required), Reset s)"
    and "Data lib b (Reset s) r = (Err (Data_Error Auth_Required), [], Reset s)"
  using assms by (simp_all add: Mail_def Rcpt_def Data_def auth_missing_def Reset_def)

text \<open>Who is logged in, read off the log; and the contexts of a user: what the authentication handler
  gave for the credentials, and what a handler of messages made of such a context.\<close>

primrec logged_in_as :: "'c session_event list \<Rightarrow> (string \<times> string) option" where
  "logged_in_as [] = None"
| "logged_in_as (e # log) = (case e of Logged_In u p \<Rightarrow> Some (u, p) | Was_Reset \<Rightarrow> None | Handed c m \<Rightarrow> logged_in_as log)"

inductive user_ctx :: "'c backend set \<Rightarrow> string \<Rightarrow> string \<Rightarrow> 'c \<Rightarrow> bool" for B u p where
  given: "b \<in> B \<Longrightarrow> handleAuth b = Some ha \<Longrightarrow> ha c0 u p = Ok c \<Longrightarrow> user_ctx B u p c"
| used: "user_ctx B u p c \<Longrightarrow> b \<in> B \<Longrightarrow> handleMessage b c m = (r, c') \<Longrightarrow> user_ctx B u p c'"

definition user_ctx_of :: "'c backend set \<Rightarrow> 'c session_event list \<Rightarrow> 'c \<Rightarrow> bool" where
  "user_ctx_of B log c \<longleftrightarrow> (\<exists>u p. logged_in_as log = Some (u, p) \<and> user_ctx B u p c)"

text \<open>Every mail in the log is valid and, where authentication is required, was handed over with a
  context of the user that was logged in.\<close>

primrec log_for_users :: "'c backend set \<Rightarrow> 'c session_event list \<Rightarrow> bool" where
  "log_for_users B [] = True"
| "log_for_users B (e # log) = (log_for_users B log \<and> (case e of
     Handed c m \<Rightarrow> ValidateMail m = Ok () \<and> Headers m = [] \<and> ((\<forall>b \<in> B. requireAuth b) \<longrightarrow> user_ctx_of B log c)
   | _ \<Rightarrow> True))"

lemma log_for_users_append: "log_for_users B (newer @ log) \<Longrightarrow> log_for_users B log"
  by (induction newer) simp_all

definition session_inv :: "'c backend set \<Rightarrow> 'c session_state \<Rightarrow> bool" where
  "session_inv B st \<longleftrightarrow> (isAuthenticated (fst st) \<longrightarrow> user_ctx_of B (snd st) (sctx (fst st))) \<and> log_for_users B (snd st)"

lemma run_auth_session:
  assumes "run_auth b s u p = (res, s')"
  shows "(res \<noteq> Ok () \<and> s' = s) \<or>
    (\<exists>ha c. res = Ok () \<and> handleAuth b = Some ha \<and> ha (sctx s) u p = Ok c \<and> s' = s\<lparr>sctx := c, isAuthenticated := True\<rparr>)"
  using assms by (auto simp: run_auth_def split: option.splits outcome.splits)

lemma session_inv_auth:
  assumes "session_inv B (s, log)" and "b \<in> B" and "run_auth b s u p = (res, s')"
  shows "session_inv B (s', login_event res u p @ log)"
  using run_auth_session [OF assms(3)] assms(1,2)
  by (auto simp: session_inv_def login_event_def user_ctx_of_def intro: user_ctx.given)

lemma Data_handed:
  assumes "Data lib b s r = (res, handed, s')"
  shows "isAuthenticated s' = isAuthenticated s"
    and "(handed = [] \<and> sctx s' = sctx s) \<or> (\<exists>m. handed = [(sctx s, m)] \<and> \<not> auth_missing b s
      \<and> parse_data lib (sfrom s) (recipients s) r = Ok m \<and> sctx s' = snd (handleMessage b (sctx s) m))"
  using assms by (auto simp: Data_def split: outcome.splits if_splits prod.splits)

lemma session_inv_data:
  assumes "session_inv B (s, log)" and "b \<in> B" and "Data lib b s r = (res, handed, s')"
  shows "session_inv B (s', handed_events handed @ log)"
  using Data_handed(2) [OF assms(3)]
proof (elim disjE exE conjE)
  assume "handed = []" "sctx s' = sctx s"
  then show ?thesis using assms(1) Data_handed(1) [OF assms(3)] by (simp add: session_inv_def handed_events_def)
next
  fix m
  assume m: "handed = [(sctx s, m)]" "\<not> auth_missing b s" "parse_data lib (sfrom s) (recipients s) r = Ok m"
    "sctx s' = snd (handleMessage b (sctx s) m)"
  have after: "user_ctx_of B (Handed (sctx s) m # log) (sctx s')" if "user_ctx_of B log (sctx s)"
    using that user_ctx.used [OF _ assms(2), of _ _ "sctx s" m] m(4) by (auto simp: user_ctx_of_def) (metis prod.collapse)
  have "isAuthenticated s" if "\<forall>b \<in> B. requireAuth b" using m(2) assms(2) that by (simp add: auth_missing_def)
  then show ?thesis
    using assms(1) Data_handed(1) [OF assms(3)] after parse_data_Ok(1,3) [OF m(3)] m(1)
    by (simp add: session_inv_def handed_events_def)
qed

lemma session_inv_step: "session_step lib B st st' \<Longrightarrow> session_inv B st \<Longrightarrow> session_inv B st'"
proof (induction rule: session_step.induct)
  case (auth b s mech u p res s' log)
  then show ?case using session_inv_auth [of B s log b u p res s'] by (auto simp: Auth_def login_event_def split: if_splits)
next
  case (auth_plain b s u p res s' log)
  then show ?case using session_inv_auth [of B s log b u p res s'] by (auto simp: AuthPlain_def login_event_def split: if_splits)
next
  case (data b s r res handed s' log)
  then show ?case using session_inv_data by blast
qed (auto simp: session_inv_def Mail_def Rcpt_def Reset_def)

lemma session_inv_reachable: "session_reachable lib B st \<Longrightarrow> session_inv B st"
proof (induction rule: session_reachable.induct)
  case (start root)
  show ?case by (simp add: session_inv_def NewSession_def Reset_def)
next
  case (step st st')
  then show ?case using session_inv_step by blast
qed

text \<open>A log-in that succeeds, and a message that is handed over, as steps of a session.\<close>

lemma session_logs_in:
  assumes "session_reachable lib B (s, log)" and "b \<in> B" and "fst (AuthPlain b s u p) = Ok ()"
  shows "session_reachable lib B (snd (AuthPlain b s u p), Logged_In u p # log)"
proof -
  have "session_step lib B (s, log) (snd (AuthPlain b s u p), login_event (fst (AuthPlain b s u p)) u p @ log)"
    using assms(2) by (rule session_step.auth_plain) simp
  with session_reachable.step [OF assms(1)] assms(3) show ?thesis by (simp add: login_event_def)
qed

lemma session_hands_over:
  assumes "session_reachable lib B (s, log)" and "b \<in> B" and "fst (snd (Data lib b s r)) = [(c, m)]"
  shows "session_reachable lib B (snd (snd (Data lib b s r)), Handed c m # log)"
proof -
  have "session_step lib B (s, log) (snd (snd (Data lib b s r)), handed_events (fst (snd (Data lib b s r))) @ log)"
    using session_step.data [OF assms(2), of lib s r "fst (Data lib b s r)"] by simp
  with session_reachable.step [OF assms(1)] assms(3) show ?thesis by (simp add: handed_events_def)
qed

text \<open>The hand-over of one mail, the rest of the session before and after it being any.\<close>

lemma handed_for_user:
  assumes "session_reachable lib B (s, newer @ Handed c m # older)" and "\<forall>b \<in> B. requireAuth b"
  shows "\<exists>u p. logged_in_as older = Some (u, p) \<and> user_ctx B u p c" and "ValidateMail m = Ok ()"
  using session_inv_reachable [OF assms(1)] log_for_users_append [of B newer "Handed c m # older"] assms(2)
  by (auto simp: session_inv_def user_ctx_of_def)

end
