(* ===== verification/Smtp_Gateway.thy ===== *)
theory Smtp_Gateway
  imports Smtp_Proxy Smtp_Server
begin

text \<open>
  The SMTP server that \<open>GetSMTPServer\<close> of \<^verbatim>\<open>internal/smtp-proxy/smtp-proxy.go\<close> builds: the sessions
  of \<^verbatim>\<open>pkg/smtpserver\<close> with the proxy's handlers. The context of a session holds the provider of
  its user's tokens, once it is authenticated; a token that the provider fetches for one message is
  there for the next. From command to command the time, the answers of the token endpoint and of the
  service, and the provider that the sessions share may change.
\<close>

definition proxy_auth :: "SMTPProxyConfig \<Rightarrow> token_world \<Rightarrow> int64 \<Rightarrow> OidcTokenProvider option auth_handler" where
  "proxy_auth cfg w now ctx username password =
     (case authHandler cfg w now username password of Ok tp \<Rightarrow> Ok (Some tp) | Err _ \<Rightarrow> Err () | Panic p \<Rightarrow> Panic p)"

definition proxy_message ::
    "SMTPProxyConfig \<Rightarrow> mail_client \<Rightarrow> token_world \<Rightarrow> int64 \<Rightarrow> (nat list \<Rightarrow> string) \<Rightarrow> OidcTokenProvider option
       \<Rightarrow> OidcTokenProvider option message_handler" where
  "proxy_message cfg client w now rb own ctx m =
     (case mailHandler cfg client w now rb \<lparr>injected = own, of_session = ctx\<rparr> m of (res, calls, ps) \<Rightarrow>
        (case res of Ok u \<Rightarrow> Ok u | Err _ \<Rightarrow> Err () | Panic p \<Rightarrow> Panic p, of_session ps))"

definition proxy_backend ::
    "SMTPProxyConfig \<Rightarrow> mail_client \<Rightarrow> token_world \<Rightarrow> int64 \<Rightarrow> (nat list \<Rightarrow> string) \<Rightarrow> OidcTokenProvider option
       \<Rightarrow> OidcTokenProvider option backend" where
  "proxy_backend cfg client w now rb own =
     NewBackend (proxy_message cfg client w now rb own)
       (if smtpAuthMode cfg = SMTPAuthPlain then [WithAuthHandler (proxy_auth cfg w now)] else [])"

text \<open>The proxy over time: its client is any of \<open>clients\<close>, what is outside of it any of \<open>TW\<close>.\<close>

definition proxy_backends ::
    "SMTPProxyConfig \<Rightarrow> mail_client set \<Rightarrow> token_world set \<Rightarrow> OidcTokenProvider option backend set" where
  "proxy_backends cfg clients TW =
     {proxy_backend cfg client w now rb own | client w now rb own. client \<in> clients \<and> w \<in> TW}"

lemma proxy_backend_sel:
  "requireAuth (proxy_backend cfg client w now rb own) \<longleftrightarrow> smtpAuthMode cfg = SMTPAuthPlain"
  "handleAuth (proxy_backend cfg client w now rb own)
     = (if smtpAuthMode cfg = SMTPAuthPlain then Some (proxy_auth cfg w now) else None)"
  "handleMessage (proxy_backend cfg client w now rb own) = proxy_message cfg client w now rb own"
  by (simp_all add: proxy_backend_def NewBackend_def WithAuthHandler_def)

lemma proxy_backends_mem [intro]:
  "client \<in> clients \<Longrightarrow> w \<in> TW \<Longrightarrow> proxy_backend cfg client w now rb own \<in> proxy_backends cfg clients TW"
  unfolding proxy_backends_def by blast

lemma proxy_backendsE:
  assumes "b \<in> proxy_backends cfg clients TW"
  obtains client w now rb own where "b = proxy_backend cfg client w now rb own" "client \<in> clients" "w \<in> TW"
  using assms by (auto simp: proxy_backends_def)

lemma proxy_auth_Ok: "proxy_auth cfg w now ctx u p = Ok c \<longleftrightarrow> (\<exists>tp. c = Some tp \<and> authHandler cfg w now u p = Ok tp)"
  by (auto simp: proxy_auth_def split: outcome.splits)

lemma proxy_message_Ok:
  "fst (proxy_message cfg client w now rb own ctx m) = Ok ()
     \<longleftrightarrow> fst (mailHandler cfg client w now rb \<lparr>injected = own, of_session = ctx\<rparr> m) = Ok ()"
  by (auto simp: proxy_message_def split: prod.split outcome.split)

section \<open>The provider of a session\<close>

text \<open>The provider of a session is that of its user, from the log-in on and whatever the handler
  of messages does with it: it has the user's credentials, and its token, if it has one, was given
  for them.\<close>

lemma authHandler_provider:
  assumes "authHandler cfg w now u p = Ok tp" and "TokenProviderOptions cfg = []" and "OidcConfig cfg = Some oc" and "w \<in> TW"
  shows "provider_for TW (oidcTokenEndpoint oc) u p tp"
proof -
  have "snd (GetAccessToken w now (NewOidcTokenProvider (oidcTokenEndpoint oc) u p [])) = tp"
    using assms(1-3) by (auto simp: authHandler_def Let_def split: prod.splits outcome.splits)
  with provider_for_Get [OF provider_for_New assms(4)] show ?thesis by blast
qed

lemma authorization_providers:
  "of_session (snd (authorization mode w now ps)) = of_session ps
   \<or> (\<exists>tp. of_session ps = Some tp \<and> of_session (snd (authorization mode w now ps)) = Some (snd (GetAccessToken w now tp)))"
  by (auto simp: authorization_def split: GrpcAuthMode.split option.split prod.split outcome.split)

lemma mailHandler_providers:
  "snd (snd (mailHandler cfg client w now rb ps m)) = ps
   \<or> snd (snd (mailHandler cfg client w now rb ps m)) = snd (authorization (grpcAuthMode cfg) w now ps)"
  by (auto simp: mailHandler_def split: outcome.split prod.split)

lemma proxy_message_provider:
  assumes "provider_for TW endpoint u p tp" and "w \<in> TW" and "proxy_message cfg client w now rb own (Some tp) m = (r, c)"
  shows "\<exists>tp'. c = Some tp' \<and> provider_for TW endpoint u p tp'"
proof -
  let ?ps = "\<lparr>injected = own, of_session = Some tp\<rparr>"
  have "c = of_session (snd (snd (mailHandler cfg client w now rb ?ps m)))"
    using assms(3) by (auto simp: proxy_message_def split: prod.splits)
  then have "c = Some tp \<or> c = Some (snd (GetAccessToken w now tp))"
    using mailHandler_providers [of cfg client w now rb ?ps m] authorization_providers [of "grpcAuthMode cfg" w now ?ps]
    by auto
  with assms(1) provider_for_Get [OF assms(1,2)] show ?thesis by blast
qed

lemma proxy_user_ctx:
  assumes "user_ctx (proxy_backends cfg clients TW) u p c" and "TokenProviderOptions cfg = []" and "OidcConfig cfg = Some oc"
  shows "\<exists>tp. c = Some tp \<and> provider_for TW (oidcTokenEndpoint oc) u p tp"
  using assms(1)
proof (induction rule: user_ctx.induct)
  case (given b ha c0 c)
  from given(1) obtain client w now rb own where b: "b = proxy_backend cfg client w now rb own" "w \<in> TW"
    by (rule proxy_backendsE)
  with given(2,3) obtain tp where "c = Some tp" "authHandler cfg w now u p = Ok tp"
    by (auto simp: proxy_backend_sel proxy_auth_Ok split: if_splits)
  with authHandler_provider [OF _ assms(2,3) b(2)] show ?case by blast
next
  case (used c b m r c')
  from used(2) obtain client w now rb own where b: "b = proxy_backend cfg client w now rb own" "w \<in> TW"
    by (rule proxy_backendsE)
  from used.IH obtain tp where tp: "c = Some tp" "provider_for TW (oidcTokenEndpoint oc) u p tp" by blast
  from proxy_message_provider [OF tp(2) b(2)] used(3) show ?case by (simp add: b(1) tp(1) proxy_backend_sel)
qed

text \<open>The Authorization value that a call carries.\<close>

fun call_authorization :: "client_call \<Rightarrow> string option" where
  "call_authorization (Call_DryRun a r) = a"
| "call_authorization (Call_Queue a r) = a"
| "call_authorization (Call_Send a r) = a"

lemma call_authorization_deliver [simp]: "call_authorization (deliver_call cfg a r) = a"
  by (simp add: deliver_call_def)

lemma passthrough_authorization:
  "fst (authorization SMTPPassthrough w now ps) = Ok a \<Longrightarrow>
     \<exists>tp t. of_session ps = Some tp \<and> fst (GetAccessToken w now tp) = Ok (Some t) \<and> a = Some (''Bearer '' @ t)"
  by (auto simp: authorization_def bearer_def split: option.splits prod.splits outcome.splits)

text \<open>A mail that a session hands over is handed over for the user who is logged in, and is valid.\<close>

lemma handed_over_for_user:
  assumes "session_reachable lib (proxy_backends cfg clients TW) (s, newer @ Handed ctx m # older)"
    and "smtpAuthMode cfg = SMTPAuthPlain" and "TokenProviderOptions cfg = []" and "OidcConfig cfg = Some oc"
  shows "\<exists>u p tp. logged_in_as older = Some (u, p) \<and> ctx = Some tp \<and> provider_for TW (oidcTokenEndpoint oc) u p tp"
    and "ValidateMail m = Ok ()"
proof -
  have "\<forall>b \<in> proxy_backends cfg clients TW. requireAuth b"
    using assms(2) by (auto simp: proxy_backends_def proxy_backend_sel)
  note handed = handed_for_user [OF assms(1) this]
  show "ValidateMail m = Ok ()" by (rule handed(2))
  from handed(1) proxy_user_ctx [OF _ assms(3,4)]
  show "\<exists>u p tp. logged_in_as older = Some (u, p) \<and> ctx = Some tp \<and> provider_for TW (oidcTokenEndpoint oc) u p tp"
    by blast
qed

section \<open>What panics the proxy\<close>

lemma proxy_Data_panics:
  assumes "panics (fst (Data lib (proxy_backend cfg client w now rb own) s r))"
    and "client_answers client" and "grpcAuthMode cfg = OIDCInject \<longrightarrow> own \<noteq> None"
  shows "\<exists>h body. lib_ReadMessage lib r = Some (h, body) \<and> length (header_get h ''Message-ID'') = 1"
proof -
  have "\<not> panics (fst (proxy_message cfg client w now rb own (sctx s) m))"
    if "parse_data lib (sfrom s) (recipients s) r = Ok m" for m
  proof -
    have "\<not> panics (fst (mailHandler cfg client w now rb \<lparr>injected = own, of_session = sctx s\<rparr> m))"
      using parse_data_Ok(1) [OF that] parse_data_multipart [OF that] assms(2,3) by (intro mailHandler_no_panic) auto
    then show ?thesis by (auto simp: proxy_message_def split: prod.split outcome.split)
  qed
  with Data_panics [OF assms(1)] show ?thesis by (auto simp: proxy_backend_sel)
qed

end
