(* ===== verification/Slack.thy ===== *)
theory Slack
  imports Auth_Claims
begin

text \<open>
  \<^verbatim>\<open>pkg/slack\<close> and \<^verbatim>\<open>internal/grpcservers/slack.go\<close>: sending a message to a user of a Slack
  workspace. The Slack API and the decoding of JSON blocks are parameters; an API call is a
  function of the number of the try, so that a later try may be answered otherwise.
\<close>

section \<open>Calls with retries\<close>

definition maxRetries :: nat where
  "maxRetries = 20"

datatype slack_error = RateLimited int | Api_Error string

text \<open>
  The loop of \<open>slackCallWrapper\<close>, on the result so far (the zero value \<open>z\<close> before the first
  try), the tries left and the number of the next try. The second component are the seconds
  waited before each retry. After the last try the result is returned without an error,
  whatever the last try gave.
\<close>

fun call_loop :: "(nat \<Rightarrow> ('r \<times> slack_error option)) \<Rightarrow> nat \<Rightarrow> nat \<Rightarrow> 'r \<Rightarrow> (string, 'r) outcome \<times> int list" where
  "call_loop f 0 i res = (Ok res, [])"
| "call_loop f (Suc n) i res =
     (case f i of
        (r, None) \<Rightarrow> (Ok r, [])
      | (r, Some (Api_Error e)) \<Rightarrow> (Err e, [])
      | (r, Some (RateLimited s)) \<Rightarrow>
          (let (out, waits) = call_loop f n (Suc i) r in (out, max s 1 # waits)))"

definition slackCallWrapper :: "(nat \<Rightarrow> ('r \<times> slack_error option)) \<Rightarrow> 'r \<Rightarrow> (string, 'r) outcome \<times> int list" where
  "slackCallWrapper f z = call_loop f maxRetries 0 z"

lemma call_loop_waits:
  "length (snd (call_loop f n i res)) \<le> n \<and> list_all (\<lambda>s. 1 \<le> s) (snd (call_loop f n i res))"
proof (induction n arbitrary: i res)
  case (Suc n)
  obtain r e where f: "f i = (r, e)" by fastforce
  obtain out waits where "call_loop f n (Suc i) r = (out, waits)" by fastforce
  with Suc [of "Suc i" r] f show ?case by (auto split: option.split slack_error.split)
qed simp

text \<open>The outcome is that of the first try that was not rate limited, if there is one.\<close>

lemma call_loop_first:
  "j < n \<Longrightarrow> (\<forall>k < j. \<exists>s. snd (f (i + k)) = Some (RateLimited s)) \<Longrightarrow>
    (\<forall>s. snd (f (i + j)) \<noteq> Some (RateLimited s)) \<Longrightarrow>
    fst (call_loop f n i res) = (case f (i + j) of (r, None) \<Rightarrow> Ok r | (r, Some (Api_Error e)) \<Rightarrow> Err e
      | (r, Some (RateLimited s)) \<Rightarrow> Ok r)"
proof (induction j arbitrary: n i res)
  case 0
  then obtain m where "n = Suc m" by (cases n) auto
  with 0 show ?case by (cases "f i") (auto split: option.split slack_error.split)
next
  case (Suc j)
  then obtain m where n: "n = Suc m" by (cases n) auto
  from Suc.prems(2) [rule_format, of 0] obtain r s where f: "f i = (r, Some (RateLimited s))"
    by (metis add_0_right prod.collapse zero_less_Suc)
  have "fst (call_loop f m (Suc i) r) = (case f (Suc i + j) of (r, None) \<Rightarrow> Ok r
      | (r, Some (Api_Error e)) \<Rightarrow> Err e | (r, Some (RateLimited s)) \<Rightarrow> Ok r)"
  proof (rule Suc.IH)
    show "j < m" using Suc.prems(1) n by simp
    show "\<forall>k < j. \<exists>s. snd (f (Suc i + k)) = Some (RateLimited s)"
      using Suc.prems(2) by (metis Suc_less_eq add_Suc_shift)
    show "\<forall>s. snd (f (Suc i + j)) \<noteq> Some (RateLimited s)" using Suc.prems(3) by simp
  qed
  with n f show ?case by (simp add: case_prod_unfold)
qed

text \<open>A call that is rate limited on every try ends without an error.\<close>

lemma call_loop_exhausted:
  "(\<And>k. k < n \<Longrightarrow> \<exists>s. f (i + k) = (z, Some (RateLimited s))) \<Longrightarrow> fst (call_loop f n i z) = Ok z"
proof (induction n arbitrary: i)
  case (Suc n)
  from Suc.prems [of 0] obtain s where f: "f i = (z, Some (RateLimited s))" by auto
  have "fst (call_loop f n (Suc i) z) = Ok z"
    by (rule Suc.IH) (use Suc.prems [of "Suc _"] in auto)
  with f show ?case by (simp add: case_prod_unfold)
qed simp

lemma slack_loop_first: "f 0 = (r, None) \<Longrightarrow> fst (slackCallWrapper f z) = Ok r"
  using call_loop_first [of 0 maxRetries f 0 z] by (simp add: slackCallWrapper_def maxRetries_def)

text \<open>What the wrapper tells the tracer: the workspace that the context names, each wait, and the
  status, which is set where the call is a success.\<close>

type_synonym slack_context = "string option"

definition withWorkspaceURL :: "slack_context \<Rightarrow> string \<Rightarrow> slack_context" where
  "withWorkspaceURL ctx workspaceURL = Some workspaceURL"

record slack_span =
  span_name :: string
  span_workspace :: string
  span_waits :: "int list"
  span_ok :: bool

definition traced_slackCallWrapper ::
    "slack_context \<Rightarrow> string \<Rightarrow> (nat \<Rightarrow> ('r \<times> slack_error option)) \<Rightarrow> 'r \<Rightarrow> (string, 'r) outcome \<times> slack_span" where
  "traced_slackCallWrapper ctx name f z =
     (let (res, waits) = slackCallWrapper f z
      in (res, \<lparr>span_name = name, span_workspace = (case ctx of None \<Rightarrow> ''unknown'' | Some url \<Rightarrow> url),
               span_waits = waits, span_ok = (case res of Ok _ \<Rightarrow> True | _ \<Rightarrow> False)\<rparr>))"

lemma traced_same_result: "fst (traced_slackCallWrapper ctx name f z) = fst (slackCallWrapper f z)"
  by (simp add: traced_slackCallWrapper_def split: prod.split)

text \<open>The span of a call that was refused every time has the status of a success.\<close>

lemma exhausted_span:
  assumes "\<And>k. \<exists>s. f k = (z, Some (RateLimited s))"
  shows "span_ok (snd (traced_slackCallWrapper ctx name f z))"
proof -
  have "fst (slackCallWrapper f z) = Ok z" unfolding slackCallWrapper_def using assms by (intro call_loop_exhausted) simp
  then show ?thesis by (auto simp: traced_slackCallWrapper_def split: prod.split)
qed

section \<open>The map of user names\<close>

record UsernameMap =
  expiresAt :: int
  data :: "string \<Rightarrow> string option"

definition Get :: "UsernameMap \<Rightarrow> string \<Rightarrow> string option" where
  "Get u username = data u username"

definition Replace :: "UsernameMap \<Rightarrow> (string \<Rightarrow> string option) \<Rightarrow> int \<Rightarrow> UsernameMap" where
  "Replace u newData t = u\<lparr>expiresAt := t, data := newData\<rparr>"

record client =
  workspaceUsers :: "string \<Rightarrow> UsernameMap option"
  updatePeriod :: int

definition NewClient :: client where
  "NewClient = \<lparr>workspaceUsers = (\<lambda>_. None), updatePeriod = 12 * 3600\<rparr>"

text \<open>What the API of a workspace answers, try by try. A user is its name and its ID.\<close>

record slack_api =
  api_AuthTest :: "nat \<Rightarrow> string option \<times> slack_error option"     \<comment> \<open>the workspace URL\<close>
  api_GetUsers :: "nat \<Rightarrow> (string \<times> string) list \<times> slack_error option"
  api_PostMessage :: "string \<Rightarrow> string \<Rightarrow> string \<Rightarrow> nat \<Rightarrow> unit \<times> slack_error option"

definition users_map :: "(string \<times> string) list \<Rightarrow> string \<Rightarrow> string option" where
  "users_map users = fold (\<lambda>(n, i) m. m(n \<mapsto> i)) users (\<lambda>_. None)"

definition UpdateUsernameMap ::
    "slack_api \<Rightarrow> int \<Rightarrow> client \<Rightarrow> string \<Rightarrow> (string, UsernameMap) outcome \<times> client" where
  "UpdateUsernameMap api now c workspaceURL =
     (case fst (slackCallWrapper (api_GetUsers api) []) of
        Err e \<Rightarrow> (Err e, c)
      | Panic p \<Rightarrow> (Panic p, c)
      | Ok users \<Rightarrow>
        (let existingMap = (case workspaceUsers c workspaceURL of
               None \<Rightarrow> \<lparr>expiresAt = - 62135596800, data = (\<lambda>_. None)\<rparr> | Some u \<Rightarrow> u);
             u = Replace existingMap (users_map users) (now + updatePeriod c)
         in (Ok u, c\<lparr>workspaceUsers := (workspaceUsers c)(workspaceURL \<mapsto> u)\<rparr>)))"

section \<open>Sending\<close>

datatype slack_send_error =
    No_Workspace string | Auth_Nil | Bad_Blocks | No_Users string | User_Not_Found | Not_Posted string

text \<open>A message that was posted, or that the wrapper gave up on without an error: the ID of the
  user, the blocks and the text.\<close>

definition user_map ::
    "slack_api \<Rightarrow> int \<Rightarrow> client \<Rightarrow> string \<Rightarrow> (slack_send_error, UsernameMap) outcome \<times> client" where
  "user_map api now c url = (case workspaceUsers c url of
      Some u \<Rightarrow> if expiresAt u < now
        then (case UpdateUsernameMap api now c url of
           (Err e, c') \<Rightarrow> (Err (No_Users e), c') | (Panic p, c') \<Rightarrow> (Panic p, c') | (Ok u', c') \<Rightarrow> (Ok u', c'))
        else (Ok u, c)
    | None \<Rightarrow> (case UpdateUsernameMap api now c url of
         (Err e, c') \<Rightarrow> (Err (No_Users e), c') | (Panic p, c') \<Rightarrow> (Panic p, c') | (Ok u', c') \<Rightarrow> (Ok u', c')))"

definition SendToUsername ::
    "(string \<Rightarrow> string option) \<Rightarrow> (string \<Rightarrow> slack_api) \<Rightarrow> int \<Rightarrow> client
       \<Rightarrow> string \<Rightarrow> string \<Rightarrow> string \<Rightarrow> string \<Rightarrow> (slack_send_error, unit) outcome \<times> client" where
  "SendToUsername json_blocks api_of now c token username blocksJSON fallbackText =
     (let api = api_of token in
      case fst (slackCallWrapper (api_AuthTest api) None) of
        Err e \<Rightarrow> (Err (No_Workspace e), c)
      | Panic p \<Rightarrow> (Panic p, c)
      | Ok None \<Rightarrow> (Err Auth_Nil, c)
      | Ok (Some workspaceURL) \<Rightarrow>
        (case json_blocks blocksJSON of
           None \<Rightarrow> (Err Bad_Blocks, c)
         | Some blocks \<Rightarrow>
           (case user_map api now c workspaceURL of
              (Err e, c') \<Rightarrow> (Err e, c')
            | (Panic p, c') \<Rightarrow> (Panic p, c')
            | (Ok u, c') \<Rightarrow>
              (case Get u username of
                 None \<Rightarrow> (Err User_Not_Found, c')
               | Some userID \<Rightarrow>
                 (case fst (slackCallWrapper (api_PostMessage api userID blocks fallbackText) ()) of
                    Err e \<Rightarrow> (Err (Not_Posted e), c')
                  | Panic p \<Rightarrow> (Panic p, c')
                  | Ok _ \<Rightarrow> (Ok (), c'))))))"

record SlackRequest =
  Recipient :: string
  BlocksJson :: string
  FallbackText :: string

definition SendSlackMessage ::
    "bool \<Rightarrow> grpc_context \<Rightarrow> (string \<Rightarrow> string option) \<Rightarrow> (string \<Rightarrow> slack_api) \<Rightarrow> int \<Rightarrow> client
       \<Rightarrow> SlackRequest \<Rightarrow> (grpc_code, unit) outcome \<times> client" where
  "SendSlackMessage loggingOnly ctx json_blocks api_of now c req =
     (case metadata ctx of
        None \<Rightarrow> (Err Unauthenticated, c)
      | Some md \<Rightarrow>
        if loggingOnly then (Ok (), c)
        else (case md_get md ''X-Slack-Token'' of
            [] \<Rightarrow> (Err Unauthenticated, c)
          | [token] \<Rightarrow>
            (case SendToUsername json_blocks api_of now c token (Recipient req) (BlocksJson req) (FallbackText req) of
               (Err e, c') \<Rightarrow> (Err Internal, c')
             | (Panic p, c') \<Rightarrow> (Panic p, c')
             | (Ok _, c') \<Rightarrow> (Ok (), c'))
          | _ \<Rightarrow> (Err Unauthenticated, c)))"

section \<open>The cache of users\<close>

lemma users_map_map_of: "users_map users = map_of (rev users)"
proof -
  have "fold (\<lambda>(n, i) m. m(n \<mapsto> i)) us m = m ++ map_of (rev us)" for us and m :: "string \<Rightarrow> string option"
    by (induction us arbitrary: m) (auto simp: fun_eq_iff map_add_def split: option.split)
  then have "users_map users = Map.empty ++ map_of (rev users)" by (simp only: users_map_def)
  then show ?thesis by simp
qed

text \<open>An entry that is not expired is used as it is; otherwise the entry of this workspace, and
  of no other, is replaced.\<close>

lemma user_map_fresh:
  "workspaceUsers c url = Some u \<Longrightarrow> now \<le> expiresAt u \<Longrightarrow> user_map api now c url = (Ok u, c)"
  by (simp add: user_map_def)

lemma user_map_others:
  "url' \<noteq> url \<Longrightarrow> workspaceUsers (snd (user_map api now c url)) url' = workspaceUsers c url'"
  by (auto simp: user_map_def UpdateUsernameMap_def Let_def split: option.split outcome.split)

lemma user_map_stored:
  "user_map api now c url = (Ok u, c') \<Longrightarrow> workspaceUsers c' url = Some u"
  by (auto simp: user_map_def UpdateUsernameMap_def Let_def split: option.splits outcome.splits if_splits)

end
