(* ===== verification/Samples.thy ===== *)
theory Samples
  imports Grpc_Mail Smtp_Gateway Slack Cli_Config
begin

text \<open>
  The concrete inputs at which the properties are applied: a mail with a text body and its
  rendering, a table with that mail in the queue, a request and the world it is served in.
\<close>

section \<open>Inputs for the witnesses\<close>

definition sample_mail :: mail where
  "sample_mail = \<lparr>From = \<lparr>Name = ''Ann'', Address = ''ann@vis.ch''\<rparr>, ReplyTo = [],
     To = [\<lparr>Name = [], Address = ''bob@vis.ch''\<rparr>], Cc = [],
     Bcc = [\<lparr>Name = [], Address = ''eve@vis.ch''\<rparr>], Subject = ''Hi'',
     Date = \<lparr>unix = 1080769384, zone = 15600\<rparr>, MessageID = ''1@vis'',
     ContentType = ''text/plain'', Headers = [\<lparr>Key = ''x-tag'', Value = ''on''\<rparr>],
     Body = Text [CHR ''a'', LF, CHR 0xC3, CHR 0xA9]\<rparr>"

definition sample_header_lines :: "string list" where
  "sample_header_lines =
     [''From: '' @ [DQUOTE] @ ''Ann'' @ [DQUOTE] @ '' <ann@vis.ch>'', ''To: <bob@vis.ch>'',
      ''Date: Thu, 01 Apr 2004 02:03:04 +0420'', ''Message-Id: <1@vis>'', ''Subject: Hi'', ''X-Tag: on'',
      ''Mime-Version: 1.0'', ''Content-Type: text/plain'', ''Content-Transfer-Encoding: quoted-printable'']"

definition sample_message :: string where
  "sample_message = unlines sample_header_lines @ CRLF @ ''a'' @ CRLF @ ''=C3=A9''"

lemma sample_rendered: "GetInternetMessageFormat (\<lambda>_. ''b'') sample_mail False = Ok sample_message"
  by code_simp

lemma sample_facts: "labels_ok sample_mail" "ascii_mail sample_mail" "ValidateMail sample_mail = Ok ()"
  by code_simp+

text \<open>A parser of addresses that knows the ones it is given.\<close>

definition known_addresses :: "address list \<Rightarrow> address_parser" where
  "known_addresses as s = map_of (map (\<lambda>a. (address_String a, a)) as) s"

section \<open>A queue\<close>

definition empty_table :: mails_table where
  "empty_table = \<lparr>rows = [], next_id = 1, clock = 1000, local_zone = (\<lambda>_. 0)\<rparr>"

definition sample_table :: mails_table where
  "sample_table = (case MailToDBEntity sample_mail of
     Ok row \<Rightarrow> sql_CreateMail row Submitted empty_table | _ \<Rightarrow> empty_table)"

abbreviation sample_parser :: address_parser where
  "sample_parser \<equiv> known_addresses (all_addresses sample_mail)"

abbreviation steady :: "mails_table queries" where
  "steady \<equiv> pg_queries (\<lambda>_. True) (\<lambda>_. 1) (\<lambda>_. 0)"

definition sample_empty_table :: mails_table where
  "sample_empty_table = (case MailToDBEntity (sample_mail\<lparr>Body := Text []\<rparr>) of
     Ok row \<Rightarrow> sql_CreateMail row Submitted empty_table | _ \<Rightarrow> empty_table)"

definition sample_round :: "(handle_error, bool) outcome \<times> (nat \<times> mail) list \<times> mails_table" where
  "sample_round = popAndHandleMail steady (\<lambda>_. Ok ()) sample_parser sample_table"

lemma sample_submitted: "submitted sample_table = {1}"
  by code_simp

lemma sample_table_reachable: "queue_reachable (sample_table, [])"
proof -
  have "MailToDBEntity sample_mail \<noteq> Err e \<and> \<not> panics (MailToDBEntity sample_mail)" for e
    by (simp add: MailToDBEntity_def sample_mail_def)
  then obtain row where "sample_table = sql_CreateMail row Submitted empty_table"
    by (cases "MailToDBEntity sample_mail") (auto simp: sample_table_def)
  moreover have "queue_reachable (empty_table, [])"
    unfolding empty_table_def by (rule queue_reachable.start)
  moreover have "queue_step (empty_table, []) (sql_CreateMail row Submitted empty_table, [])"
    by (rule queue_step.create) simp
  ultimately show ?thesis by (metis queue_reachable.step)
qed

lemma sample_table_inv: "table_inv sample_table"
  using queue_inv_reachable [OF sample_table_reachable] by (simp add: queue_inv_def)

lemma sample_round_log: "map fst (fst (snd sample_round)) = [1]" "fst sample_round = Ok False"
  by code_simp+

lemma sample_round_reachable: "queue_reachable (snd (snd sample_round), fst (snd sample_round))"
proof -
  have "queue_step (sample_table, []) (snd (snd sample_round), [] @ fst (snd sample_round))"
    by (rule queue_step.handle [where res = "fst sample_round"]) (simp add: sample_round_def)
  with sample_table_reachable show ?thesis by (auto intro: queue_reachable.step)
qed

section \<open>A call\<close>

definition sample_claims :: CustomClaims where
  "sample_claims = \<lparr>ClientID = ''api'', ResourceAccess = [''api'' \<mapsto>
     [''roles'' \<mapsto> [''mail'', ''mail-sender:ann@vis.ch'', ''mail-header:X-Tag'']]]\<rparr>"

definition sample_ctx :: grpc_context where
  "sample_ctx = \<lparr>metadata = None, claims = Some sample_claims\<rparr>"

definition sample_request :: pb_mail where
  "sample_request = \<lparr>pb_From = Some (Mail_Address ''Ann'' ''ann@vis.ch''), pb_ReplyTo = [],
     pb_To = [Some (Mail_Address [] ''bob@vis.ch'')], pb_Cc = [], pb_Bcc = [],
     pb_ExtraHeaders = [Some \<lparr>Key = ''X-Tag'', Value = ''on''\<rparr>], pb_Subject = ''Hi'',
     pb_ContentType = None, pb_BodyOneof = Some (PlainText ''hello'')\<rparr>"

text \<open>A parser that also reads plain addresses, as the conversion asks for.\<close>

definition plain_parser :: "address list \<Rightarrow> address_parser" where
  "plain_parser as s = map_of (map (\<lambda>a. (address_String a, a)) as
     @ map (\<lambda>a. (Address a, \<lparr>Name = [], Address = Address a\<rparr>)) as) s"

definition sample_world :: mail_world where
  "sample_world = \<lparr>w_GetSender = (\<lambda>a. a), w_MessageIDSuffix = ''vis'', w_TransmitMail = (\<lambda>_. Ok ()),
     w_CreateMail = (\<lambda>_ _. True), w_uuid = Some ''1'', w_now = \<lparr>unix = 1080769384, zone = 15600\<rparr>,
     w_parse_address = plain_parser (all_addresses sample_mail), w_boundary = (\<lambda>_. ''b'')\<rparr>"

abbreviation strict_server :: MailServer where
  "strict_server \<equiv> \<lparr>loggingOnly = False, unauthenticated = False\<rparr>"

definition sample_sanitized :: mail where
  "sample_sanitized = \<lparr>From = \<lparr>Name = ''Ann'', Address = ''ann@vis.ch''\<rparr>, ReplyTo = [],
     To = [\<lparr>Name = [], Address = ''bob@vis.ch''\<rparr>], Cc = [], Bcc = [], Subject = ''Hi'',
     Date = \<lparr>unix = 1080769384, zone = 15600\<rparr>, MessageID = ''1@vis'',
     ContentType = ''text/plain; charset=utf-8'', Headers = [], Body = Text ''hello''\<rparr>"

lemma sample_preprocessed:
  "preprocessIncomingMailRequest sample_world strict_server sample_ctx sample_request
     = (Ok sample_sanitized, sample_request)"
  by code_simp

text \<open>A verifier that knows one token, and a context that carries it.\<close>

definition sample_jwt :: jwt_parser where
  "sample_jwt iss aud tok = (if iss = ''iss'' \<and> aud = ''api'' \<and> tok = ''abc''
     then Some (sample_claims\<lparr>ClientID := []\<rparr>, True) else None)"

definition sample_bearer_ctx :: grpc_context where
  "sample_bearer_ctx = \<lparr>metadata = Some [''authorization'' \<mapsto> [''Bearer abc'']], claims = None\<rparr>"

text \<open>A token endpoint whose token expires at 1000, and a provider that has fetched nothing.\<close>

definition sample_token_world :: token_world where
  "sample_token_world = \<lparr>url_ok = (\<lambda>_. True), http_post = (\<lambda>_. Some (200, Some ''a.e30.c'')),
     json_access_token = Some, json_exp = (\<lambda>_. Some 1000)\<rparr>"

definition sample_provider :: OidcTokenProvider where
  "sample_provider = NewOidcTokenProvider ''https://idp'' ''id'' ''key'' [WithScope []]"

section \<open>A message over SMTP\<close>

text \<open>A reader of one message, whose address lists are names, and of multiparts that nest.\<close>

definition sample_mixed :: mime_map where
  "sample_mixed = [(''Content-Type'', [''multipart/mixed; boundary=x''])]"

definition sample_lib :: mail_lib where
  "sample_lib = \<lparr>lib_ReadMessage = (\<lambda>r. if r = ''msg''
       then Some ([(''From'', [''ann'']), (''To'', [''bob'']), (''Subject'', [''Hi''])], ''hello'') else None),
     lib_ParseAddressList = (\<lambda>s. Some [\<lparr>Name = [], Address = s @ ''@vis.ch''\<rparr>]),
     lib_DecodeHeader = Some, lib_ParseDate = (\<lambda>_. None),
     lib_parts = (\<lambda>_ b. if b = [] then ([], True) else ([(sample_mixed, tl b)], True)),
     lib_qp_read = qp_decode, lib_charset = (\<lambda>_ _. None), lib_ToLower = to_lower\<rparr>"

definition sample_received :: mail where
  "sample_received = \<lparr>From = \<lparr>Name = [], Address = ''ann@vis.ch''\<rparr>, ReplyTo = [],
     To = [\<lparr>Name = [], Address = ''bob@vis.ch''\<rparr>], Cc = [],
     Bcc = [\<lparr>Name = [], Address = ''eve@vis.ch''\<rparr>], Subject = ''Hi'',
     Date = \<lparr>unix = - 62135596800, zone = 0\<rparr>, MessageID = [], ContentType = [], Headers = [],
     Body = Binary ''hello''\<rparr>"

definition sample_proxy :: SMTPProxyConfig where
  "sample_proxy = \<lparr>smtpAuthMode = SMTPAuthPlain, SMTPEnsureSender = False, grpcAuthMode = SMTPPassthrough,
     OidcConfig = Some \<lparr>oidcTokenEndpoint = ''https://idp'', oidcClientID = ''proxy'', oidcClientSecret = ''s''\<rparr>,
     TokenProviderOptions = [], LoggingOnly = False, UseQueuing = True\<rparr>"

definition sample_client :: mail_client where
  "sample_client = \<lparr>cl_SendDryRun = (\<lambda>_ r. Ok r), cl_QueueMail = (\<lambda>_ _. Ok ''1''), cl_SendMail = (\<lambda>_ _. Ok ''1'')\<rparr>"

abbreviation sample_backend :: "OidcTokenProvider option backend" where
  "sample_backend \<equiv> proxy_backend sample_proxy sample_client sample_token_world 100 (\<lambda>_. ''b'') None"

definition sample_session :: "OidcTokenProvider option session" where
  "sample_session =
     snd (Rcpt sample_backend (snd (Rcpt sample_backend (snd (Mail sample_backend
       (snd (AuthPlain sample_backend (NewSession None) ''id'' ''key'')) ''ann@vis.ch'')) ''bob@vis.ch'')) ''eve@vis.ch'')"

lemma sample_parse_data:
  "parse_data sample_lib ''ann@vis.ch'' [''bob@vis.ch'', ''eve@vis.ch''] ''msg'' = Ok sample_received"
  by code_simp

lemma sample_session_sel:
  "sfrom sample_session = ''ann@vis.ch''" "recipients sample_session = [''bob@vis.ch'', ''eve@vis.ch'']"
  "isAuthenticated sample_session"
  by code_simp+

abbreviation sample_backends :: "OidcTokenProvider option backend set" where
  "sample_backends \<equiv> proxy_backends sample_proxy {sample_client} {sample_token_world}"

lemma sample_backend_mem: "sample_backend \<in> sample_backends"
  by (rule proxy_backends_mem) simp_all

lemma sample_session_reachable: "session_reachable sample_lib sample_backends (sample_session, [Logged_In ''id'' ''key''])"
proof -
  have "fst (AuthPlain sample_backend (NewSession None) ''id'' ''key'') = Ok ()" by code_simp
  from session_logs_in [OF session_reachable.start sample_backend_mem this] show ?thesis
    unfolding sample_session_def
    by (intro session_reachable.step [OF _ session_step.rcpt] session_reachable.step [OF _ session_step.mail]
        sample_backend_mem)
qed

lemma sample_handed:
  "fst (snd (Data sample_lib sample_backend sample_session ''msg'')) = [(sctx sample_session, sample_received)]"
  using sample_parse_data
  by (simp add: Data_def auth_missing_def sample_session_sel split: outcome.split prod.split)

lemma sample_data_reachable:
  "session_reachable sample_lib sample_backends
    (snd (snd (Data sample_lib sample_backend sample_session ''msg'')),
     [] @ Handed (sctx sample_session) sample_received # [Logged_In ''id'' ''key''])"
  using session_hands_over [OF sample_session_reachable sample_backend_mem sample_handed] by simp

end
