(* ===== verification/Api_Server.thy ===== *)
theory Api_Server
  imports Grpc_Mail Cli_Config
begin

text \<open>
  \<open>HandleNotificationsAPI\<close> (\<^verbatim>\<open>internal/cli/actions/grpc-api.go\<close>) with the constructors of
  \<^verbatim>\<open>internal/grpcservers/server.go\<close>: what is started from which settings, in which order the
  start can fail, and how the group of tasks ends. The migrations, the connection pool and
  the download of the keys are parameters.
\<close>

section \<open>The start\<close>

record api_config = api_settings +
  a_DatabaseDSN :: string
  a_DatabaseMigrationsDir :: string
  a_OIDCIssuerURL :: string
  a_OIDCClientID :: string
  a_OIDCJWKSURL :: string

record startup_world =
  open_db :: "string \<Rightarrow> bool"
  exec_migrations :: "string \<Rightarrow> string \<Rightarrow> nat option"   \<comment> \<open>how many were applied\<close>
  close_db :: "string \<Rightarrow> bool"
  new_pool :: "string \<Rightarrow> bool"
  fetch_jwks :: "string \<Rightarrow> bool"
  host_of_url :: "string \<Rightarrow> string option"

text \<open>\<open>MigrateDB\<close> (\<^verbatim>\<open>internal/database/database.go\<close>) with what it does to the connection. The
  deferred function joins the error of \<open>Close\<close> to \<open>err\<close>, which is not a named result: the error
  is lost.\<close>

datatype migration_event = Migrations_Applied nat | Db_Closed bool

definition MigrateDB :: "startup_world \<Rightarrow> string \<Rightarrow> string \<Rightarrow> (string, unit) outcome \<times> migration_event list" where
  "MigrateDB w dsn dir =
     (if \<not> open_db w dsn then (Err ''failed to open db for migrations'', [])
      else (case exec_migrations w dsn dir of
          None \<Rightarrow> (Err ''database migration failed'', [Db_Closed (close_db w dsn)])
        | Some applied \<Rightarrow> (Ok (), [Migrations_Applied applied, Db_Closed (close_db w dsn)])))"

lemma MigrateDB_Ok: "fst (MigrateDB w dsn dir) = Ok () \<longleftrightarrow> open_db w dsn \<and> exec_migrations w dsn dir \<noteq> None"
  by (simp add: MigrateDB_def split: option.split)

lemma MigrateDB_closes:
  assumes "open_db w dsn"
  shows "\<exists>es. snd (MigrateDB w dsn dir) = es @ [Db_Closed (close_db w dsn)]"
    and "fst (MigrateDB (w\<lparr>close_db := c\<rparr>) dsn dir) = fst (MigrateDB w dsn dir)"
  using assms by (auto simp: MigrateDB_def split: option.split)

text \<open>The function that gives the JWT library its key: one that always gives nil, or the keys
  published under a URL.\<close>

datatype key_source = Nil_Key | Jwks string

datatype task = Serve_Metrics | Stop_Metrics | Handle_Mail_Queue | Delete_Old_Mails | Serve_Grpc | Stop_Grpc

datatype api_error =
    Migration_Failed | No_Pool | No_Key_Set | Not_Started startup_error
  | Group_Failed "string option"

record SlackServer =
  slack_loggingOnly :: bool
  slack_unauthenticated :: bool

record notifications_api =
  api_database :: bool             \<comment> \<open>whether \<open>queries\<close> is not nil\<close>
  api_keys :: key_source
  api_issuer :: string
  api_client :: string
  api_mail_server :: MailServer
  api_sender :: backend_sender
  api_slack_server :: SlackServer
  api_tasks :: "task list"

definition NewMailServer :: "bool \<Rightarrow> bool \<Rightarrow> MailServer" where
  "NewMailServer logOnly unauth = \<lparr>loggingOnly = logOnly, unauthenticated = unauth\<rparr>"

definition NewSlackServer :: "bool \<Rightarrow> bool \<Rightarrow> SlackServer" where
  "NewSlackServer logOnly unauth = \<lparr>slack_loggingOnly = logOnly, slack_unauthenticated = unauth\<rparr>"

definition open_database :: "startup_world \<Rightarrow> api_config \<Rightarrow> (api_error, bool) outcome" where
  "open_database w c =
     (if a_LoggingOnly c then Ok False
      else if fst (MigrateDB w (a_DatabaseDSN c) (a_DatabaseMigrationsDir c)) \<noteq> Ok () then Err Migration_Failed
      else if \<not> new_pool w (a_DatabaseDSN c) then Err No_Pool
      else Ok True)"

definition jwt_keys :: "startup_world \<Rightarrow> api_config \<Rightarrow> (api_error, key_source) outcome" where
  "jwt_keys w c =
     (if a_GrpcUnauthenticated c then Ok Nil_Key
      else if \<not> fetch_jwks w (a_OIDCJWKSURL c) then Err No_Key_Set
      else Ok (Jwks (a_OIDCJWKSURL c)))"

definition group_tasks :: "api_config \<Rightarrow> task list" where
  "group_tasks c = [Serve_Metrics, Stop_Metrics]
     @ (if \<not> a_LoggingOnly c then [Handle_Mail_Queue, Delete_Old_Mails] else [])
     @ [Serve_Grpc, Stop_Grpc]"

definition start_api :: "startup_world \<Rightarrow> api_config \<Rightarrow> (api_error, notifications_api) outcome" where
  "start_api w c =
     obind (open_database w c) (\<lambda>db.
     obind (jwt_keys w c) (\<lambda>keys.
     (case select_backend (host_of_url w) (api_settings.truncate c) of
        Err e \<Rightarrow> Err (Not_Started e)
      | Panic p \<Rightarrow> Panic p
      | Ok sender \<Rightarrow> Ok
          \<lparr>api_database = db, api_keys = keys, api_issuer = a_OIDCIssuerURL c, api_client = a_OIDCClientID c,
           api_mail_server = NewMailServer (a_LoggingOnly c) (a_GrpcUnauthenticated c),
           api_sender = sender,
           api_slack_server = NewSlackServer (a_LoggingOnly c) (a_GrpcUnauthenticated c),
           api_tasks = group_tasks c\<rparr>)))"

section \<open>The group of tasks\<close>

text \<open>\<open>eg.Wait\<close> gives the first error in the order in which the tasks end; the caller wraps it,
  nil or not, in an error of its own.\<close>

fun group_wait :: "string option list \<Rightarrow> string option" where
  "group_wait [] = None"
| "group_wait (None # es) = group_wait es"
| "group_wait (Some e # es) = Some e"

definition HandleNotificationsAPI ::
    "startup_world \<Rightarrow> api_config \<Rightarrow> string option list \<Rightarrow> (api_error, unit) outcome" where
  "HandleNotificationsAPI w c ends =
     (case start_api w c of
        Err e \<Rightarrow> Err e
      | Panic p \<Rightarrow> Panic p
      | Ok _ \<Rightarrow> Err (Group_Failed (group_wait ends)))"

text \<open>The sender that the mail service asks for the \<open>From\<close> address.\<close>

definition backend_GetSender :: "backend_sender \<Rightarrow> address \<Rightarrow> address" where
  "backend_GetSender b = (case b of SMTP_Sender s \<Rightarrow> smtp_GetSender s | Graph_Sender g \<Rightarrow> graph_GetSender g)"

definition backend_MessageIDSuffix :: "backend_sender \<Rightarrow> string" where
  "backend_MessageIDSuffix b = (case b of SMTP_Sender s \<Rightarrow> smtp_MessageIDSuffix s
     | Graph_Sender g \<Rightarrow> graph_MessageIDSuffix g)"

section \<open>What a started API is\<close>

lemma start_api_Ok:
  "start_api w c = Ok api \<longleftrightarrow>
     (\<exists>db keys sender. open_database w c = Ok db \<and> jwt_keys w c = Ok keys
        \<and> select_backend (host_of_url w) (api_settings.truncate c) = Ok sender
        \<and> api = \<lparr>api_database = db, api_keys = keys, api_issuer = a_OIDCIssuerURL c, api_client = a_OIDCClientID c,
           api_mail_server = NewMailServer (a_LoggingOnly c) (a_GrpcUnauthenticated c), api_sender = sender,
           api_slack_server = NewSlackServer (a_LoggingOnly c) (a_GrpcUnauthenticated c),
           api_tasks = group_tasks c\<rparr>)"
  unfolding start_api_def
  by (cases "open_database w c"; cases "jwt_keys w c";
      cases "select_backend (host_of_url w) (api_settings.truncate c)") auto

lemma open_database_Ok:
  "open_database w c = Ok db \<longleftrightarrow>
     (if a_LoggingOnly c then \<not> db
      else db \<and> open_db w (a_DatabaseDSN c) \<and> exec_migrations w (a_DatabaseDSN c) (a_DatabaseMigrationsDir c) \<noteq> None
        \<and> new_pool w (a_DatabaseDSN c))"
  by (auto simp: open_database_def MigrateDB_Ok)

lemma jwt_keys_Ok:
  "jwt_keys w c = Ok keys \<longleftrightarrow>
     (if a_GrpcUnauthenticated c then keys = Nil_Key
      else fetch_jwks w (a_OIDCJWKSURL c) \<and> keys = Jwks (a_OIDCJWKSURL c))"
  by (auto simp: jwt_keys_def)

text \<open>The database is there exactly where the tasks that need it are started, and an API that
  authenticates its callers has the published keys.\<close>

lemma started_api:
  assumes "start_api w c = Ok api"
  shows "api_database api \<longleftrightarrow> \<not> loggingOnly (api_mail_server api)"
    and "Handle_Mail_Queue \<in> set (api_tasks api) \<longleftrightarrow> api_database api"
    and "Delete_Old_Mails \<in> set (api_tasks api) \<longleftrightarrow> api_database api"
    and "\<not> unauthenticated (api_mail_server api) \<Longrightarrow> api_keys api = Jwks (a_OIDCJWKSURL c)"
    and "loggingOnly (api_mail_server api) = a_LoggingOnly c"
    and "unauthenticated (api_mail_server api) = a_GrpcUnauthenticated c"
  using assms
  by (auto simp: start_api_Ok open_database_Ok jwt_keys_Ok group_tasks_def NewMailServer_def split: if_splits)

lemma HandleNotificationsAPI_never_Ok: "HandleNotificationsAPI w c ends \<noteq> Ok u"
  by (simp add: HandleNotificationsAPI_def split: outcome.split)

end
