(* ===== verification/Service.thy ===== *)
theory Service
  imports Api_Server
begin

text \<open>
  The running service: calls that are answered by the mail service while dispatchers, in this
  process or in others on the same database, take mails from the queue. The steps of the parts
  interleave freely: a call performs its effects one by one; the statement with which a dispatcher
  pops a mail chooses a row in one step and updates it in a later one, and the dispatcher transmits
  the mail and writes its status in a third; and either may die in between.
\<close>

section \<open>The state and its steps\<close>

text \<open>A call as it came in: what the world is for it, its metadata and its request.\<close>

type_synonym received_call = "mail_world \<times> grpc_context \<times> pb_mail"

record service =
  table :: mails_table
  received :: "received_call list"      \<comment> \<open>all calls that came in\<close>
  calls :: "mail_effect list list"      \<comment> \<open>of the calls in flight: what is left to do\<close>
  selecting :: "(nat \<times> int) list"       \<comment> \<open>pop statements under way: the row chosen, and their \<open>NOW()\<close>\<close>
  popped :: "mail_entry list"           \<comment> \<open>what the dispatchers have taken and not yet handled\<close>
  attempts :: "(nat \<times> mail) list"       \<comment> \<open>transmissions by dispatchers, with the mail's ID\<close>
  direct :: "mail list"                 \<comment> \<open>transmissions by calls\<close>

datatype rpc = Rpc_QueueMail | Rpc_SendMail | Rpc_SendDryRun

text \<open>A call behind the interceptor, as its effects.\<close>

definition rpc_effects :: "rpc \<Rightarrow> mail_world \<Rightarrow> MailServer \<Rightarrow> pb_mail \<Rightarrow> grpc_context \<Rightarrow> mail_effect list" where
  "rpc_effects k w s req ctx = (case k of
      Rpc_QueueMail \<Rightarrow> snd (QueueMail w s ctx req)
    | Rpc_SendMail \<Rightarrow> snd (SendMail w s ctx req)
    | Rpc_SendDryRun \<Rightarrow> snd (SendDryRun w s ctx req))"

definition serve_rpc ::
    "(key_source \<Rightarrow> jwt_parser) \<Rightarrow> notifications_api \<Rightarrow> rpc \<Rightarrow> mail_world \<Rightarrow> pb_mail \<Rightarrow> grpc_context \<Rightarrow> mail_effect list" where
  "serve_rpc jwt api k w req ctx =
     GetGrpcAuthInterceptor (jwt (api_keys api)) (api_issuer api) (api_client api) ctx
       (rpc_effects k w (api_mail_server api) req)"

text \<open>One effect: a row is inserted where the database takes it (\<open>up\<close>).\<close>

definition perform :: "bool \<Rightarrow> mail_effect \<Rightarrow> service \<Rightarrow> service" where
  "perform up e s = (case e of
      Transmitted m \<Rightarrow> s\<lparr>direct := direct s @ [m]\<rparr>
    | Created row st _ \<Rightarrow> if up then s\<lparr>table := sql_CreateMail row st (table s)\<rparr> else s)"

text \<open>
  \<open>overlap\<close> says whether the pop statements of dispatchers may overlap. Those of one process do not:
  its dispatcher is one loop.
\<close>

inductive service_step ::
    "bool \<Rightarrow> (key_source \<Rightarrow> jwt_parser) \<Rightarrow> address_parser \<Rightarrow> notifications_api \<Rightarrow> service \<Rightarrow> service \<Rightarrow> bool"
  for overlap jwt pa api where
  call: "claims ctx = None \<Longrightarrow> w_parse_address w = pa \<Longrightarrow> w_GetSender w = backend_GetSender (api_sender api)
    \<Longrightarrow> service_step overlap jwt pa api s
      (s\<lparr>received := (w, ctx, req) # received s, calls := serve_rpc jwt api k w req ctx # calls s\<rparr>)"
| effect: "calls s = cs @ (e # es) # cs' \<Longrightarrow> api_database api \<or> (\<exists>m. e = Transmitted m)
    \<Longrightarrow> service_step overlap jwt pa api s (perform up e (s\<lparr>calls := cs @ es # cs'\<rparr>))"
| hang_up: "calls s = cs @ es # cs' \<Longrightarrow> service_step overlap jwt pa api s (s\<lparr>calls := cs @ cs'\<rparr>)"
| wait: "service_step overlap jwt pa api s (s\<lparr>table := pass delay (table s)\<rparr>)"
| select: "Handle_Mail_Queue \<in> set (api_tasks api) \<Longrightarrow> overlap \<or> selecting s = []
    \<Longrightarrow> pop_select choice retryFailedIntervalMicroseconds (table s) = Some i
    \<Longrightarrow> service_step overlap jwt pa api s (s\<lparr>selecting := (i, clock (table s)) # selecting s\<rparr>)"
| update: "selecting s = xs @ (i, now) # ys \<Longrightarrow> pop_update now i (table s) = (rs, db)
    \<Longrightarrow> service_step overlap jwt pa api s (s\<lparr>table := db, selecting := xs @ ys, popped := rs @ popped s\<rparr>)"
| abandon: "selecting s = xs @ x # ys \<Longrightarrow> service_step overlap jwt pa api s (s\<lparr>selecting := xs @ ys\<rparr>)"
| handle: "popped s = rs @ r # rs' \<Longrightarrow> handle_popped transmit pa r = (res, a, st)
    \<Longrightarrow> service_step overlap jwt pa api s (s\<lparr>table := snd (SetMailStatus (pg_queries up delay choice) (ID r) st (table s)),
          popped := rs @ rs', attempts := attempts s @ a\<rparr>)"
| die: "popped s = rs @ r # rs' \<Longrightarrow> handle_popped transmit pa r = (res, a, st) \<Longrightarrow> a' \<in> {[], a}
    \<Longrightarrow> service_step overlap jwt pa api s (s\<lparr>popped := rs @ rs', attempts := attempts s @ a'\<rparr>)"
| delete: "Delete_Old_Mails \<in> set (api_tasks api)
    \<Longrightarrow> service_step overlap jwt pa api s (s\<lparr>table := sql_DeleteOldMails (keepMailsForIntervalDays * 86400000000) (table s)\<rparr>)"

definition start_service :: "int \<Rightarrow> (int \<Rightarrow> int) \<Rightarrow> service" where
  "start_service t z = \<lparr>table = \<lparr>rows = [], next_id = 1, clock = t, local_zone = z\<rparr>, received = [], calls = [],
     selecting = [], popped = [], attempts = [], direct = []\<rparr>"

inductive service_reachable ::
    "bool \<Rightarrow> (key_source \<Rightarrow> jwt_parser) \<Rightarrow> address_parser \<Rightarrow> notifications_api \<Rightarrow> service \<Rightarrow> bool"
  for overlap jwt pa api where
  start: "service_reachable overlap jwt pa api (start_service t z)"
| step: "service_reachable overlap jwt pa api s \<Longrightarrow> service_step overlap jwt pa api s s' \<Longrightarrow> service_reachable overlap jwt pa api s'"

lemma service_reachable_steps:
  "(service_step overlap jwt pa api)\<^sup>*\<^sup>* s s' \<Longrightarrow> service_reachable overlap jwt pa api s
    \<Longrightarrow> service_reachable overlap jwt pa api s'"
  by (induction rule: rtranclp_induct) (auto intro: service_reachable.step)

section \<open>The table stays well-formed\<close>

definition service_inv :: "service \<Rightarrow> bool" where
  "service_inv s \<longleftrightarrow> table_inv (table s) \<and> (\<forall>x \<in> set (selecting s). snd x \<le> clock (table s))"

lemma clock_SetMailStatus: "clock db \<le> clock (snd (SetMailStatus (pg_queries up delay choice) i st db))"
  by (simp add: pg_queries_def sql_SetMailStatus_def pass_def)

lemma clock_CreateMail: "clock (sql_CreateMail row st db) = clock db"
  by (simp add: sql_CreateMail_def)

lemma table_inv_set: "table_inv db \<Longrightarrow> table_inv (snd (SetMailStatus (pg_queries up delay choice) i st db))"
  by (simp add: pg_queries_def table_inv_SetMailStatus table_inv_pass)

lemma service_inv_step: "service_step overlap jwt pa api s s' \<Longrightarrow> service_inv s \<Longrightarrow> service_inv s'"
proof (induction rule: service_step.induct)
  case (effect s cs e es cs' up)
  then show ?case by (cases e) (auto simp: service_inv_def perform_def table_inv_CreateMail clock_CreateMail)
next
  case (wait s delay)
  have "clock (table s) \<le> clock (pass delay (table s))" by (simp add: pass_def)
  with wait show ?case by (fastforce simp: service_inv_def table_inv_pass)
next
  case (update s xs i now ys rs db)
  then show ?case using table_inv_pop_update [of "table s" now i] pop_update_sel(2) [of now i "table s"]
    by (auto simp: service_inv_def)
next
  case (handle s rs r rs' transmit res a st up delay choice)
  then show ?case using clock_SetMailStatus [of "table s" up delay choice "ID r" st]
    by (fastforce simp: service_inv_def table_inv_set)
next
  case (delete s)
  then show ?case by (simp add: service_inv_def table_inv_DeleteOldMails) (simp add: sql_DeleteOldMails_def)
qed (auto simp: service_inv_def)

lemma service_inv_reachable: "service_reachable overlap jwt pa api s \<Longrightarrow> service_inv s"
proof (induction rule: service_reachable.induct)
  case (start t z)
  show ?case by (simp add: start_service_def service_inv_def table_inv_def)
qed (rule service_inv_step)

section \<open>Nothing is transmitted twice where the pop statements do not overlap\<close>

text \<open>The IDs that dispatchers hold or have tried.\<close>

definition taken :: "service \<Rightarrow> nat list" where
  "taken s = map ID (popped s) @ map fst (attempts s)"

definition once_inv :: "service \<Rightarrow> bool" where
  "once_inv s \<longleftrightarrow> distinct (taken s) \<and> set (taken s) \<inter> submitted (table s) = {}
     \<and> (\<forall>i \<in> set (taken s). i < next_id (table s))
     \<and> length (selecting s) \<le> 1 \<and> fst ` set (selecting s) \<subseteq> submitted (table s)"

lemma once_invD:
  assumes "once_inv s"
  shows "distinct (taken s)" "set (taken s) \<inter> submitted (table s) = {}"
    "i \<in> set (taken s) \<Longrightarrow> i < next_id (table s)" "length (selecting s) \<le> 1"
    "fst ` set (selecting s) \<subseteq> submitted (table s)"
  using assms by (simp_all add: once_inv_def)

lemma once_inv_mono:
  assumes "once_inv s" and "distinct (taken s')" and "set (taken s') \<subseteq> set (taken s)"
    and "submitted (table s') = submitted (table s)" and "next_id (table s') = next_id (table s)"
    and "selecting s' = selecting s"
  shows "once_inv s'"
  using assms unfolding once_inv_def by auto

lemma handle_popped_ids: "handle_popped transmit pa r = (res, a, st) \<Longrightarrow> map fst a \<in> {[], [ID r]}"
  and handle_popped_status: "handle_popped transmit pa r = (res, a, st) \<Longrightarrow> st \<in> {Failed, Sent}"
  by (auto simp: handle_popped_def split: outcome.splits)

lemma distinct_move:
  assumes "distinct (xs @ i # ys @ zs)" and "b \<in> {[], [i]}"
  shows "distinct (xs @ ys @ zs @ b) \<and> set (xs @ ys @ zs @ b) \<subseteq> set (xs @ i # ys @ zs)"
  using assms by auto

text \<open>A dispatcher that is done with its mail leaves at most that mail among the tried ones.\<close>

lemma taken_done:
  assumes "popped s = rs @ r # rs'" and "map fst a \<in> {[], [ID r]}" and "distinct (taken s)"
    and "popped s' = rs @ rs'" and "attempts s' = attempts s @ a"
  shows "distinct (taken s')" and "set (taken s') \<subseteq> set (taken s)"
proof -
  have "taken s' = map ID rs @ map ID rs' @ map fst (attempts s) @ map fst a"
    "taken s = map ID rs @ ID r # map ID rs' @ map fst (attempts s)"
    using assms(1,4,5) by (simp_all add: taken_def)
  with distinct_move [OF _ assms(2)] assms(3)
  show "distinct (taken s')" and "set (taken s') \<subseteq> set (taken s)" by (simp_all del: distinct_append set_append)
qed

lemma next_id_Create: "next_id (sql_CreateMail row st db) = Suc (next_id db)"
  by (simp add: sql_CreateMail_def)

lemma once_inv_perform:
  assumes "once_inv s" and "table_inv (table s)" shows "once_inv (perform up e s)"
proof (cases e)
  case (Created row st d)
  have "taken (s\<lparr>table := db\<rparr>) = taken s" for db by (simp add: taken_def)
  with Created once_invD [OF assms(1)] submitted_less [OF assms(2)] show ?thesis
    by (auto simp: perform_def once_inv_def submitted_CreateMail next_id_Create less_Suc_eq)
next
  case (Transmitted m)
  then show ?thesis using assms(1) by (simp add: perform_def once_inv_def taken_def)
qed

text \<open>What a statement returns that updates a submitted row.\<close>

lemma pop_update_row:
  assumes "table_inv db" and "i \<in> submitted db"
  shows "\<exists>r. r \<in> set (rows db) \<and> ID r = i \<and> Status r = Submitted \<and> fst (pop_update now i db) = [set_processing now i r]"
proof -
  obtain r where "r \<in> set (rows db)" "ID r = i" "Status r = Submitted" using assms(2) by (auto simp: in_submitted)
  with filter_ID [of "rows db" r now i] assms(1) show ?thesis by (auto simp: pop_update_def Let_def table_inv_def)
qed

lemma pop_select_submitted:
  assumes "table_inv db" and "pop_select choice retryFailedIntervalMicroseconds db = Some i"
  shows "i \<in> submitted db"
proof -
  let ?cand = "filter (poppable (clock db) retryFailedIntervalMicroseconds) (rows db)"
  define n where "n = choice db mod length ?cand"
  have n: "n < length ?cand" and i: "i = ID (?cand ! n)"
    using assms(2) unfolding pop_select_def Let_def n_def by (auto split: if_splits)
  from nth_mem [OF n] have "?cand ! n \<in> set (rows db)" "poppable (clock db) retryFailedIntervalMicroseconds (?cand ! n)"
    by auto
  then show ?thesis
    using poppable_inv [OF assms(1)] by (auto simp: i in_submitted retryFailedIntervalMicroseconds_def)
qed

lemma once_inv_step: "service_step False jwt pa api s s' \<Longrightarrow> service_inv s \<Longrightarrow> once_inv s \<Longrightarrow> once_inv s'"
proof (induction rule: service_step.induct)
  case (effect s cs e es cs' up)
  then have "once_inv (s\<lparr>calls := cs @ es # cs'\<rparr>)" by (simp add: once_inv_def taken_def)
  moreover have "table_inv (table (s\<lparr>calls := cs @ es # cs'\<rparr>))" using effect by (simp add: service_inv_def)
  ultimately show ?case by (rule once_inv_perform)
next
  case (wait s delay)
  then show ?case by (simp add: once_inv_def taken_def) (simp add: pass_def)
next
  case (select s choice i)
  then show ?case using pop_select_submitted [of "table s" choice i] by (auto simp: once_inv_def service_inv_def taken_def)
next
  case (update s xs i now ys rs db)
  note inv = once_invD [OF update(4)]
  have none: "xs = []" "ys = []" and i: "i \<in> submitted (table s)" using inv(4,5) update(1) by auto
  have tab: "table_inv (table s)" using update(3) by (simp add: service_inv_def)
  obtain r where "ID r = i" "rs = [set_processing now i r]"
    using pop_update_row [OF tab i, of now] update(2) by auto
  moreover have "submitted db = submitted (table s) - {i}" "next_id db = next_id (table s)"
    using submitted_pop_update [of now i "table s"] pop_update_sel(1) [of now i "table s"] update(2) by auto
  ultimately show ?case
    using inv none i submitted_less [OF tab i] by (auto simp: once_inv_def taken_def)
next
  case (handle s rs r rs' transmit res a st up delay choice)
  note inv = once_invD [OF handle(4)]
  have not_waiting: "ID r \<notin> submitted (table s)" using inv(2) handle(1) by (auto simp: taken_def)
  have "table_inv (table s)" using handle(3) by (simp add: service_inv_def)
  from pg_set [OF this handle_popped_status [OF handle(2)] not_waiting]
  have "submitted (snd (SetMailStatus (pg_queries up delay choice) (ID r) st (table s))) = submitted (table s)" by blast
  then show ?case
    by (intro once_inv_mono [OF handle(4)])
       (use next_id_set taken_done [OF handle(1) handle_popped_ids [OF handle(2)] inv(1)] in simp_all)
next
  case (die s rs r rs' transmit res a st a')
  have "map fst a' \<in> {[], [ID r]}" using handle_popped_ids [OF die(2)] die(3) by auto
  note left = taken_done [OF die(1) this once_invD(1) [OF die(5)]]
  show ?case
    by (rule once_inv_mono [OF die(5)]) (use left in simp_all)
next
  case (delete s)
  then have "sql_DeleteOldMails (keepMailsForIntervalDays * 86400000000) (table s) = table s"
    by (intro DeleteOldMails_keeps_all) (simp_all add: service_inv_def keepMailsForIntervalDays_def)
  with delete show ?case by simp
qed (auto simp: once_inv_def taken_def)

lemma once_inv_reachable: "service_reachable False jwt pa api s \<Longrightarrow> once_inv s"
proof (induction rule: service_reachable.induct)
  case (start t z)
  show ?case by (simp add: start_service_def once_inv_def taken_def)
next
  case (step s s')
  then show ?case using once_inv_step service_inv_reachable by blast
qed

section \<open>Nothing is transmitted that no caller has asked for\<close>

text \<open>A mail that the service made of a call that came in, with a token that allows it.\<close>

definition asked_for ::
    "(key_source \<Rightarrow> jwt_parser) \<Rightarrow> address_parser \<Rightarrow> notifications_api \<Rightarrow> mail \<Rightarrow> received_call \<Rightarrow> bool" where
  "asked_for jwt pa api m c \<longleftrightarrow> (case c of (w, ctx, req) \<Rightarrow>
     w_parse_address w = pa \<and> w_GetSender w = backend_GetSender (api_sender api)
     \<and> (\<exists>md tok. metadata ctx = Some md \<and> md_get md ''Authorization'' = [''Bearer '' @ tok]
          \<and> token_allows (jwt (api_keys api)) (api_issuer api) (api_client api) tok m)
     \<and> (\<exists>ctx'. fst (preprocessIncomingMailRequest w (api_mail_server api) ctx' req) = Ok m))"

abbreviation requested ::
    "(key_source \<Rightarrow> jwt_parser) \<Rightarrow> address_parser \<Rightarrow> notifications_api \<Rightarrow> received_call list \<Rightarrow> mail \<Rightarrow> bool" where
  "requested jwt pa api cs m \<equiv> \<exists>c \<in> set cs. asked_for jwt pa api m c"

text \<open>What is read from the row of such a mail, in whatever zone.\<close>

definition requested_row ::
    "(key_source \<Rightarrow> jwt_parser) \<Rightarrow> address_parser \<Rightarrow> notifications_api \<Rightarrow> received_call list \<Rightarrow> mail_row \<Rightarrow> bool" where
  "requested_row jwt pa api cs row \<longleftrightarrow>
     (\<exists>m z row0. requested jwt pa api cs m \<and> MailToDBEntity m = Ok row0 \<and> row = row_in_zone z row0)"

definition requested_effect ::
    "(key_source \<Rightarrow> jwt_parser) \<Rightarrow> address_parser \<Rightarrow> notifications_api \<Rightarrow> received_call list \<Rightarrow> mail_effect \<Rightarrow> bool" where
  "requested_effect jwt pa api cs e \<longleftrightarrow> (\<exists>m. requested jwt pa api cs m \<and> effect_of m e)"

lemma rpc_effects_subset:
  "set (rpc_effects k w s req c) \<subseteq> set (snd (QueueMail w s c req) @ snd (SendMail w s c req) @ snd (SendDryRun w s c req))"
  by (cases k) (auto simp: rpc_effects_def)

lemma serve_rpc_requested:
  assumes "claims ctx = None" and "w_parse_address w = pa" and "w_GetSender w = backend_GetSender (api_sender api)"
    and "\<not> unauthenticated (api_mail_server api)"
  shows "list_all (requested_effect jwt pa api ((w, ctx, req) # cs)) (serve_rpc jwt api k w req ctx)"
  unfolding list_all_iff
proof
  fix e
  assume "e \<in> set (serve_rpc jwt api k w req ctx)"
  then have "e \<in> set (GetGrpcAuthInterceptor (jwt (api_keys api)) (api_issuer api) (api_client api) ctx
      (\<lambda>c. snd (QueueMail w (api_mail_server api) c req) @ snd (SendMail w (api_mail_server api) c req)
        @ snd (SendDryRun w (api_mail_server api) c req)))"
    unfolding serve_rpc_def GetGrpcAuthInterceptor_def by (rule subsetD [OF rpc_effects_subset])
  from intercepted_effect [OF assms(1,4) this] obtain m md tok ctx' req' where m: "metadata ctx = Some md"
    "md_get md ''Authorization'' = [''Bearer '' @ tok]"
    "token_allows (jwt (api_keys api)) (api_issuer api) (api_client api) tok m" "effect_of m e"
    "preprocessIncomingMailRequest w (api_mail_server api) ctx' req = (Ok m, req')" by blast
  then have "fst (preprocessIncomingMailRequest w (api_mail_server api) ctx' req) = Ok m" by simp
  with m(1-3) assms(2,3) have "asked_for jwt pa api m (w, ctx, req)" by (auto simp: asked_for_def)
  with m(4) show "requested_effect jwt pa api ((w, ctx, req) # cs) e" by (auto simp: requested_effect_def)
qed

definition requested_inv ::
    "(key_source \<Rightarrow> jwt_parser) \<Rightarrow> address_parser \<Rightarrow> notifications_api \<Rightarrow> service \<Rightarrow> bool" where
  "requested_inv jwt pa api s \<longleftrightarrow>
     list_all (list_all (requested_effect jwt pa api (received s))) (calls s)
     \<and> all_rows (requested_row jwt pa api (received s)) (table s)
     \<and> list_all (\<lambda>r. requested_row jwt pa api (received s) (Row r)) (popped s)
     \<and> list_all (requested jwt pa api (received s)) (direct s)
     \<and> list_all (\<lambda>a. \<exists>row. requested_row jwt pa api (received s) row \<and> DBEntityToMail pa row = Ok (snd a)) (attempts s)"

text \<open>A call that comes in takes nothing back.\<close>

lemma requested_mono:
  "requested_effect jwt pa api cs e \<Longrightarrow> requested_effect jwt pa api (c # cs) e"
  "requested_row jwt pa api cs row \<Longrightarrow> requested_row jwt pa api (c # cs) row"
  by (auto simp: requested_effect_def requested_row_def)

lemma requested_inv_receive:
  assumes "requested_inv jwt pa api s" and "list_all (requested_effect jwt pa api (c # received s)) es"
  shows "requested_inv jwt pa api (s\<lparr>received := c # received s, calls := es # calls s\<rparr>)"
  using assms requested_mono(1) [of jwt pa api "received s" _ c] requested_mono(2) [of jwt pa api "received s" _ c]
  unfolding requested_inv_def stored_rows_def list_all_iff by simp blast

lemma all_rows_Create:
  "all_rows good (sql_CreateMail row st db) \<longleftrightarrow> all_rows good db \<and> good (row_in_zone (local_zone db) row)"
  by (auto simp: stored_rows_def sql_CreateMail_def)

lemma handle_popped_mails:
  "handle_popped transmit pa r = (res, a, st) \<Longrightarrow> x \<in> set a \<Longrightarrow> DBEntityToMail pa (Row r) = Ok (snd x)"
  by (auto simp: handle_popped_def split: outcome.splits)

lemma requested_inv_perform:
  assumes "requested_inv jwt pa api s" and "requested_effect jwt pa api (received s) e"
  shows "requested_inv jwt pa api (perform up e s)"
proof (cases e)
  case (Created row st d)
  with assms(2) obtain m where "requested jwt pa api (received s) m" "MailToDBEntity m = Ok row"
    by (auto simp: requested_effect_def effect_of_def create_effect_def)
  then have "requested_row jwt pa api (received s) (row_in_zone (local_zone (table s)) row)"
    unfolding requested_row_def by blast
  with assms(1) Created show ?thesis by (simp add: perform_def requested_inv_def all_rows_Create)
next
  case (Transmitted m)
  with assms show ?thesis
    by (auto simp: perform_def requested_inv_def requested_effect_def effect_of_def create_effect_def)
qed

lemma requested_inv_attempt:
  assumes "requested_inv jwt pa api s" and "popped s = rs @ r # rs'" and "handle_popped transmit pa r = (res, a, st)"
    and "set a' \<subseteq> set a" and "all_rows (requested_row jwt pa api (received s)) db"
  shows "requested_inv jwt pa api (s\<lparr>table := db, popped := rs @ rs', attempts := attempts s @ a'\<rparr>)"
  using assms handle_popped_mails [OF assms(3)] by (fastforce simp: requested_inv_def list_all_iff)

lemma pop_update_rows:
  assumes "stored_rows good db" and "pop_update now i db = (rs, db')"
  shows "stored_rows good db'" and "r \<in> set rs \<Longrightarrow> good (ID r) (Row r)"
proof -
  have db': "db' = db\<lparr>rows := map (set_processing now i) (rows db)\<rparr>"
    and rs: "rs = filter (\<lambda>m. ID m = i) (map (set_processing now i) (rows db))"
    using assms(2) by (simp_all add: pop_update_def Let_def)
  show "stored_rows good db'" using assms(1) by (simp add: db' stored_rows_def list_all_iff)
  assume "r \<in> set rs"
  then obtain x where "x \<in> set (rows db)" "r = set_processing now i x" by (auto simp: rs)
  with assms(1) show "good (ID r) (Row r)" by (simp add: stored_rows_def list_all_iff)
qed

lemma requested_inv_step:
  assumes "service_step overlap jwt pa api s s'" and "\<not> unauthenticated (api_mail_server api)" and "requested_inv jwt pa api s"
  shows "requested_inv jwt pa api s'"
  using assms
proof (induction rule: service_step.induct)
  case (call ctx w s req k)
  then show ?case using serve_rpc_requested [OF call(1,2,3)] by (intro requested_inv_receive)
next
  case (effect s cs e es cs' up)
  then have "requested_inv jwt pa api (s\<lparr>calls := cs @ es # cs'\<rparr>)"
    "requested_effect jwt pa api (received (s\<lparr>calls := cs @ es # cs'\<rparr>)) e"
    by (simp_all add: requested_inv_def)
  then show ?case by (rule requested_inv_perform)
next
  case (wait s delay)
  then show ?case by (simp add: requested_inv_def stored_rows_def pass_def)
next
  case (update s xs i now ys rs db)
  from pop_update_rows [OF _ update(2), of "\<lambda>_. requested_row jwt pa api (received s)"] update(4)
  show ?case by (auto simp: requested_inv_def list_all_iff)
next
  case (handle s rs r rs' transmit res a st up delay choice)
  then show ?case
    by (intro requested_inv_attempt [OF handle(4,1,2)] stored_rows_set) (simp_all add: requested_inv_def)
next
  case (die s rs r rs' transmit res a st a')
  then have "requested_inv jwt pa api (s\<lparr>table := table s, popped := rs @ rs', attempts := attempts s @ a'\<rparr>)"
    by (intro requested_inv_attempt [OF die(5,1,2)]) (auto simp: requested_inv_def)
  then show ?case by simp
next
  case (delete s)
  then show ?case by (auto simp: requested_inv_def stored_rows_def sql_DeleteOldMails_def list_all_iff)
qed (simp_all add: requested_inv_def)

lemma requested_inv_reachable:
  assumes "\<not> unauthenticated (api_mail_server api)"
  shows "service_reachable overlap jwt pa api s \<Longrightarrow> requested_inv jwt pa api s"
proof (induction rule: service_reachable.induct)
  case (start t z)
  show ?case by (simp add: start_service_def requested_inv_def stored_rows_def)
next
  case (step s s')
  then show ?case using requested_inv_step [OF step(2) assms] by blast
qed

text \<open>What is sent, directly or from the queue, is a mail that was asked for, as it is read back.\<close>

lemma sent_was_requested:
  assumes "service_reachable overlap jwt pa api s" and "\<not> unauthenticated (api_mail_server api)"
    and "m \<in> set (direct s) \<union> snd ` set (attempts s)"
  shows "\<exists>c \<in> set (received s). \<exists>m0. asked_for jwt pa api m0 c
    \<and> (m = m0 \<or> (\<exists>z row. MailToDBEntity m0 = Ok row \<and> DBEntityToMail pa (row_in_zone z row) = Ok m))"
  using requested_inv_reachable [OF assms(2,1)] assms(3)
  by (fastforce simp: requested_inv_def list_all_iff requested_row_def)

text \<open>Where the parser reads back the addresses it has accepted, only the zone of the date may differ, and
  what cannot be stored of its parts.\<close>

lemma sent_as_requested:
  assumes "service_reachable overlap jwt pa api s" and "\<not> unauthenticated (api_mail_server api)"
    and "m \<in> set (direct s) \<union> snd ` set (attempts s)"
    and "\<forall>a. address_sane pa a \<longrightarrow> pa (address_String a) = Some a"
  shows "\<exists>c \<in> set (received s). \<exists>m0 m1. asked_for jwt pa api m0 c
    \<and> (m1 = m0 \<or> (\<exists>z. m1 = mail_in_zone z m0))
    \<and> m = m1\<lparr>ContentType := ContentType m, Headers := Headers m, Body := Body m\<rparr>
    \<and> (mail_storable m0 \<and> (\<forall>a \<in> set (all_addresses m0). Address a \<noteq> []) \<longrightarrow> m = m1)"
proof -
  from sent_was_requested [OF assms(1-3)] obtain c m0 where c: "c \<in> set (received s)" "asked_for jwt pa api m0 c"
    and m: "m = m0 \<or> (\<exists>z row. MailToDBEntity m0 = Ok row \<and> DBEntityToMail pa (row_in_zone z row) = Ok m)" by blast
  show ?thesis
  proof (cases "m = m0")
    case False
    with m obtain z row where row: "MailToDBEntity m0 = Ok row" "DBEntityToMail pa (row_in_zone z row) = Ok m" by blast
    obtain w ctx req where "c = (w, ctx, req)" by (cases c) blast
    with c(2) have w: "w_parse_address w = pa"
      "\<exists>ctx'. fst (preprocessIncomingMailRequest w (api_mail_server api) ctx' req) = Ok m0"
      by (auto simp: asked_for_def)
    then obtain ctx' req' where "preprocessIncomingMailRequest w (api_mail_server api) ctx' req = (Ok m0, req')"
      by (metis prod.collapse)
    from preprocess_recipients(2) [OF this] w(1) assms(4)
    have pa: "list_all (\<lambda>a. pa (address_String a) = Some a) (all_addresses m0)" by (simp add: list_all_iff)
    then have "list_all (\<lambda>a. pa (address_String a) = Some a) (all_addresses (mail_in_zone z m0))"
      by (simp add: all_addresses_def)
    from row_read_back [OF MailToDBEntity_in_zone [OF row(1)] row(2) this]
    have "m = (mail_in_zone z m0)\<lparr>ContentType := ContentType m, Headers := Headers m, Body := Body m\<rparr>" .
    moreover have "m = mail_in_zone z m0" if "mail_storable m0" "\<forall>a \<in> set (all_addresses m0). Address a \<noteq> []"
    proof -
      have "list_all (\<lambda>a. pa (address_String a) = Some a \<and> Address a \<noteq> []) (all_addresses m0)"
        using pa that(2) by (simp add: list_all_iff)
      from DBEntityToMail_MailToDBEntity [OF that(1) this] row show ?thesis by (simp add: DBEntityToMail_in_zone)
    qed
    ultimately show ?thesis using c by blast
  next
    case True
    show ?thesis by (rule bexI [OF _ c(1)], rule exI [of _ m0], rule exI [of _ m0]) (simp add: True c(2))
  qed
qed

section \<open>A round of one dispatcher\<close>

text \<open>What \<open>popAndHandleMail\<close> does in one go are steps of this machine where no other pop is under way:
  time passes, a row is chosen, updated and handled.\<close>

lemma chosen_update_steps:
  assumes "Handle_Mail_Queue \<in> set (api_tasks api)" and "selecting s = []"
    and "sql_PopMailForProcessing choice retryFailedIntervalMicroseconds (table s) = (r # rs, db)"
  shows "(service_step overlap jwt pa api)\<^sup>*\<^sup>* s (s\<lparr>table := db, popped := (r # rs) @ popped s\<rparr>)"
proof -
  from assms(3) obtain i where i: "pop_select choice retryFailedIntervalMicroseconds (table s) = Some i"
    "pop_update (clock (table s)) i (table s) = (r # rs, db)"
    by (auto simp: sql_PopMailForProcessing_def split: option.splits)
  let ?s = "s\<lparr>selecting := (i, clock (table s)) # selecting s\<rparr>"
  have "service_step overlap jwt pa api s ?s"
    using assms(1,2) i(1) by (intro service_step.select) simp_all
  moreover have "service_step overlap jwt pa api ?s
      (?s\<lparr>table := db, selecting := [] @ selecting s, popped := (r # rs) @ popped ?s\<rparr>)"
    by (rule service_step.update [of ?s "[]" i "clock (table s)" "selecting s"]) (simp_all add: i(2))
  then have "service_step overlap jwt pa api ?s (s\<lparr>table := db, popped := (r # rs) @ popped s\<rparr>)" by simp
  ultimately show ?thesis by (meson converse_rtranclp_into_rtranclp r_into_rtranclp)
qed

lemma round_steps:
  assumes "table_inv (table s)" and "Handle_Mail_Queue \<in> set (api_tasks api)" and "selecting s = []"
    and "popAndHandleMail (pg_queries up delay choice) transmit pa (table s) = (res, a, db)"
  shows "(service_step overlap jwt pa api)\<^sup>*\<^sup>* s (s\<lparr>table := db, attempts := attempts s @ a\<rparr>)"
proof (cases "up (table s)")
  case False
  then have "PopMailForProcessing (pg_queries up delay choice) retryFailedIntervalMicroseconds (table s) = (None, table s)"
    by (simp add: pg_queries_def)
  with assms(4) have "s\<lparr>table := db, attempts := attempts s @ a\<rparr> = s" by (auto simp: popAndHandleMail_def)
  then show ?thesis by simp
next
  case True
  let ?q = "pg_queries up delay choice" and ?s = "s\<lparr>table := pass delay (table s)\<rparr>"
  obtain l d where sql: "sql_PopMailForProcessing choice retryFailedIntervalMicroseconds (pass delay (table s)) = (l, d)"
    by fastforce
  with True have pop: "PopMailForProcessing ?q retryFailedIntervalMicroseconds (table s) = (Some l, d)"
    by (simp add: pg_queries_def)
  have w: "service_step overlap jwt pa api s ?s" by (rule service_step.wait)
  from pg_pop [OF assms(1) pop] consider (none) "l = []" | (one) r where "l = [r]" by auto
  then show ?thesis
  proof cases
    case none
    have "pop_select choice retryFailedIntervalMicroseconds (pass delay (table s)) = None"
    proof (rule ccontr)
      assume "\<not> ?thesis"
      then obtain i where i: "pop_select choice retryFailedIntervalMicroseconds (pass delay (table s)) = Some i" by blast
      note tab = table_inv_pass [OF assms(1), of delay]
      from pop_update_row [OF tab pop_select_submitted [OF tab i]] sql i none show False
        by (simp add: sql_PopMailForProcessing_def) (metis fst_conv list.distinct(1))
    qed
    then have "d = pass delay (table s)" using sql by (simp add: sql_PopMailForProcessing_def)
    with none pop assms(4) have "s\<lparr>table := db, attempts := attempts s @ a\<rparr> = ?s" by (simp add: popAndHandleMail_def)
    with w show ?thesis by (simp add: r_into_rtranclp)
  next
    case one
    obtain res' a' st where h: "handle_popped transmit pa r = (res', a', st)" by (metis prod_cases3)
    have p: "(service_step overlap jwt pa api)\<^sup>*\<^sup>* ?s (s\<lparr>table := d, popped := r # popped s\<rparr>)"
      using chosen_update_steps [of api ?s choice r "[]" d overlap jwt pa] assms(2,3) sql one by simp
    let ?t = "s\<lparr>table := d, popped := r # popped s\<rparr>"
    have "service_step overlap jwt pa api ?t (?t\<lparr>table := snd (SetMailStatus ?q (ID r) st (table ?t)),
        popped := [] @ popped s, attempts := attempts ?t @ a'\<rparr>)"
      by (rule service_step.handle [where rs = "[]" and rs' = "popped s", OF _ h]) simp
    moreover have "a = a'" "db = snd (SetMailStatus ?q (ID r) st d)"
      using assms(4) pop one h by (simp_all add: popAndHandleMail_def)
    ultimately have "service_step overlap jwt pa api ?t (s\<lparr>table := db, attempts := attempts s @ a\<rparr>)" by simp
    with w p show ?thesis by (meson converse_rtranclp_into_rtranclp rtranclp.rtrancl_into_rtrancl)
  qed
qed

section \<open>Two dispatchers that overlap\<close>

text \<open>Where the statements of two dispatchers overlap, both choose the same row, both update it, and both
  hand over its mail.\<close>

lemma two_updates:
  assumes "pop_update now i db = ([r], d)"
  shows "pop_update now i d = ([set_processing now i r], snd (pop_update now i d))"
proof -
  have "filter (\<lambda>m. ID m = i) (map (set_processing now i) xs) = map (set_processing now i) (filter (\<lambda>m. ID m = i) xs)" for xs
    by (induction xs) simp_all
  with assms show ?thesis by (auto simp: pop_update_def Let_def)
qed

lemma overlapping_pops:
  assumes "service_inv s" and "Handle_Mail_Queue \<in> set (api_tasks api)" and "r \<in> set (rows (table s))"
    and "Status r = Submitted" and "DBEntityToMail pa (Row r) = Ok m"
  shows "\<exists>s'. (service_step True jwt pa api)\<^sup>*\<^sup>* s s' \<and> attempts s' = attempts s @ [(ID r, m), (ID r, m)]"
proof -
  let ?step = "service_step True jwt pa api" and ?now = "clock (table s)" and ?i = "ID r"
  let ?cand = "filter (poppable ?now retryFailedIntervalMicroseconds) (rows (table s))"
  have tab: "table_inv (table s)" using assms(1) by (simp add: service_inv_def)
  have "r \<in> set ?cand" using assms(3,4) by (simp add: poppable_def)
  then obtain n where n: "n < length ?cand" "?cand ! n = r" unfolding in_set_conv_nth by blast
  then have sel: "pop_select (\<lambda>_. n) retryFailedIntervalMicroseconds (table s) = Some ?i"
    by (auto simp: pop_select_def Let_def)
  have "?i \<in> submitted (table s)" using assms(3,4) by (auto simp: in_submitted)
  from pop_update_row [OF tab this] obtain r1 where r1: "r1 \<in> set (rows (table s))" "ID r1 = ?i"
    "fst (pop_update ?now ?i (table s)) = [set_processing ?now ?i r1]" by blast
  then have "r1 = r" using table_ids_inject [OF tab] assms(3) by blast
  with r1(3) obtain d where u1: "pop_update ?now ?i (table s) = ([set_processing ?now ?i r], d)"
    by (cases "pop_update ?now ?i (table s)") simp
  let ?r1 = "set_processing ?now ?i r" and ?r2 = "set_processing ?now ?i (set_processing ?now ?i r)"
  obtain d' where u2: "pop_update ?now ?i d = ([?r2], d')" using two_updates [OF u1] by blast
  let ?s1 = "s\<lparr>selecting := (?i, ?now) # selecting s\<rparr>"
  let ?s2 = "s\<lparr>selecting := (?i, ?now) # (?i, ?now) # selecting s\<rparr>"
  let ?s3 = "s\<lparr>table := d, selecting := (?i, ?now) # selecting s, popped := ?r1 # popped s\<rparr>"
  let ?s4 = "s\<lparr>table := d', popped := ?r2 # ?r1 # popped s\<rparr>"
  have 1: "?step s ?s1" using assms(2) sel by (intro service_step.select) simp_all
  have 2: "?step ?s1 ?s2"
    using service_step.select [OF assms(2), of True ?s1 "\<lambda>_. n" ?i jwt pa] sel by simp
  have 3: "?step ?s2 ?s3"
    using service_step.update [of ?s2 "[]" ?i ?now "(?i, ?now) # selecting s" _ _ True jwt pa api] u1 by simp
  have 4: "?step ?s3 ?s4"
    using service_step.update [of ?s3 "[]" ?i ?now "selecting s" _ _ True jwt pa api] u2 by simp
  have tr: "handle_popped (\<lambda>_. Ok ()) pa x = (Ok False, [(?i, m)], Sent)" if "ID x = ?i" "Row x = Row r" for x
    using assms(5) that by (simp add: handle_popped_def)
  let ?set = "\<lambda>db. snd (SetMailStatus (pg_queries (\<lambda>_. True) (\<lambda>_. 0) (\<lambda>_. 0)) ?i Sent db)"
  let ?s5 = "s\<lparr>table := ?set d', popped := ?r1 # popped s, attempts := attempts s @ [(?i, m)]\<rparr>"
  let ?s6 = "s\<lparr>table := ?set (?set d'), attempts := (attempts s @ [(?i, m)]) @ [(?i, m)]\<rparr>"
  have 5: "?step ?s4 ?s5"
    using service_step.handle [of ?s4 "[]" ?r2 "?r1 # popped s", OF _ tr] by simp
  have 6: "?step ?s5 ?s6"
    using service_step.handle [of ?s5 "[]" ?r1 "popped s", OF _ tr] by simp
  from 1 2 3 4 5 6 have "?step\<^sup>*\<^sup>* s ?s6" by (meson converse_rtranclp_into_rtranclp rtranclp.rtrancl_refl)
  moreover have "attempts ?s6 = attempts s @ [(?i, m), (?i, m)]" by simp
  ultimately show ?thesis by blast
qed

end
