(* ===== verification/Auth_Mock.thy ===== *)
theory Auth_Mock
  imports Auth_Token_Provider Auth_Claims Database_Mail
begin

text \<open>
  \<^verbatim>\<open>internal/auth/mock/server.go\<close>: the authentication server for tests and local runs, which
  publishes its key and issues a token to one client. The RSA key, the signing of a token, the
  text of a JSON value and the clock are parameters. A handler writes its answer piece by
  piece, and only the first status counts.
\<close>

section \<open>Answers\<close>

record http_response =
  resp_status :: "nat option"
  resp_content_type :: string
  resp_body :: string

definition no_response :: http_response where
  "no_response = \<lparr>resp_status = None, resp_content_type = [], resp_body = []\<rparr>"

definition write_header :: "nat \<Rightarrow> http_response \<Rightarrow> http_response" where
  "write_header st r = (case resp_status r of None \<Rightarrow> r\<lparr>resp_status := Some st\<rparr> | Some _ \<Rightarrow> r)"

definition write_body :: "string \<Rightarrow> http_response \<Rightarrow> http_response" where
  "write_body s r = (let r = write_header 200 r in r\<lparr>resp_body := resp_body r @ s\<rparr>)"

text \<open>A header that is set after the status has no effect.\<close>

definition set_content_type :: "string \<Rightarrow> http_response \<Rightarrow> http_response" where
  "set_content_type t r = (case resp_status r of None \<Rightarrow> r\<lparr>resp_content_type := t\<rparr> | Some _ \<Rightarrow> r)"

section \<open>Base64 without padding\<close>

text \<open>\<open>base64.RawStdEncoding\<close>: the bytes decoded before the first group with an error, and
  whether there was none.\<close>

fun raw_groups :: "string \<Rightarrow> bytes \<times> bool" where
  "raw_groups [] = ([], True)"
| "raw_groups [a] = ([], False)"
| "raw_groups [a, b] = (case (b64_value a, b64_value b) of
     (Some x, Some y) \<Rightarrow> ([char_of (x * 4 + y div 16)], True) | _ \<Rightarrow> ([], False))"
| "raw_groups [a, b, c] = (case (b64_value a, b64_value b, b64_value c) of
     (Some x, Some y, Some z) \<Rightarrow> ([char_of (x * 4 + y div 16), char_of (y mod 16 * 16 + z div 4)], True)
   | _ \<Rightarrow> ([], False))"
| "raw_groups (a # b # c # d # s) = (case (b64_value a, b64_value b, b64_value c, b64_value d) of
     (Some x, Some y, Some z, Some w) \<Rightarrow>
       (let (bs, complete) = raw_groups s
        in (char_of (x * 4 + y div 16) # char_of (y mod 16 * 16 + z div 4) # char_of (z mod 4 * 64 + w) # bs, complete))
   | _ \<Rightarrow> ([], False))"

definition raw_std_decode :: "string \<Rightarrow> bytes \<times> bool" where
  "raw_std_decode s = raw_groups (filter (\<lambda>c. c \<noteq> CR \<and> c \<noteq> LF) s)"

definition raw_url_encode :: "bytes \<Rightarrow> string" where
  "raw_url_encode b = map (\<lambda>c. if c = CHR ''+'' then CHR ''-'' else if c = CHR ''/'' then CHR ''_'' else c)
     (filter (\<lambda>c. c \<noteq> CHR ''='') (b64_encode b))"

section \<open>The handler\<close>

definition AuthMockUserUsername :: string where "AuthMockUserUsername = ''test-usernam3''"
definition AuthMockUserPassword :: string where "AuthMockUserPassword = ''test-passw0rd''"
definition AuthMockUserSub :: string where "AuthMockUserSub = ''test-5ub''"
definition AuthMockClientID :: string where "AuthMockClientID = ''test-client-id''"

record mock_world =
  mk_modulus :: bytes
  mk_exponent :: bytes
  mk_json :: "json \<Rightarrow> string"
  mk_sign :: "json \<Rightarrow> string option"
  mk_b64_error :: "string \<Rightarrow> string"
  mk_decimal :: "nat \<Rightarrow> string"
  mk_now :: int

record mock_request =
  mr_path :: string
  mr_authorization :: "string list"

definition jwks_json :: "mock_world \<Rightarrow> json" where
  "jwks_json w = JObj [(''keys'', JArr [JObj
     [(''alg'', JStr ''RS256''), (''e'', JStr (raw_url_encode (mk_exponent w))), (''kid'', JStr ''test-key-id''),
      (''kty'', JStr ''RSA''), (''n'', JStr (raw_url_encode (mk_modulus w))), (''use'', JStr ''sig'')]])]"

definition mock_claims :: "mock_world \<Rightarrow> string \<Rightarrow> json" where
  "mock_claims w issuerURL = JObj
     [(''aud'', JStr AuthMockClientID), (''exp'', JNum (mk_now w + 3600)), (''iss'', JStr issuerURL),
      (''resource_access'', JObj [(AuthMockClientID, JObj [(''roles'',
         JArr [JStr ''mail'', JStr ''mail-sender:test-from@local''])])]),
      (''sub'', JStr AuthMockUserSub)]"

text \<open>The token is signed and sent; the status, if one is set already, stays.\<close>

definition issue_token :: "mock_world \<Rightarrow> string \<Rightarrow> http_response \<Rightarrow> http_response" where
  "issue_token w issuerURL r =
     (case mk_sign w (mock_claims w issuerURL) of
        None \<Rightarrow> write_body (''Failed to sign token'' @ [LF]) (write_header 500 (set_content_type ''text/plain; charset=utf-8'' r))
      | Some signedToken \<Rightarrow> write_body (mk_json w (JObj
          [(''access_token'', JStr signedToken), (''expires_in'', JNum 3600), (''token_type'', JStr ''Bearer'')]))
          (set_content_type ''application/json'' r))"

text \<open>The branch of a text that does not decode has no \<open>break\<close>: what was decoded is compared all
  the same.\<close>

definition mock_token :: "mock_world \<Rightarrow> string \<Rightarrow> string \<Rightarrow> string \<Rightarrow> string list \<Rightarrow> http_response" where
  "mock_token w username password issuerURL auths =
     (if length auths \<noteq> 1 then
        write_body (''Expected 1 Authorization header, got '' @ mk_decimal w (length auths)) (write_header 400 no_response)
      else if \<not> has_prefix (hd auths) ''Basic '' then
        write_body (''Expected Authorization header to start with 'Basic ', got '' @ [SQUOTE] @ hd auths @ [SQUOTE])
          (write_header 400 no_response)
      else (let encoded = drop (length ''Basic '') (hd auths);
                (body, decoded) = raw_std_decode encoded;
                r = (if decoded then no_response
                     else write_body (''Failed to decode Authorization header: '' @ mk_b64_error w encoded)
                       (write_header 400 no_response))
        in if body \<noteq> username @ '':'' @ password then
             write_body (''Expected Authorization header to be '' @ [SQUOTE] @ username @ '':'' @ password @ [SQUOTE]
               @ '', got '' @ [SQUOTE] @ body @ [SQUOTE]) (write_header 401 r)
           else issue_token w issuerURL r))"

definition mock_handler :: "mock_world \<Rightarrow> string \<Rightarrow> string \<Rightarrow> string \<Rightarrow> mock_request \<Rightarrow> http_response" where
  "mock_handler w username password issuerURL req =
     (if mr_path req = ''/jwks'' then write_body (mk_json w (jwks_json w)) (set_content_type ''application/json'' no_response)
      else if mr_path req = ''/token'' then mock_token w username password issuerURL (mr_authorization req)
      else write_header 404 no_response)"

section \<open>Starting it\<close>

datatype mock_error = No_Key | Already_Started string | Not_Listening

text \<open>The handle: its \<open>issuerURL\<close> is empty until the server is started, and the handler reads it when it
  is called.\<close>

record AuthMockServerHandle =
  mh_handler :: "string \<Rightarrow> mock_request \<Rightarrow> http_response"
  mh_issuerURL :: string

definition NewAuthMockServerHandle ::
    "bool \<Rightarrow> mock_world \<Rightarrow> string \<Rightarrow> string \<Rightarrow> (mock_error, AuthMockServerHandle) outcome" where
  "NewAuthMockServerHandle key_ok w username password =
     (if \<not> key_ok then Err No_Key
      else Ok \<lparr>mh_handler = mock_handler w username password, mh_issuerURL = []\<rparr>)"

definition URL :: "AuthMockServerHandle \<Rightarrow> string" where
  "URL h = mh_issuerURL h"

definition serve_mock :: "AuthMockServerHandle \<Rightarrow> mock_request \<Rightarrow> http_response" where
  "serve_mock h req = mh_handler h (mh_issuerURL h) req"

definition StartHttpMockServer ::
    "(string \<Rightarrow> bool) \<Rightarrow> string \<Rightarrow> string \<Rightarrow> AuthMockServerHandle \<Rightarrow> (mock_error, AuthMockServerHandle) outcome" where
  "StartHttpMockServer listen addr issuerURL h =
     (if mh_issuerURL h \<noteq> [] then Err (Already_Started (mh_issuerURL h))
      else if \<not> listen addr then Err Not_Listening
      else Ok (h\<lparr>mh_issuerURL := issuerURL\<rparr>))"

definition StartHttpTestServer ::
    "string \<Rightarrow> AuthMockServerHandle \<Rightarrow> (mock_error, AuthMockServerHandle) outcome" where
  "StartHttpTestServer url h =
     (if mh_issuerURL h \<noteq> [] then Err (Already_Started (mh_issuerURL h)) else Ok (h\<lparr>mh_issuerURL := url\<rparr>))"

text \<open>A handle is started once, under either form.\<close>

lemma started_once:
  assumes "StartHttpMockServer listen addr issuerURL h = Ok h'" and "issuerURL \<noteq> []"
  shows "StartHttpMockServer listen' addr' issuerURL' h' = Err (Already_Started issuerURL)"
    and "StartHttpTestServer url h' = Err (Already_Started issuerURL)" and "URL h' = issuerURL"
  using assms by (auto simp: StartHttpMockServer_def StartHttpTestServer_def URL_def split: if_splits)

section \<open>What the provider's request decodes to\<close>

text \<open>The provider pads, the mock server does not expect padding: it gets whole groups only.\<close>

lemma raw_groups_encode:
  "raw_groups (b64_encode s) = (take (length s - length s mod 3) s, length s mod 3 = 0)"
proof (induction s rule: b64_encode.induct)
  case (2 a)
  show ?case by (simp add: Let_def b64_value_digit) (simp add: b64_value_def Let_def)
next
  case (3 a b)
  show ?case by (simp add: Let_def b64_value_digit) (simp add: b64_value_def Let_def)
next
  case (4 a b c s)
  have "length (a # b # c # s) = length s + 3" by simp
  moreover from this have "length (a # b # c # s) mod 3 = length s mod 3" by (simp only: mod_add_self2)
  moreover have "length s mod 3 \<le> length s" by simp
  ultimately have parts: "length (a # b # c # s) mod 3 = length s mod 3"
    "length (a # b # c # s) - length (a # b # c # s) mod 3 = Suc (Suc (Suc (length s - length s mod 3)))"
    by linarith+
  have "take (length (a # b # c # s) - length (a # b # c # s) mod 3) (a # b # c # s)
      = a # b # c # take (length s - length s mod 3) s"
    unfolding parts(2) by simp
  moreover have "raw_groups (b64_encode (a # b # c # s)) =
      (let (bs, complete) = raw_groups (b64_encode s) in (a # b # c # bs, complete))"
    using octet_parts [of "byte c"]
    by (simp add: Let_def b64_value_digit b64_octet1 b64_octet2 b64_octet3 del: of_char_mod_256)
  ultimately show ?case using 4 parts(1) by simp
qed simp

lemma raw_std_decode_encode:
  "raw_std_decode (b64_encode s) = (take (length s - length s mod 3) s, length s mod 3 = 0)"
  by (simp add: raw_std_decode_def b64_encode_filter raw_groups_encode)

text \<open>A request made for the credentials of an account.\<close>

lemma mock_token_request:
  assumes "cred = sa_ClientID acc @ '':'' @ sa_ClientSecret acc"
  shows "mock_token w username password issuerURL [request_auth (token_request_of tp acc)] =
    (let body = take (length cred - length cred mod 3) cred;
         r = (if length cred mod 3 = 0 then no_response
              else write_body (''Failed to decode Authorization header: '' @ mk_b64_error w (b64_encode cred))
                (write_header 400 no_response))
     in if body \<noteq> username @ '':'' @ password then
          write_body (''Expected Authorization header to be '' @ [SQUOTE] @ username @ '':'' @ password @ [SQUOTE]
            @ '', got '' @ [SQUOTE] @ body @ [SQUOTE]) (write_header 401 r)
        else issue_token w issuerURL r)"
proof -
  have "has_prefix (''Basic '' @ s) ''Basic ''" for s by (simp add: has_prefix_iff)
  then show ?thesis
    using assms by (simp add: mock_token_def token_request_of_def raw_std_decode_encode Let_def)
qed

lemma status_write [simp]:
  "resp_status (write_header st r) = (case resp_status r of None \<Rightarrow> Some st | s \<Rightarrow> s)"
  "resp_status (write_body s r) = (case resp_status r of None \<Rightarrow> Some 200 | s \<Rightarrow> s)"
  "resp_status (set_content_type t r) = resp_status r"
  "resp_status no_response = None"
  by (simp_all add: write_header_def write_body_def set_content_type_def no_response_def Let_def split: option.split)

lemma status_issue_token:
  "resp_status (issue_token w issuerURL r) = (case resp_status r of
     None \<Rightarrow> Some (if mk_sign w (mock_claims w issuerURL) = None then 500 else 200) | s \<Rightarrow> s)"
  by (auto simp: issue_token_def split: option.split)

section \<open>What an issued token allows\<close>

text \<open>The part of the claims that \<open>CustomClaims\<close> reads: two levels of maps and lists of strings.\<close>

definition json_strings :: "json \<Rightarrow> string list option" where
  "json_strings j = (case j of
     JArr js \<Rightarrow> Some (concat (map (\<lambda>j. case j of JStr s \<Rightarrow> [s] | _ \<Rightarrow> []) js)) | _ \<Rightarrow> None)"

definition json_object :: "json \<Rightarrow> (string \<times> json) list" where
  "json_object j = (case j of JObj kvs \<Rightarrow> kvs | _ \<Rightarrow> [])"

definition claims_of_json :: "json \<Rightarrow> CustomClaims" where
  "claims_of_json j = \<lparr>ClientID = [],
     ResourceAccess = (\<lambda>c. map_option (\<lambda>roles k. Option.bind (map_of (json_object roles) k) json_strings)
        (map_of (json_object (case map_of (json_object j) ''resource_access'' of Some ra \<Rightarrow> ra | None \<Rightarrow> JNull)) c))\<rparr>"

lemma mock_roles:
  "getRoles (Some ((claims_of_json (mock_claims w issuerURL))\<lparr>ClientID := AuthMockClientID\<rparr>))
     = Some [''mail'', ''mail-sender:test-from@local'']"
  by (simp add: getRoles_def claims_of_json_def mock_claims_def json_object_def json_strings_def)

end
