(* ===== verification/Props_Service.thy ===== *)
theory Props_Service
  imports Samples Service Auth_Mock
begin

text \<open>
  The properties of the service as a whole: what is started from the settings, and what holds
  of every state that the service reaches while calls and dispatchers interleave; and what the
  mock authentication server answers to the provider of tokens.
\<close>

section \<open>Inputs for the witnesses\<close>

text \<open>A parser that reads two addresses, with and without angle brackets.\<close>

definition two_addresses :: address_parser where
  "two_addresses s =
     (if s = ''ann@vis.ch'' \<or> s = ''<ann@vis.ch>'' then Some \<lparr>Name = [], Address = ''ann@vis.ch''\<rparr>
      else if s = ''bob@vis.ch'' \<or> s = ''<bob@vis.ch>'' then Some \<lparr>Name = [], Address = ''bob@vis.ch''\<rparr>
      else None)"

lemma two_addresses_known:
  "two_addresses s \<noteq> None \<Longrightarrow> s \<in> {''ann@vis.ch'', ''<ann@vis.ch>'', ''bob@vis.ch'', ''<bob@vis.ch>''}"
  by (auto simp: two_addresses_def split: if_splits)

lemma named_String_has_space: "CHR '' '' \<notin> set (address_String a) \<Longrightarrow> Name a = []"
  by (cases "local_domain (Address a)") (auto simp: address_String_def Let_def split: if_splits)

lemma two_addresses_read_back:
  assumes "address_sane two_addresses a" shows "two_addresses (address_String a) = Some a"
proof -
  have "Address a = ''ann@vis.ch'' \<or> Address a = ''bob@vis.ch''"
    using assms by (auto simp: address_sane_def two_addresses_def split: if_splits)
  moreover have "address_String a \<in> {''ann@vis.ch'', ''<ann@vis.ch>'', ''bob@vis.ch'', ''<bob@vis.ch>''}"
    using assms two_addresses_known [of "address_String a"] by (auto simp: address_sane_def split: option.splits)
  then have "CHR '' '' \<notin> set (address_String a)" by (elim insertE) auto
  then have "Name a = []" by (rule named_String_has_space)
  ultimately have "a = \<lparr>Name = [], Address = ''ann@vis.ch''\<rparr> \<or> a = \<lparr>Name = [], Address = ''bob@vis.ch''\<rparr>"
    by (auto intro: address.equality)
  then show ?thesis
  proof
    assume "a = \<lparr>Name = [], Address = ''ann@vis.ch''\<rparr>"
    then show ?thesis by (simp only:) code_simp
  next
    assume "a = \<lparr>Name = [], Address = ''bob@vis.ch''\<rparr>"
    then show ?thesis by (simp only:) code_simp
  qed
qed

definition sample_settings :: api_config where
  "sample_settings = \<lparr>a_LoggingOnly = False, a_GrpcUnauthenticated = False, a_BackendSelection = ''SMTP'',
     a_SMTPEndpoint = ''smtp://relay'', a_SMTPSenderName = [], a_SMTPSenderAddress = ''ann@vis.ch'',
     a_SMTPAuthUsername = [], a_SMTPAuthPassword = [], a_SMTPMessageIDSuffix = ''vis'',
     a_GraphTenantID = [], a_GraphClientID = [], a_GraphClientSecret = [], a_GraphSenderAddress = [],
     a_GraphMessageIDSuffix = [], a_DatabaseDSN = ''db'', a_DatabaseMigrationsDir = ''sql'',
     a_OIDCIssuerURL = ''iss'', a_OIDCClientID = ''api'', a_OIDCJWKSURL = ''https://idp/jwks''\<rparr>"

definition sample_startup :: startup_world where
  "sample_startup = \<lparr>open_db = (\<lambda>_. True), exec_migrations = (\<lambda>_ _. Some 1),
     close_db = (\<lambda>_. True), new_pool = (\<lambda>_. True), fetch_jwks = (\<lambda>_. True),
     host_of_url = (\<lambda>_. Some ''relay'')\<rparr>"

definition sample_api :: notifications_api where
  "sample_api = (case start_api sample_startup sample_settings of Ok api \<Rightarrow> api)"

lemma sample_api_started: "start_api sample_startup sample_settings = Ok sample_api"
  by code_simp

lemma sample_api_sel:
  "Handle_Mail_Queue \<in> set (api_tasks sample_api)" "api_database sample_api"
  "\<not> unauthenticated (api_mail_server sample_api)"
  by code_simp+

definition service_world :: mail_world where
  "service_world = sample_world\<lparr>w_GetSender := backend_GetSender (api_sender sample_api),
     w_parse_address := two_addresses\<rparr>"

definition service_request :: pb_mail where
  "service_request = sample_request\<lparr>pb_From := Some (Mail_Address [] ''ann@vis.ch'')\<rparr>"

abbreviation service_jwt :: "key_source \<Rightarrow> jwt_parser" where
  "service_jwt \<equiv> \<lambda>k. if k = Jwks ''https://idp/jwks'' then sample_jwt else (\<lambda>_ _ _. None)"

text \<open>A call of \<open>QueueMail\<close> has put its mail into the queue, and a dispatcher has handled it.\<close>

definition first_state :: service where
  "first_state = start_service 1000 (\<lambda>_. 0)"

definition queued_state :: service where
  "queued_state = perform True (hd (serve_rpc service_jwt sample_api Rpc_QueueMail service_world service_request sample_bearer_ctx))
     (first_state\<lparr>received := [(service_world, sample_bearer_ctx, service_request)], calls := [[]]\<rparr>)"

definition handled_round :: "(handle_error, bool) outcome \<times> (nat \<times> mail) list \<times> mails_table" where
  "handled_round = popAndHandleMail steady (\<lambda>_. Ok ()) two_addresses (table queued_state)"

definition handled_state :: service where
  "handled_state = queued_state\<lparr>table := snd (snd handled_round), attempts := attempts queued_state @ fst (snd handled_round)\<rparr>"

lemma serve_sample: "length (serve_rpc service_jwt sample_api Rpc_QueueMail service_world service_request sample_bearer_ctx) = 1"
  by code_simp

lemma queued_state_reachable: "service_reachable overlap service_jwt two_addresses sample_api queued_state"
proof -
  let ?es = "serve_rpc service_jwt sample_api Rpc_QueueMail service_world service_request sample_bearer_ctx"
  let ?call = "(service_world, sample_bearer_ctx, service_request)"
  from serve_sample obtain e where e: "?es = [e]" by (auto simp: length_Suc_conv)
  let ?s = "first_state\<lparr>received := [?call], calls := [[e]]\<rparr>"
  have "service_step overlap service_jwt two_addresses sample_api first_state
      (first_state\<lparr>received := ?call # received first_state, calls := ?es # calls first_state\<rparr>)"
    by (rule service_step.call) (simp_all add: sample_bearer_ctx_def service_world_def)
  then have 1: "service_step overlap service_jwt two_addresses sample_api first_state ?s"
    by (simp add: e first_state_def start_service_def)
  have "service_step overlap service_jwt two_addresses sample_api ?s (perform True e (?s\<lparr>calls := [] @ [] # []\<rparr>))"
    by (rule service_step.effect) (simp_all add: sample_api_sel)
  then have 2: "service_step overlap service_jwt two_addresses sample_api ?s queued_state"
    by (simp add: queued_state_def e)
  have "service_reachable overlap service_jwt two_addresses sample_api first_state"
    unfolding first_state_def by (rule service_reachable.start)
  with 1 2 show ?thesis by (meson service_reachable.step)
qed

lemma handled_state_reachable: "service_reachable overlap service_jwt two_addresses sample_api handled_state"
proof -
  obtain res a db where r: "popAndHandleMail steady (\<lambda>_. Ok ()) two_addresses (table queued_state) = (res, a, db)"
    by (metis prod_cases3)
  have "table_inv (table queued_state)"
    using service_inv_reachable [OF queued_state_reachable] by (simp add: service_inv_def)
  moreover have "selecting queued_state = []" by code_simp
  ultimately show ?thesis
    using round_steps [OF _ sample_api_sel(1) _ r, of overlap service_jwt] service_reachable_steps queued_state_reachable r
    by (simp add: handled_state_def handled_round_def)
qed

lemma handled_attempts: "map fst (attempts handled_state) = [1]"
  by code_simp

section \<open>Every state of the service\<close>

text \<open>What a request says of the mail that is made of it.\<close>

lemma preprocess_of_request:
  assumes "preprocessIncomingMailRequest w s ctx req = (Ok m, req')"
  shows "pb_To req = pb_addresses (To m) \<and> pb_Cc req = pb_addresses (Cc m) \<and> pb_Bcc req = pb_addresses (Bcc m)
    \<and> pb_ReplyTo req = pb_addresses (ReplyTo m) \<and> Subject m = pb_Subject req \<and> Date m = w_now w
    \<and> From m = w_GetSender w (requested_sender req) \<and> Headers m = []
    \<and> mail_body (pb_ContentType req) (pb_BodyOneof req) = Ok (ContentType m, Body m)
    \<and> (\<exists>u. w_uuid w = Some u \<and> MessageID m = u @ ''@'' @ w_MessageIDSuffix w) \<and> ValidateMail m = Ok ()"
  using assms
  by (rule preprocess_Ok)
     (auto simp: pbMailToValidatedMail_Ok transformAddressLists_Ok pb_addresses_def MakePbAddress_def
       check_extra_headers_Ok ValidateMail_MessageID)

text \<open>
  C1: end to end. Let the API not be unauthenticated, and let the parser read back the addresses it
  has accepted. Whatever calls come in, and however calls and any number of dispatchers interleave,
  for every mail that the service hands to its sender, at once or from the queue, a call has come in
  with a verified token whose roles allow to mail from that sender, and the mail is the one that its
  request asks for: it has the request's To, Cc, Bcc and Reply-To, its subject, the sender that
  \<open>GetSender\<close> gives for it, the ID and the instant that the API gave it. Where the mail can be stored
  (its strings are UTF-8, it has no empty part and no empty address), it also has the request's content
  type and body, and no header of its own.
\<close>

theorem service_sends_requested:
  assumes "service_reachable overlap jwt pa api s" and "\<not> unauthenticated (api_mail_server api)"
    and "\<forall>a. address_sane pa a \<longrightarrow> pa (address_String a) = Some a"
    and "m \<in> set (direct s) \<union> snd ` set (attempts s)"
  shows "\<exists>w ctx req md tok uuid ct body. (w, ctx, req) \<in> set (received s)
    \<and> metadata ctx = Some md \<and> md_get md ''Authorization'' = [''Bearer '' @ tok]
    \<and> token_allows (jwt (api_keys api)) (api_issuer api) (api_client api) tok m
    \<and> pb_To req = pb_addresses (To m) \<and> pb_Cc req = pb_addresses (Cc m) \<and> pb_Bcc req = pb_addresses (Bcc m)
    \<and> pb_ReplyTo req = pb_addresses (ReplyTo m) \<and> Subject m = pb_Subject req
    \<and> From m = backend_GetSender (api_sender api) (requested_sender req)
    \<and> w_uuid w = Some uuid \<and> MessageID m = uuid @ ''@'' @ w_MessageIDSuffix w \<and> unix (Date m) = unix (w_now w)
    \<and> mail_body (pb_ContentType req) (pb_BodyOneof req) = Ok (ct, body)
    \<and> (part_storable body \<and> valid_utf8 ct \<and> (\<forall>a \<in> set (all_addresses m). Address a \<noteq> [])
        \<longrightarrow> ContentType m = ct \<and> Body m = body \<and> Headers m = [])"
proof -
  from sent_as_requested [OF assms(1,2,4,3)] obtain c m0 m1 where "c \<in> set (received s)" "asked_for jwt pa api m0 c"
    and m1: "m1 = m0 \<or> (\<exists>z. m1 = mail_in_zone z m0)"
    and m: "m = m1\<lparr>ContentType := ContentType m, Headers := Headers m, Body := Body m\<rparr>"
      "mail_storable m0 \<and> (\<forall>a \<in> set (all_addresses m0). Address a \<noteq> []) \<longrightarrow> m = m1" by blast
  moreover obtain w ctx req where "c = (w, ctx, req)" by (cases c) blast
  ultimately have c: "(w, ctx, req) \<in> set (received s)" "asked_for jwt pa api m0 (w, ctx, req)" by simp_all
  from c(2) obtain md tok ctx' where a: "w_GetSender w = backend_GetSender (api_sender api)" "metadata ctx = Some md"
    "md_get md ''Authorization'' = [''Bearer '' @ tok]"
    "token_allows (jwt (api_keys api)) (api_issuer api) (api_client api) tok m0"
    "fst (preprocessIncomingMailRequest w (api_mail_server api) ctx' req) = Ok m0" by (auto simp: asked_for_def)
  then obtain req' where "preprocessIncomingMailRequest w (api_mail_server api) ctx' req = (Ok m0, req')"
    by (metis prod.collapse)
  note r = preprocess_of_request [OF this]
  have m1_sel: "From m1 = From m0" "To m1 = To m0" "Cc m1 = Cc m0" "Bcc m1 = Bcc m0" "ReplyTo m1 = ReplyTo m0"
    "Subject m1 = Subject m0" "MessageID m1 = MessageID m0" "unix (Date m1) = unix (Date m0)"
    "ContentType m1 = ContentType m0" "Body m1 = Body m0" "Headers m1 = Headers m0"
    using m1 by auto
  have same: "From m = From m0" "To m = To m0" "Cc m = Cc m0" "Bcc m = Bcc m0" "ReplyTo m = ReplyTo m0"
    "Subject m = Subject m0" "MessageID m = MessageID m0" "unix (Date m) = unix (Date m0)"
    by (subst m(1), simp add: m1_sel)+
  have "all_addresses m = all_addresses m0" using same by (simp add: all_addresses_def)
  then have "ContentType m = ContentType m0 \<and> Body m = Body m0 \<and> Headers m = []"
    if "part_storable (Body m0)" "valid_utf8 (ContentType m0)" "\<forall>a \<in> set (all_addresses m). Address a \<noteq> []"
    using that m(2) m1_sel r by (simp add: mail_storable_def)
  moreover have "token_allows (jwt (api_keys api)) (api_issuer api) (api_client api) tok m"
    using a(4) by (simp add: token_allows_def same(1))
  moreover obtain uuid where "w_uuid w = Some uuid" "MessageID m0 = uuid @ ''@'' @ w_MessageIDSuffix w" using r by blast
  ultimately show ?thesis
    by (intro exI [of _ w] exI [of _ ctx] exI [of _ req] exI [of _ md] exI [of _ tok] exI [of _ uuid]
        exI [of _ "ContentType m0"] exI [of _ "Body m0"]) (simp add: c(1) a r same)
qed

lemma service_sends_requested_witness:
  "\<exists>m tok. (1, m) \<in> set (attempts handled_state) \<and> pb_To service_request = pb_addresses (To m)
    \<and> token_allows sample_jwt ''iss'' ''api'' tok m"
proof -
  obtain m where m: "(1, m) \<in> set (attempts handled_state)"
    using handled_attempts by (cases "attempts handled_state") auto
  have "m \<in> set (direct handled_state) \<union> snd ` set (attempts handled_state)" using m by force
  note sent = service_sends_requested [OF handled_state_reachable sample_api_sel(3) _ this]
  have "\<forall>a. address_sane two_addresses a \<longrightarrow> two_addresses (address_String a) = Some a"
    using two_addresses_read_back by blast
  from sent [OF this] obtain w ctx req tok where "(w, ctx, req) \<in> set (received handled_state)"
    "pb_To req = pb_addresses (To m)"
    "token_allows (service_jwt (api_keys sample_api)) (api_issuer sample_api) (api_client sample_api) tok m"
    by blast
  moreover have "map (snd \<circ> snd) (received handled_state) = [service_request]" by code_simp
  moreover have "api_keys sample_api = Jwks ''https://idp/jwks''" "api_issuer sample_api = ''iss''" "api_client sample_api = ''api''"
    by code_simp+
  ultimately show ?thesis using m by auto
qed

text \<open>
  C2: at most once. Where the pop statements of dispatchers do not overlap, as with one dispatcher, in
  every state that the service reaches, with calls and deletions at work, no queued mail has been handed
  to the sender twice; the ones that a dispatcher holds have not been tried; and neither can be popped
  any more.
\<close>

theorem service_sends_once:
  assumes "service_reachable False jwt pa api s"
  shows "distinct (map fst (attempts s)) \<and> distinct (map ID (popped s))
    \<and> ID ` set (popped s) \<inter> fst ` set (attempts s) = {}
    \<and> (ID ` set (popped s) \<union> fst ` set (attempts s)) \<inter> submitted (table s) = {}"
  using once_invD(1,2) [OF once_inv_reachable [OF assms]] by (auto simp: taken_def)

lemma service_sends_once_witness:
  "map fst (attempts handled_state) = [1] \<and> 1 \<notin> submitted (table handled_state)"
  using service_sends_once [OF handled_state_reachable] handled_attempts
  by (cases "attempts handled_state") auto

text \<open>
  C21: twice, where they overlap. The statement that pops a mail locks no row before it updates it. With
  two dispatchers on the table, every mail that waits and can be decoded may be handed to the sender
  twice, whatever the service has done before: both subqueries choose it, both updates return it.
\<close>

theorem overlapping_pops_send_twice:
  assumes "service_reachable True jwt pa api s" and "start_api w c = Ok api" and "\<not> a_LoggingOnly c"
    and "r \<in> set (rows (table s))" and "Status r = Submitted" and "DBEntityToMail pa (Row r) = Ok m"
  shows "\<exists>s'. (service_step True jwt pa api)\<^sup>*\<^sup>* s s' \<and> attempts s' = attempts s @ [(ID r, m), (ID r, m)]"
  using overlapping_pops [OF service_inv_reachable [OF assms(1)] _ assms(4-6)] assms(3)
    started_api(1,2,5) [OF assms(2)] by simp

lemma queued_rows:
  "map ID (rows (table queued_state)) = [1] \<and> map Status (rows (table queued_state)) = [Submitted]
    \<and> list_all (\<lambda>r. case DBEntityToMail two_addresses (Row r) of Ok _ \<Rightarrow> True | _ \<Rightarrow> False) (rows (table queued_state))
    \<and> attempts queued_state = []"
  by (intro conjI; code_simp)

lemma overlapping_pops_send_twice_witness:
  "\<exists>s'. (service_step True service_jwt two_addresses sample_api)\<^sup>*\<^sup>* queued_state s' \<and> map fst (attempts s') = [1, 1]"
proof -
  obtain r where r: "rows (table queued_state) = [r]" "ID r = 1" "Status r = Submitted"
    using queued_rows by auto
  with queued_rows obtain m where m: "DBEntityToMail two_addresses (Row r) = Ok m"
    by (cases "DBEntityToMail two_addresses (Row r)") auto
  from r(1) have "r \<in> set (rows (table queued_state))" by simp
  from overlapping_pops_send_twice [OF queued_state_reachable sample_api_started _ this r(3) m]
  show ?thesis using queued_rows r(2) by (fastforce simp: sample_settings_def)
qed

section \<open>The modes of the service\<close>

text \<open>
  C23: logging only. An API started in logging-only mode has no database, starts no dispatcher,
  and \<open>QueueMail\<close> and \<open>SendMail\<close> have no effect; but a dry run that is accepted is transmitted, and
  goes on to an insert into the database that is not there.
\<close>

theorem logging_only_mode:
  assumes "start_api w c = Ok api" and "a_LoggingOnly c"
  shows "\<not> api_database api \<and> Handle_Mail_Queue \<notin> set (api_tasks api) \<and> Delete_Old_Mails \<notin> set (api_tasks api)
    \<and> rpc_effects Rpc_QueueMail mw (api_mail_server api) req ctx = []
    \<and> rpc_effects Rpc_SendMail mw (api_mail_server api) req ctx = []
    \<and> (\<forall>m row req'. preprocessIncomingMailRequest mw (api_mail_server api) ctx req = (Ok m, req')
        \<and> MailToDBEntity m = Ok row \<and> w_TransmitMail mw m = Ok ()
        \<longrightarrow> rpc_effects Rpc_SendDryRun mw (api_mail_server api) req ctx = [Transmitted m, create_effect row Sent m])"
proof -
  have "loggingOnly (api_mail_server api)" using started_api(5) [OF assms(1)] assms(2) by simp
  then show ?thesis
    using started_api(1-3) [OF assms(1)]
      QueueMail_effects [of mw "api_mail_server api" ctx req] SendMail_effects [of mw "api_mail_server api" ctx req]
    by (auto simp: rpc_effects_def SendDryRun_def transmit_and_store_def)
qed

definition logging_api :: notifications_api where
  "logging_api = (case start_api sample_startup (sample_settings\<lparr>a_LoggingOnly := True\<rparr>) of Ok api \<Rightarrow> api)"

lemma logging_only_mode_witness:
  "\<not> api_database logging_api \<and> rpc_effects Rpc_SendMail sample_world (api_mail_server logging_api) sample_request sample_ctx = []"
proof -
  have "start_api sample_startup (sample_settings\<lparr>a_LoggingOnly := True\<rparr>) = Ok logging_api" by code_simp
  from logging_only_mode [OF this, of sample_world sample_request sample_ctx] show ?thesis by simp
qed

section \<open>The mock authentication server\<close>

text \<open>
  The mock server and the provider. The provider pads the Base64 of its credentials, and the
  server decodes without padding: a request is refused as malformed unless the length of
  \<open>ID:secret\<close> is a multiple of three, whatever the credentials are; otherwise it is granted
  exactly to the server's own user. The token's claims allow to mail, from one sender and with
  no extra header.
\<close>

lemma mock_answers_provider:
  assumes "mk_sign w (mock_claims w issuerURL) = Some tok"
    and "cred = sa_ClientID acc @ '':'' @ sa_ClientSecret acc"
    and "r = mock_handler w username password issuerURL
      \<lparr>mr_path = ''/token'', mr_authorization = [request_auth (token_request_of tp acc)]\<rparr>"
    and "c = Some ((claims_of_json (mock_claims w issuerURL))\<lparr>ClientID := AuthMockClientID\<rparr>)"
  shows "resp_status r = Some (if length cred mod 3 \<noteq> 0 then 400
      else if cred = username @ '':'' @ password then 200 else 401)
    \<and> (resp_status r = Some 200 \<longrightarrow> resp_body r = mk_json w (JObj
        [(''access_token'', JStr tok), (''expires_in'', JNum 3600), (''token_type'', JStr ''Bearer'')]))
    \<and> CanMail c \<and> (\<forall>s. IsSenderAllowed c s \<longleftrightarrow> s = ''test-from@local'') \<and> (\<forall>h. \<not> IsHeaderAllowed c h)"
proof (intro conjI)
  have r: "r = mock_token w username password issuerURL [request_auth (token_request_of tp acc)]"
    by (simp add: assms(3) mock_handler_def)
  show status: "resp_status r = Some (if length cred mod 3 \<noteq> 0 then 400
      else if cred = username @ '':'' @ password then 200 else 401)"
    unfolding r mock_token_request [OF assms(2)] Let_def by (simp add: status_issue_token assms(1))
  show "resp_status r = Some 200 \<longrightarrow> resp_body r = mk_json w (JObj
        [(''access_token'', JStr tok), (''expires_in'', JNum 3600), (''token_type'', JStr ''Bearer'')])"
  proof
    assume "resp_status r = Some 200"
    with status have "length cred mod 3 = 0" "cred = username @ '':'' @ password" by (simp_all split: if_splits)
    then show "resp_body r = mk_json w (JObj
        [(''access_token'', JStr tok), (''expires_in'', JNum 3600), (''token_type'', JStr ''Bearer'')])"
      unfolding r mock_token_request [OF assms(2)] Let_def
      by (simp add: issue_token_def assms(1) write_body_def write_header_def set_content_type_def no_response_def)
  qed
qed (simp_all add: assms(4) CanMail_def IsSenderAllowed_def IsHeaderAllowed_def mock_roles)

definition sample_mock :: mock_world where
  "sample_mock = \<lparr>mk_modulus = [], mk_exponent = [], mk_json = (\<lambda>_. ''token''), mk_sign = (\<lambda>_. Some ''a.b.c''),
     mk_b64_error = (\<lambda>_. []), mk_decimal = (\<lambda>_. []), mk_now = 0\<rparr>"

definition mock_user :: ServiceAccountCredential where
  "mock_user = \<lparr>sa_ClientID = AuthMockUserUsername, sa_ClientSecret = AuthMockUserPassword\<rparr>"

text \<open>The server's own user happens to have 27 bytes; one byte less in the secret is refused as
  malformed, not as unknown.\<close>

lemma mock_answers_provider_witness:
  "resp_status (mock_handler sample_mock AuthMockUserUsername AuthMockUserPassword ''idp''
      \<lparr>mr_path = ''/token'', mr_authorization = [request_auth (token_request_of sample_provider mock_user)]\<rparr>) = Some 200
   \<and> resp_status (mock_handler sample_mock AuthMockUserUsername (tl AuthMockUserPassword) ''idp''
      \<lparr>mr_path = ''/token'', mr_authorization = [request_auth (token_request_of sample_provider
        (mock_user\<lparr>sa_ClientSecret := tl AuthMockUserPassword\<rparr>))]\<rparr>) = Some 400"
proof -
  have s: "mk_sign sample_mock (mock_claims sample_mock ''idp'') = Some ''a.b.c''"
    by (simp add: sample_mock_def)
  from mock_answers_provider [OF s refl refl refl, of AuthMockUserUsername AuthMockUserPassword sample_provider mock_user]
    mock_answers_provider [OF s refl refl refl, of AuthMockUserUsername "tl AuthMockUserPassword" sample_provider
      "mock_user\<lparr>sa_ClientSecret := tl AuthMockUserPassword\<rparr>"]
  show ?thesis by (simp add: mock_user_def AuthMockUserUsername_def AuthMockUserPassword_def)
qed

end
