(* ===== verification/Smtp_Api.thy ===== *)
theory Smtp_Api
  imports Smtp_Gateway Service
begin

text \<open>
  The SMTP proxy in front of the API: the client that the proxy calls is the API's own mail
  service behind its interceptor. A call brings its Authorization value, if it has one, as
  metadata under the key \<^verbatim>\<open>authorization\<close>.
\<close>

section \<open>The client\<close>

definition call_context :: "string option \<Rightarrow> grpc_context" where
  "call_context authz = \<lparr>metadata = Some (\<lambda>k. if k = ''authorization'' then map_option (\<lambda>a. [a]) authz else None),
     claims = None\<rparr>"

definition code_text :: "grpc_code \<Rightarrow> string" where
  "code_text c = (case c of Unauthenticated \<Rightarrow> ''Unauthenticated'' | PermissionDenied \<Rightarrow> ''PermissionDenied''
     | InvalidArgument \<Rightarrow> ''InvalidArgument'' | Internal \<Rightarrow> ''Internal'' | Unknown_Code \<Rightarrow> ''Unknown'')"

text \<open>A handler that panics ends its server: the call fails.\<close>

definition answer :: "(grpc_code, 'a) outcome \<Rightarrow> (string, 'a) outcome" where
  "answer r = (case r of Ok x \<Rightarrow> Ok x | Err c \<Rightarrow> Err (code_text c) | Panic p \<Rightarrow> Err ''Unavailable'')"

definition intercepted ::
    "(key_source \<Rightarrow> jwt_parser) \<Rightarrow> notifications_api \<Rightarrow> string option \<Rightarrow> (grpc_context \<Rightarrow> 'r) \<Rightarrow> 'r" where
  "intercepted jwt api authz =
     GetGrpcAuthInterceptor (jwt (api_keys api)) (api_issuer api) (api_client api) (call_context authz)"

definition api_mail_client ::
    "(key_source \<Rightarrow> jwt_parser) \<Rightarrow> notifications_api \<Rightarrow> mail_world \<Rightarrow> mail_client" where
  "api_mail_client jwt api w =
     \<lparr>cl_SendDryRun = (\<lambda>a r. answer (fst (intercepted jwt api a (\<lambda>c. SendDryRun w (api_mail_server api) c r)))),
      cl_QueueMail = (\<lambda>a r. answer (fst (intercepted jwt api a (\<lambda>c. QueueMail w (api_mail_server api) c r)))),
      cl_SendMail = (\<lambda>a r. answer (fst (intercepted jwt api a (\<lambda>c. SendMail w (api_mail_server api) c r))))\<rparr>"

text \<open>The effects of a call at the API.\<close>

fun client_call_effects ::
    "(key_source \<Rightarrow> jwt_parser) \<Rightarrow> notifications_api \<Rightarrow> mail_world \<Rightarrow> client_call \<Rightarrow> mail_effect list" where
  "client_call_effects jwt api w (Call_DryRun a r) = serve_rpc jwt api Rpc_SendDryRun w r (call_context a)"
| "client_call_effects jwt api w (Call_Queue a r) = serve_rpc jwt api Rpc_QueueMail w r (call_context a)"
| "client_call_effects jwt api w (Call_Send a r) = serve_rpc jwt api Rpc_SendMail w r (call_context a)"

text \<open>What the handler of the proxy makes the API do for a mail.\<close>

definition relayed_effects ::
    "(key_source \<Rightarrow> jwt_parser) \<Rightarrow> notifications_api \<Rightarrow> mail_world \<Rightarrow> SMTPProxyConfig \<Rightarrow> token_world \<Rightarrow> int64
       \<Rightarrow> (nat list \<Rightarrow> string) \<Rightarrow> providers \<Rightarrow> mail \<Rightarrow> mail_effect list" where
  "relayed_effects jwt api w cfg tw now rb ps m =
     concat (map (client_call_effects jwt api w)
       (fst (snd (mailHandler cfg (api_mail_client jwt api w) tw now rb ps m))))"

section \<open>A relayed mail is sent with the token of its user\<close>

fun call_request :: "client_call \<Rightarrow> pb_mail" where
  "call_request (Call_DryRun a r) = r"
| "call_request (Call_Queue a r) = r"
| "call_request (Call_Send a r) = r"

lemma client_call_effects_serve:
  "\<exists>k. client_call_effects jwt api w c = serve_rpc jwt api k w (call_request c) (call_context (call_authorization c))"
  by (cases c) auto

lemma serve_rpc_effect:
  assumes "e \<in> set (serve_rpc jwt api k w req ctx)" and "claims ctx = None"
    and "\<not> unauthenticated (api_mail_server api)"
  shows "\<exists>m md tok ctx' req'. metadata ctx = Some md \<and> md_get md ''Authorization'' = [''Bearer '' @ tok]
    \<and> token_allows (jwt (api_keys api)) (api_issuer api) (api_client api) tok m \<and> effect_of m e
    \<and> preprocessIncomingMailRequest w (api_mail_server api) ctx' req = (Ok m, req')"
proof (rule intercepted_effect [OF assms(2,3)])
  show "e \<in> set (GetGrpcAuthInterceptor (jwt (api_keys api)) (api_issuer api) (api_client api) ctx
      (\<lambda>c. snd (QueueMail w (api_mail_server api) c req) @ snd (SendMail w (api_mail_server api) c req)
        @ snd (SendDryRun w (api_mail_server api) c req)))"
    using assms(1) unfolding serve_rpc_def GetGrpcAuthInterceptor_def by (rule subsetD [OF rpc_effects_subset])
qed

lemma to_lower_authorization: "to_lower ''Authorization'' = ''authorization''"
  by code_simp

text \<open>The mail that the API makes of the proxy's request has the addresses and the subject of the
  mail that was relayed.\<close>

definition same_envelope :: "mail \<Rightarrow> mail \<Rightarrow> bool" where
  "same_envelope m m0 \<longleftrightarrow> To m0 = To m \<and> Cc m0 = Cc m \<and> Bcc m0 = Bcc m \<and> ReplyTo m0 = ReplyTo m
     \<and> Subject m0 = Subject m"

lemma transformAddressLists_of_pb:
  "transformAddressLists pa (pb_addresses as) = Ok bs \<Longrightarrow> bs = as"
proof -
  assume "transformAddressLists pa (pb_addresses as) = Ok bs"
  then have "map (\<lambda>a. Some (Mail_Address (Name a) (Address a))) as = map (\<lambda>a. Some (Mail_Address (Name a) (Address a))) bs"
    by (simp add: transformAddressLists_Ok pb_addresses_def MakePbAddress_def)
  moreover have "inj (\<lambda>a :: address. Some (Mail_Address (Name a) (Address a)))"
    by (rule injI) simp
  ultimately show "bs = as" by (metis inj_map_eq_map)
qed

text \<open>It also has its body and content type: where a content type is missing, that of the mail or that of
  a part, the API puts the default for what it has there.\<close>

definition default_content_type :: "part \<Rightarrow> string" where
  "default_content_type p = (case p of
      Text _ \<Rightarrow> ''text/plain; charset=utf-8'' | Binary _ \<Rightarrow> ''application/octet-stream''
    | Multipart _ \<Rightarrow> ''multipart/mixed'' | NoPart \<Rightarrow> [])"

fun with_types :: "part \<Rightarrow> part" and child_with_type :: "child \<Rightarrow> child" where
  "with_types (Text t) = Text t"
| "with_types (Binary b) = Binary b"
| "with_types (Multipart cs) = Multipart (map child_with_type cs)"
| "with_types NoPart = NoPart"
| "child_with_type (Child ct hs p) = Child (if ct = [] then default_content_type p else ct) hs (with_types p)"

definition same_content :: "mail \<Rightarrow> mail \<Rightarrow> bool" where
  "same_content m m0 \<longleftrightarrow> Body m0 = with_types (Body m)
     \<and> ContentType m0 = (if ContentType m = [] then default_content_type (Body m) else ContentType m)"

lemma traverse_back:
  assumes "\<And>x y z. x \<in> set xs \<Longrightarrow> f x = Ok y \<Longrightarrow> g y = Ok z \<Longrightarrow> z = h x"
  shows "traverse f xs = Ok ys \<Longrightarrow> traverse g ys = Ok zs \<Longrightarrow> zs = map h xs"
  using assms
proof (induction xs arbitrary: ys zs)
  case (Cons x xs)
  then show ?case by (auto simp: obind_eq_Ok)
qed simp

lemma part_headers_back: "traverse part_header (pb_headers hs) = Ok hs' \<Longrightarrow> hs' = hs"
  unfolding pb_headers_def
proof (induction hs arbitrary: hs')
  case (Cons h hs)
  then show ?case by (auto simp: obind_eq_Ok part_header_def split: if_splits)
qed simp

lemma default_type_back: "transformPartToProto p = Ok c \<Longrightarrow> default_type c = default_content_type p"
  by (cases p) (auto simp: default_content_type_def obind_eq_Ok)

lemma transform_back:
  "transformPartToProto p = Ok c \<Longrightarrow> transformMimePartsToMailerParts c = Ok p' \<Longrightarrow> p' = with_types p"
  and transform_child_back:
  "transformChildToProto ch = Ok mp \<Longrightarrow> transform_child mp = Ok ch' \<Longrightarrow> ch' = child_with_type ch"
proof (induction p and ch arbitrary: c p' and mp ch' rule: with_types_child_with_type.induct)
  case (3 cs)
  from 3(2,3) obtain ys zs where "traverse transformChildToProto cs = Ok ys" "traverse transform_child ys = Ok zs"
    "p' = Multipart zs" by (auto simp: obind_eq_Ok)
  with traverse_back [of cs transformChildToProto transform_child child_with_type ys zs] 3(1) show ?case by auto
next
  case (5 ct hs p)
  from 5(2) obtain c where c: "transformPartToProto p = Ok c" "mp = MimePart (non_empty ct) (pb_headers hs) c"
    by (auto simp: obind_eq_Ok)
  with 5(3) obtain p' hs' where "transformMimePartsToMailerParts c = Ok p'" "traverse part_header (pb_headers hs) = Ok hs'"
    "ch' = Child (case non_empty ct of Some t \<Rightarrow> t | None \<Rightarrow> default_type c) hs' p'" by (auto simp: obind_eq_Ok)
  with 5(1) c(1) default_type_back [OF c(1)] part_headers_back show ?case by (auto simp: non_empty_def)
qed auto

lemma built_content:
  assumes "buildGrpcRequestFromMail m = Ok req"
    and "mail_body (pb_ContentType req) (pb_BodyOneof req) = Ok (ContentType m0, Body m0)"
  shows "same_content m m0"
proof (cases "Body m")
  case (Multipart cs)
  with assms(1) obtain ys where ys: "traverse transformChildToProto cs = Ok ys"
    "pb_BodyOneof req = Some (MultipartBody (MimeBody ys))" "pb_ContentType req = non_empty (ContentType m)"
    by (auto simp: buildGrpcRequestFromMail_def obind_eq_Ok)
  with assms(2) obtain zs where "traverse transform_child ys = Ok zs" "Body m0 = Multipart zs"
    "ContentType m0 = (case non_empty (ContentType m) of Some c \<Rightarrow> c | None \<Rightarrow> ''multipart/mixed'')"
    by (auto simp: mail_body_def obind_eq_Ok)
  with Multipart traverse_back [OF transform_child_back ys(1)] show ?thesis
    by (auto simp: same_content_def default_content_type_def non_empty_def)
qed (use assms in \<open>auto simp: buildGrpcRequestFromMail_def obind_eq_Ok mail_body_def same_content_def
       default_content_type_def non_empty_def\<close>)

lemma preprocessed_proxy_request:
  assumes "buildGrpcRequestFromMail m = Ok req"
    and "preprocessIncomingMailRequest w s ctx req = (Ok m0, req')"
  shows "same_envelope m m0 \<and> same_content m m0 \<and> From m0 = w_GetSender w (From m) \<and> ValidateMail m0 = Ok ()"
proof -
  have req: "pb_To req = pb_addresses (To m)" "pb_Cc req = pb_addresses (Cc m)" "pb_Bcc req = pb_addresses (Bcc m)"
    "pb_ReplyTo req = pb_addresses (ReplyTo m)" "pb_Subject req = Subject m"
    "pb_From req = Some (Mail_Address (Name (From m)) (Address (From m)))"
    using assms(1) by (auto simp: buildGrpcRequestFromMail_def obind_eq_Ok MakePbAddress_def)
  then have "requested_sender req = From m" by (simp add: requested_sender_def)
  with preprocess_recipients(3,6) [OF assms(2)] have "From m0 = w_GetSender w (From m)" "ValidateMail m0 = Ok ()"
    by simp_all
  moreover have "same_envelope m m0"
    using assms(2)
    by (rule preprocess_Ok)
       (auto simp: pbMailToValidatedMail_Ok req same_envelope_def dest: transformAddressLists_of_pb)
  moreover have "same_content m m0"
    using assms(2) by (rule preprocess_Ok) (auto simp: pbMailToValidatedMail_Ok intro!: built_content [OF assms(1)])
  ultimately show ?thesis by blast
qed

lemma mailHandler_call:
  assumes "mailHandler cfg client tw now rb ps m = (res, made, ps')" and "c \<in> set made"
  shows "\<exists>req authz. buildGrpcRequestFromMail m = Ok req \<and> fst (authorization (grpcAuthMode cfg) tw now ps) = Ok authz
    \<and> call_request c = req \<and> call_authorization c = authz"
proof -
  have [simp]: "call_request (deliver_call cfg a r) = r" for a r by (simp add: deliver_call_def)
  from mailHandler_calls [OF assms(1)] assms(2) show ?thesis by (auto split: if_splits)
qed

lemma relayed_effect:
  assumes "e \<in> set (relayed_effects jwt api w cfg tw now rb ps m)" and "grpcAuthMode cfg = SMTPPassthrough"
    and "\<not> unauthenticated (api_mail_server api)"
  shows "\<exists>tp t m0. of_session ps = Some tp \<and> fst (GetAccessToken tw now tp) = Ok (Some t)
    \<and> token_allows (jwt (api_keys api)) (api_issuer api) (api_client api) t m0 \<and> effect_of m0 e
    \<and> same_envelope m m0 \<and> same_content m m0 \<and> From m0 = w_GetSender w (From m) \<and> ValidateMail m0 = Ok ()"
proof -
  obtain res made ps' where h: "mailHandler cfg (api_mail_client jwt api w) tw now rb ps m = (res, made, ps')"
    by (metis prod_cases3)
  with assms(1) obtain c where c: "c \<in> set made" "e \<in> set (client_call_effects jwt api w c)"
    by (auto simp: relayed_effects_def)
  from mailHandler_call [OF h c(1)] obtain req where req: "buildGrpcRequestFromMail m = Ok req" "call_request c = req"
    "fst (authorization SMTPPassthrough tw now ps) = Ok (call_authorization c)" using assms(2) by auto
  from passthrough_authorization [OF req(3)] obtain tp t where tp: "of_session ps = Some tp"
    "fst (GetAccessToken tw now tp) = Ok (Some t)" "call_authorization c = Some (''Bearer '' @ t)" by blast
  obtain k where "e \<in> set (serve_rpc jwt api k w req (call_context (Some (''Bearer '' @ t))))"
    using c(2) client_call_effects_serve [of jwt api w c] req(2) tp(3) by auto
  from serve_rpc_effect [OF this _ assms(3)] obtain m0 md tok ctx' req' where m0:
    "metadata (call_context (Some (''Bearer '' @ t))) = Some md" "md_get md ''Authorization'' = [''Bearer '' @ tok]"
    "token_allows (jwt (api_keys api)) (api_issuer api) (api_client api) tok m0" "effect_of m0 e"
    "preprocessIncomingMailRequest w (api_mail_server api) ctx' req = (Ok m0, req')"
    by (auto simp: call_context_def)
  then have "tok = t" by (auto simp: call_context_def md_get_def to_lower_authorization)
  with m0 tp preprocessed_proxy_request [OF req(1) m0(5)] show ?thesis by blast
qed

text \<open>The same for a mail that a session of the proxy hands over: the token is one of the user's who is
  logged in.\<close>

lemma session_mail_effect:
  assumes "session_reachable lib (proxy_backends cfg (range (api_mail_client jwt api)) TW) (s, newer @ Handed ctx m # older)"
    and "smtpAuthMode cfg = SMTPAuthPlain" and "grpcAuthMode cfg = SMTPPassthrough" and "TokenProviderOptions cfg = []"
    and "OidcConfig cfg = Some oc" and "\<not> unauthenticated (api_mail_server api)" and "tw \<in> TW"
    and "e \<in> set (relayed_effects jwt api w cfg tw now rb \<lparr>injected = own, of_session = ctx\<rparr> m)"
  shows "\<exists>u p t m0. logged_in_as older = Some (u, p)
    \<and> (token_for TW (oidcTokenEndpoint oc) u p t \<or> (u = [] \<and> p = [] \<and> t = []))
    \<and> token_allows (jwt (api_keys api)) (api_issuer api) (api_client api) t m0 \<and> effect_of m0 e
    \<and> To m0 = To m \<and> Cc m0 = Cc m \<and> Bcc m0 = Bcc m \<and> Subject m0 = Subject m \<and> same_content m m0
    \<and> From m0 = w_GetSender w (From m) \<and> ValidateMail m0 = Ok ()"
proof -
  from handed_over_for_user(1) [OF assms(1,2,4,5)] obtain tp u p where u: "logged_in_as older = Some (u, p)"
    "ctx = Some tp" "provider_for TW (oidcTokenEndpoint oc) u p tp" by blast
  from relayed_effect [OF assms(8,3,6)] u(2) obtain t m0 where t: "fst (GetAccessToken tw now tp) = Ok (Some t)"
    "token_allows (jwt (api_keys api)) (api_issuer api) (api_client api) t m0" "effect_of m0 e"
    "same_envelope m m0" "same_content m m0" "From m0 = w_GetSender w (From m)" "ValidateMail m0 = Ok ()" by auto
  from u t(2-7) provider_for_token [OF u(3) assms(7) t(1)] show ?thesis unfolding same_envelope_def by blast
qed

section \<open>A mail that is accepted is in the queue\<close>

text \<open>The mails that the API makes of the calls, where it accepts them.\<close>

definition requested_mail ::
    "(key_source \<Rightarrow> jwt_parser) \<Rightarrow> notifications_api \<Rightarrow> mail_world \<Rightarrow> client_call \<Rightarrow> mail list" where
  "requested_mail jwt api w c =
     (case intercepted jwt api (call_authorization c)
        (\<lambda>ctx. fst (preprocessIncomingMailRequest w (api_mail_server api) ctx (call_request c)))
      of Ok m \<Rightarrow> [m] | _ \<Rightarrow> [])"

definition relayed_mails ::
    "(key_source \<Rightarrow> jwt_parser) \<Rightarrow> notifications_api \<Rightarrow> mail_world \<Rightarrow> SMTPProxyConfig \<Rightarrow> token_world \<Rightarrow> int64
       \<Rightarrow> (nat list \<Rightarrow> string) \<Rightarrow> providers \<Rightarrow> mail \<Rightarrow> mail list" where
  "relayed_mails jwt api w cfg tw now rb ps m =
     concat (map (requested_mail jwt api w) (fst (snd (mailHandler cfg (api_mail_client jwt api w) tw now rb ps m))))"

lemma answer_Ok: "answer r = Ok x \<longleftrightarrow> r = Ok x"
  by (simp add: answer_def split: outcome.split)

lemma QueueMail_accepted:
  assumes "fst (QueueMail w s ctx req) = Ok i" and "\<not> loggingOnly s"
  shows "\<exists>m req' row. preprocessIncomingMailRequest w s ctx req = (Ok m, req') \<and> MailToDBEntity m = Ok row
    \<and> w_CreateMail w row Submitted \<and> snd (QueueMail w s ctx req) = [create_effect row Submitted m]"
  using assms
  by (cases "preprocessIncomingMailRequest w s ctx req")
     (auto simp: QueueMail_def split: outcome.splits if_splits)

lemma relayed_is_queued:
  assumes "fst (mailHandler cfg (api_mail_client jwt api w) tw now rb ps m) = Ok ()"
    and "\<not> LoggingOnly cfg" and "UseQueuing cfg" and "\<not> loggingOnly (api_mail_server api)"
  shows "\<exists>m0 row. create_effect row Submitted m0 \<in> set (relayed_effects jwt api w cfg tw now rb ps m)
    \<and> MailToDBEntity m0 = Ok row \<and> w_CreateMail w row Submitted
    \<and> same_envelope m m0 \<and> same_content m m0 \<and> From m0 = w_GetSender w (From m) \<and> ValidateMail m0 = Ok ()
    \<and> m0 \<in> set (relayed_mails jwt api w cfg tw now rb ps m)"
proof -
  obtain made ps' where h: "mailHandler cfg (api_mail_client jwt api w) tw now rb ps m = (Ok (), made, ps')"
    using assms(1) by (cases "mailHandler cfg (api_mail_client jwt api w) tw now rb ps m") auto
  have "made \<noteq> []"
    using h assms(2) by (auto simp: mailHandler_def split: outcome.splits if_splits prod.splits)
  with mailHandler_calls [OF h] obtain authz req where "buildGrpcRequestFromMail m = Ok req"
    "made = (if SMTPEnsureSender cfg then [Call_DryRun authz req] else []) @ [deliver_call cfg authz req]"
    "Ok () = deliver_mail cfg (api_mail_client jwt api w) authz req"
    by blast
  then have d: "buildGrpcRequestFromMail m = Ok req" "deliver_call cfg authz req \<in> set made"
    "deliver_mail cfg (api_mail_client jwt api w) authz req = Ok ()" by simp_all
  define ctx where "ctx = intercepted jwt api authz (\<lambda>c. c)"
  have i: "intercepted jwt api authz f = f ctx" for f :: "grpc_context \<Rightarrow> 'r"
    by (simp add: ctx_def intercepted_def GetGrpcAuthInterceptor_def)
  from d(3) assms(3) obtain n where "fst (QueueMail w (api_mail_server api) ctx req) = Ok n"
    by (auto simp: deliver_mail_def api_mail_client_def i answer_Ok split: outcome.splits)
  from QueueMail_accepted [OF this assms(4)] obtain m0 req' row where q:
    "preprocessIncomingMailRequest w (api_mail_server api) ctx req = (Ok m0, req')" "MailToDBEntity m0 = Ok row"
    "w_CreateMail w row Submitted" "snd (QueueMail w (api_mail_server api) ctx req) = [create_effect row Submitted m0]"
    by blast
  have "client_call_effects jwt api w (deliver_call cfg authz req) = [create_effect row Submitted m0]"
    using assms(3) q(4) i [of "rpc_effects Rpc_QueueMail w (api_mail_server api) req"]
    by (simp add: deliver_call_def serve_rpc_def intercepted_def rpc_effects_def)
  with d(2) have "create_effect row Submitted m0 \<in> set (relayed_effects jwt api w cfg tw now rb ps m)"
    by (force simp: relayed_effects_def h)
  moreover have "requested_mail jwt api w (deliver_call cfg authz req) = [m0]"
    using q(1) by (simp add: deliver_call_def requested_mail_def i)
  with d(2) have "m0 \<in> set (relayed_mails jwt api w cfg tw now rb ps m)"
    by (force simp: relayed_mails_def h)
  ultimately show ?thesis using q(2,3) preprocessed_proxy_request [OF d(1) q(1)] by blast
qed

end
