(* ===== verification/Props_Gateway.thy ===== *)
theory Props_Gateway
  imports Props_Service Smtp_Api
begin

text \<open>
  The properties of the proxy in front of the API: what becomes of a mail that came in over SMTP.
\<close>

section \<open>Inputs for the witnesses\<close>

definition gateway_jwt :: "key_source \<Rightarrow> jwt_parser" where
  "gateway_jwt k iss aud tok = (if k = Jwks ''https://idp/jwks'' \<and> iss = ''iss'' \<and> aud = ''api'' \<and> tok = ''a.e30.c''
     then Some (sample_claims\<lparr>ClientID := []\<rparr>, True) else None)"

abbreviation gateway_backend :: "OidcTokenProvider option backend" where
  "gateway_backend \<equiv> proxy_backend sample_proxy (api_mail_client gateway_jwt sample_api service_world)
     sample_token_world 100 (\<lambda>_. ''b'') None"

text \<open>A user logs in and sends a message from her own address to one recipient.\<close>

definition gateway_session :: "OidcTokenProvider option session" where
  "gateway_session =
     snd (Rcpt gateway_backend (snd (Mail gateway_backend
       (snd (AuthPlain gateway_backend (NewSession None) ''id'' ''key'')) ''ann@vis.ch'')) ''bob@vis.ch'')"

definition gateway_mail :: mail where
  "gateway_mail = sample_received\<lparr>Bcc := []\<rparr>"




lemma gateway_data:
  "fst (Data sample_lib gateway_backend gateway_session ''msg'') = Ok ()"
  "fst (snd (Data sample_lib gateway_backend gateway_session ''msg'')) = [(sctx gateway_session, gateway_mail)]"
  by code_simp+


section \<open>From SMTP to the API\<close>


text \<open>
  An accepted message is in the queue. Where the proxy and the API are not in logging-only mode
  and the proxy queues, a \<open>DATA\<close> command that succeeds has parsed a mail, for every recipient of
  the envelope, and the API has inserted a row for it as submitted.
\<close>

lemma smtp_ok_is_queued:
  assumes "Data lib (proxy_backend cfg (api_mail_client jwt api w) tw now rb own) s r = (Ok (), handed, s')"
    and "\<not> LoggingOnly cfg" and "UseQueuing cfg" and "\<not> loggingOnly (api_mail_server api)"
  shows "\<exists>m m0 row. parse_data lib (sfrom s) (recipients s) r = Ok m \<and> handed = [(sctx s, m)] \<and> Address (From m) = sfrom s
    \<and> create_effect row Submitted m0
        \<in> set (relayed_effects jwt api w cfg tw now rb \<lparr>injected = own, of_session = sctx s\<rparr> m)
    \<and> m0 \<in> set (relayed_mails jwt api w cfg tw now rb \<lparr>injected = own, of_session = sctx s\<rparr> m)
    \<and> MailToDBEntity m0 = Ok row \<and> w_CreateMail w row Submitted \<and> From m0 = w_GetSender w (From m)
    \<and> same_envelope m m0 \<and> same_content m m0
    \<and> (\<forall>a \<in> set (recipients s). \<exists>b \<in> set (To m0 @ Cc m0 @ Bcc m0). lib_ToLower lib (Address b) = lib_ToLower lib a)"
proof -
  obtain m where m: "parse_data lib (sfrom s) (recipients s) r = Ok m" "handed = [(sctx s, m)]"
    "fst (handleMessage (proxy_backend cfg (api_mail_client jwt api w) tw now rb own) (sctx s) m) = Ok ()"
    using assms(1) by (auto simp: Data_def split: outcome.splits if_splits prod.splits)
  from m(3) have "fst (mailHandler cfg (api_mail_client jwt api w) tw now rb \<lparr>injected = own, of_session = sctx s\<rparr> m) = Ok ()"
    by (simp add: proxy_backend_sel proxy_message_Ok)
  from relayed_is_queued [OF this assms(2-4)] obtain m0 row where q: "create_effect row Submitted m0
      \<in> set (relayed_effects jwt api w cfg tw now rb \<lparr>injected = own, of_session = sctx s\<rparr> m)"
    "MailToDBEntity m0 = Ok row" "w_CreateMail w row Submitted" "same_envelope m m0" "same_content m m0" "From m0 = w_GetSender w (From m)"
    "m0 \<in> set (relayed_mails jwt api w cfg tw now rb \<lparr>injected = own, of_session = sctx s\<rparr> m)"
    by blast
  have "\<exists>b \<in> set (To m0 @ Cc m0 @ Bcc m0). lib_ToLower lib (Address b) = lib_ToLower lib a" if "a \<in> set (recipients s)" for a
    using bcc_list_covers [OF that, of "To m" "Cc m" lib] q(4) parse_data_Ok(4) [OF m(1)] by (simp add: same_envelope_def)
  then show ?thesis using m q parse_data_Ok(2) [OF m(1)] by blast
qed

text \<open>
  C9: an accepted message is transmitted. Let the proxy and the API not be in logging-only mode, the
  proxy queue, the database answer, and let what the API makes of the request be storable: its strings
  are UTF-8, it has no empty part, and the address parser reads back its addresses. A \<open>DATA\<close> command
  that succeeds has parsed a mail and handed it to the API, which has inserted a row for it. Where
  handling a mail panics for none in the table, the dispatcher then hands that mail to its transmitter
  exactly once, in whatever state the table's history has left it, and leaves no mail waiting. What
  the transmitter gets has the recipients, the subject and the body that the proxy parsed, and its
  content types, with a default where one is missing; the sender that the API gives the address of the
  envelope; the date in the zone of the dispatcher. It goes to every recipient of the envelope, in
  whatever case the address is written.
\<close>

theorem smtp_ok_is_transmitted:
  assumes "Data lib (proxy_backend cfg (api_mail_client jwt api w) tw now rb own) s r = (Ok (), handed, s')"
    and "\<not> LoggingOnly cfg" and "UseQueuing cfg" and "\<not> loggingOnly (api_mail_server api)"
    and "queue_reachable (db, log)" and "\<forall>d. up d" and "all_rows (row_handled transmit pa) db"
    and "Suc (card (submitted db)) < fuel" and "card (submitted db) < ticks"
    and "\<forall>(ctx, m) \<in> set handed. \<forall>m0 \<in> set (relayed_mails jwt api w cfg tw now rb \<lparr>injected = own, of_session = ctx\<rparr> m).
      mail_storable m0 \<and> list_all (\<lambda>a. pa (address_String a) = Some a \<and> Address a \<noteq> []) (all_addresses m0)
      \<and> \<not> panics (transmit (mail_in_zone (local_zone db) m0))"
  shows "\<exists>m row m0 a db'. parse_data lib (sfrom s) (recipients s) r = Ok m \<and> handed = [(sctx s, m)]
    \<and> create_effect row Submitted m0
        \<in> set (relayed_effects jwt api w cfg tw now rb \<lparr>injected = own, of_session = sctx s\<rparr> m)
    \<and> m0 \<in> set (relayed_mails jwt api w cfg tw now rb \<lparr>injected = own, of_session = sctx s\<rparr> m)
    \<and> HandleMailQueue ticks fuel (pg_queries up delay choice) transmit pa (sql_CreateMail row Submitted db) = Some (Ok (), a, db')
    \<and> filter (\<lambda>(i, _). i = next_id db) a = [(next_id db, mail_in_zone (local_zone db) m0)] \<and> submitted db' = {}
    \<and> To m0 = To m \<and> Cc m0 = Cc m \<and> Bcc m0 = Bcc m \<and> ReplyTo m0 = ReplyTo m \<and> Subject m0 = Subject m
    \<and> Body m0 = with_types (Body m)
    \<and> ContentType m0 = (if ContentType m = [] then default_content_type (Body m) else ContentType m)
    \<and> From m0 = w_GetSender w (From m) \<and> Address (From m) = sfrom s
    \<and> (\<forall>x \<in> set (recipients s). \<exists>b \<in> set (To m0 @ Cc m0 @ Bcc m0). lib_ToLower lib (Address b) = lib_ToLower lib x)"
proof -
  from smtp_ok_is_queued [OF assms(1-4)] obtain m m0 row where q: "parse_data lib (sfrom s) (recipients s) r = Ok m"
    "handed = [(sctx s, m)]" "Address (From m) = sfrom s"
    "create_effect row Submitted m0
      \<in> set (relayed_effects jwt api w cfg tw now rb \<lparr>injected = own, of_session = sctx s\<rparr> m)"
    "MailToDBEntity m0 = Ok row" "From m0 = w_GetSender w (From m)" "same_envelope m m0" "same_content m m0"
    "\<forall>x \<in> set (recipients s). \<exists>b \<in> set (To m0 @ Cc m0 @ Bcc m0). lib_ToLower lib (Address b) = lib_ToLower lib x"
    "m0 \<in> set (relayed_mails jwt api w cfg tw now rb \<lparr>injected = own, of_session = sctx s\<rparr> m)"
    by blast
  with assms(10) have m0: "mail_storable m0" "\<not> panics (transmit (mail_in_zone (local_zone db) m0))"
    "list_all (\<lambda>a. pa (address_String a) = Some a \<and> Address a \<noteq> []) (all_addresses m0)" by auto
  from DBEntityToMail_MailToDBEntity [OF m0(1,3)] q(5) have row: "DBEntityToMail pa row = Ok m0" by auto
  from queued_row_is_transmitted [OF assms(5-9) row m0(2)] q show ?thesis
    unfolding same_envelope_def same_content_def by blast
qed

lemma gateway_data_parts:
  obtains s' where "Data sample_lib gateway_backend gateway_session ''msg'' = (Ok (), [(sctx gateway_session, gateway_mail)], s')"
  using gateway_data by (metis prod.collapse)

lemma sample_modes:
  "smtpAuthMode sample_proxy = SMTPAuthPlain" "grpcAuthMode sample_proxy = SMTPPassthrough"
  "TokenProviderOptions sample_proxy = []" "\<not> LoggingOnly sample_proxy" "UseQueuing sample_proxy"
  "\<not> loggingOnly (api_mail_server sample_api)"
  by code_simp+

abbreviation gateway_mails :: "mail \<Rightarrow> mail list" where
  "gateway_mails \<equiv> relayed_mails gateway_jwt sample_api service_world sample_proxy sample_token_world 100 (\<lambda>_. ''b'')
     \<lparr>injected = None, of_session = sctx gateway_session\<rparr>"

definition gateway_queued :: mail where
  "gateway_queued = gateway_mail\<lparr>Date := \<lparr>unix = 1080769384, zone = 15600\<rparr>, MessageID := ''1@vis'',
     ContentType := ''application/octet-stream''\<rparr>"

lemma gateway_mails_eq: "gateway_mails gateway_mail = [gateway_queued]"
  by code_simp

lemma gateway_queued_storable: "mail_storable gateway_queued"
  by code_simp

lemma gateway_queued_addresses:
  "list_all (\<lambda>a. two_addresses (address_String a) = Some a \<and> Address a \<noteq> []) (all_addresses gateway_queued)"
  by code_simp

lemma empty_table_reachable: "queue_reachable (empty_table, [])"
  unfolding empty_table_def by (rule queue_reachable.start)

lemma empty_table_sel: "next_id empty_table = 1" "local_zone empty_table = (\<lambda>_. 0)" "submitted empty_table = {}"
  "all_rows good empty_table"
  by (simp_all add: empty_table_def stored_rows_def submitted_def)

lemma smtp_ok_is_transmitted_witness:
  "\<exists>row a db'. HandleMailQueue 1 2 steady (\<lambda>_. Ok ()) two_addresses (sql_CreateMail row Submitted empty_table)
      = Some (Ok (), a, db')
    \<and> filter (\<lambda>(i, _). i = 1) a = [(1, mail_in_zone (\<lambda>_. 0) gateway_queued)] \<and> Body gateway_queued = with_types (Body gateway_mail)"
proof (rule gateway_data_parts)
  fix s'
  assume d: "Data sample_lib gateway_backend gateway_session ''msg'' = (Ok (), [(sctx gateway_session, gateway_mail)], s')"
  have mails: "\<forall>(ctx, m) \<in> set [(sctx gateway_session, gateway_mail)].
      \<forall>m0 \<in> set (relayed_mails gateway_jwt sample_api service_world sample_proxy sample_token_world 100 (\<lambda>_. ''b'')
        \<lparr>injected = None, of_session = ctx\<rparr> m).
      mail_storable m0 \<and> list_all (\<lambda>a. two_addresses (address_String a) = Some a \<and> Address a \<noteq> []) (all_addresses m0)
      \<and> \<not> panics ((\<lambda>_. Ok () :: (send_error, unit) outcome) (mail_in_zone (local_zone empty_table) m0))"
    using gateway_mails_eq gateway_queued_storable gateway_queued_addresses by simp
  have c: "Suc (card (submitted empty_table)) < 2" "card (submitted empty_table) < 1" by (simp_all add: empty_table_sel)
  have up: "\<forall>d::mails_table. (\<lambda>_. True) d" by simp
  from smtp_ok_is_transmitted [OF d sample_modes(4-6) empty_table_reachable up empty_table_sel(4) c mails,
      where delay = "\<lambda>_. 1" and choice = "\<lambda>_. 0"]
  obtain m row m0 a db' where "[(sctx gateway_session, gateway_mail)] = [(sctx gateway_session, m)]"
    "m0 \<in> set (gateway_mails m)"
    "HandleMailQueue 1 2 steady (\<lambda>_. Ok ()) two_addresses (sql_CreateMail row Submitted empty_table) = Some (Ok (), a, db')"
    "filter (\<lambda>(i, _). i = next_id empty_table) a = [(next_id empty_table, mail_in_zone (local_zone empty_table) m0)]"
    "Body m0 = with_types (Body m)"
    by blast
  then show ?thesis unfolding empty_table_sel(1,2) using gateway_mails_eq by auto
qed


end
