(* ===== verification/Props_Mailer.thy ===== *)
theory Props_Mailer
  imports Samples
begin

text \<open>
  The properties of the mailer: what a rendered message is, what a receiver reads back, and
  what the two senders do with it.
\<close>

section \<open>The rendered message\<close>

text \<open>
  C4: no header injection from subject, header values and display names. Let the Message-ID and the
  domains of the addresses hold no line break, which the validation does not look for. Whatever a valid
  mail holds in its subject, its header values and its display names, the lines of the rendered message
  up to the first empty one are the header lines the mailer wrote, one per field, in order, and the rest
  is the encoded body.
\<close>

theorem message_header_lines:
  assumes "GetInternetMessageFormat rb m has8 = Ok s" and "labels_ok m"
  shows "\<exists>e. encode rb (Body m) (ContentType m) has8 = (Ok e :: (mail_error list, encodedPart) outcome)
    \<and> takeWhile (\<lambda>l. l \<noteq> []) (lines s) = imf_lines m e
    \<and> s = unlines (imf_lines m e) @ CRLF @ crlf_form (content e)"
  using assms by (rule GetInternetMessageFormat_shape)
    (metis message_lines takeWhile_header imf_lines_not_empty)

lemma message_header_lines_witness:
  "\<exists>e. encode (\<lambda>_. ''b'') (Body sample_mail) (ContentType sample_mail) False
      = (Ok e :: (mail_error list, encodedPart) outcome)
    \<and> takeWhile (\<lambda>l. l \<noteq> []) (lines sample_message) = imf_lines sample_mail e
    \<and> sample_message = unlines (imf_lines sample_mail e) @ CRLF @ crlf_form (content e)"
  by (rule message_header_lines [OF sample_rendered sample_facts(1)])

text \<open>
  The condition on the Message-ID is needed: a valid mail with a line break there is rendered with a
  header line that no field of the mail gives.
\<close>

definition injecting_mail :: mail where
  "injecting_mail = sample_mail\<lparr>MessageID := ''1@vis>'' @ CRLF @ ''X-Injected: <on''\<rparr>"

lemma message_id_injects:
  "ValidateMail injecting_mail = Ok ()
    \<and> (case GetInternetMessageFormat (\<lambda>_. ''b'') injecting_mail False of
        Ok s \<Rightarrow> ''X-Injected: <on>'' \<in> set (takeWhile (\<lambda>l. l \<noteq> []) (lines s)) | _ \<Rightarrow> False)"
  by (intro conjI; code_simp)

text \<open>
  C15: every reserved field of a valid mail is written from its own attribute, once (or not at
  all where the attribute is empty), and from no extra header; Bcc is never written.
\<close>

theorem reserved_fields_once:
  assumes "ValidateMail m = Ok ()"
  shows "fields_named ''From'' (imf_lines m e) = [''From: '' @ address_String (From m)]
    \<and> fields_named ''To'' (imf_lines m e) = address_line ''To'' (To m)
    \<and> fields_named ''Cc'' (imf_lines m e) = address_line ''Cc'' (Cc m)
    \<and> fields_named ''Bcc'' (imf_lines m e) = []
    \<and> fields_named ''Reply-To'' (imf_lines m e) = address_line ''Reply-To'' (ReplyTo m)
    \<and> fields_named ''Subject'' (imf_lines m e) = [''Subject: '' @ encodedHeaderVal (Subject m)]
    \<and> fields_named ''Date'' (imf_lines m e) = [''Date: '' @ format_RFC1123Z (Date m)]
    \<and> fields_named ''Message-Id'' (imf_lines m e) = [''Message-Id: <'' @ MessageID m @ ''>'']
    \<and> fields_named ''Content-Type'' (imf_lines m e) = (if ContentType m = [] then []
        else [''Content-Type: '' @ encodedHeaderVal (contentType e)])"
  using assms reserved_fields by (simp add: ValidateMail_Ok)

lemma reserved_fields_once_witness:
  "fields_named ''Bcc'' (imf_lines sample_mail (leaf_encode False ''a'' ''text/plain'')) = []
    \<and> fields_named ''To'' (imf_lines sample_mail (leaf_encode False ''a'' ''text/plain'')) = [''To: <bob@vis.ch>'']"
proof -
  have "address_line ''To'' (To sample_mail) = [''To: <bob@vis.ch>'']" by code_simp
  then show ?thesis
    using reserved_fields_once [OF sample_facts(3), of "leaf_encode False ''a'' ''text/plain''"] by simp
qed

text \<open>
  C19: let the addresses, the Message-ID, the content types and the header values of child parts be
  US-ASCII. Rendered without 8BITMIME, the whole message is US-ASCII, whatever its subject, its display
  names, the values of its own headers, its texts and its binary contents.
\<close>

theorem message_is_7bit:
  assumes "GetInternetMessageFormat rb m False = Ok s" and "ascii_mail m" and "\<forall>path. ascii (rb path)"
  shows "ascii s"
  using assms by (rule GetInternetMessageFormat_ascii)

lemma message_is_7bit_witness: "ascii sample_message"
  by (rule message_is_7bit [OF sample_rendered sample_facts(2)]) simp

text \<open>
  C6: round trip of a text mail. Let the Message-ID and the domains of the addresses hold no line break,
  which the validation does not look for. A reader that splits the message at its first empty line and
  undoes the transfer encoding named by the last header line gets the text back, its line
  ends in CRLF form; and no body line is longer than 998 bytes.
\<close>

theorem text_mail_roundtrip:
  assumes "GetInternetMessageFormat rb m has8 = Ok s" and "labels_ok m" and "Body m = Text t"
  shows "\<exists>hs cte body. s = unlines hs @ CRLF @ body \<and> list_all no_newline hs \<and> list_all (\<lambda>l. l \<noteq> []) hs
    \<and> last hs = ''Content-Transfer-Encoding: '' @ cte
    \<and> decode_transfer cte body = Some (crlf_form t) \<and> short_lines 998 body"
  using assms by (rule Text_mail_roundtrip)

lemma text_mail_roundtrip_witness:
  "\<exists>hs cte body. sample_message = unlines hs @ CRLF @ body \<and> list_all no_newline hs
    \<and> list_all (\<lambda>l. l \<noteq> []) hs \<and> last hs = ''Content-Transfer-Encoding: '' @ cte
    \<and> decode_transfer cte body = Some (crlf_form [CHR ''a'', LF, CHR 0xC3, CHR 0xA9]) \<and> short_lines 998 body"
  by (rule text_mail_roundtrip [OF sample_rendered sample_facts(1)]) (simp add: sample_mail_def)

text \<open>
  C20: a mail that passes validation and, where it is a multipart, has a content type, which the
  validation does not ask for, is rendered: no error and no panic, whatever the random boundaries.
\<close>

theorem valid_mail_renders:
  assumes "ValidateMail m = Ok ()" and "is_multipart (Body m) \<longrightarrow> ContentType m \<noteq> []"
  shows "\<exists>s. GetInternetMessageFormat rb m has8 = Ok s \<and> in_crlf_form s"
  using GetInternetMessageFormat_Ok [of m "()" rb has8] assms GetInternetMessageFormat_in_crlf_form
  by blast

lemma valid_mail_renders_witness:
  "\<exists>s. GetInternetMessageFormat (\<lambda>_. ''b'') sample_mail True = Ok s \<and> in_crlf_form s"
  by (rule valid_mail_renders [OF sample_facts(3)]) (simp add: sample_mail_def)

section \<open>Transfer encodings\<close>

text \<open>
  Whatever the bytes of a part in CRLF form, the receiver undoes the chosen transfer
  encoding after the final normalisation of line ends and has the bytes back; and no encoded
  line is longer than 998 bytes.
\<close>

lemma transfer_roundtrip:
  assumes "encodeBytes m b = (s, cte)" and "in_crlf_form b"
  shows "decode_transfer cte (normalize_newlines s) = Some b \<and> short_lines 998 (normalize_newlines s)"
  using encodeBytes_decode [OF assms] encodeBytes_short_lines [OF assms] by (simp add: normalize_newlines_eq)

lemma transfer_roundtrip_witness:
  "decode_transfer ''base64'' (normalize_newlines ''AAECAw=='') = Some [CHR 0x00, CHR 0x01, CHR 0x02, CHR 0x03]
    \<and> short_lines 998 (normalize_newlines ''AAECAw=='')"
proof (rule transfer_roundtrip)
  show "encodeBytes True [CHR 0x00, CHR 0x01, CHR 0x02, CHR 0x03] = (''AAECAw=='', ''base64'')" by code_simp
  show "in_crlf_form [CHR 0x00, CHR 0x01, CHR 0x02, CHR 0x03]" by simp
qed

text \<open>
  Base64 is only chosen where its size estimate is smaller than the one for
  quoted-printable, and its output, line breaks included, keeps to the estimate.
\<close>

lemma base64_choice:
  assumes "encodeBytes m b = (s, ''base64'')"
  shows "s = wrap76 (b64_encode b) \<and> length s \<le> estimateBase64 b
    \<and> estimateBase64 b < estimateQuotedPrintableSize b"
  using assms by (cases rule: encodeBytes_cases) (simp_all add: base64_within_estimate)

lemma base64_choice_witness:
  "length (wrap76 (b64_encode [CHR 0x00, CHR 0x01, CHR 0x02])) \<le> estimateBase64 [CHR 0x00, CHR 0x01, CHR 0x02]"
proof -
  have "encodeBytes True [CHR 0x00, CHR 0x01, CHR 0x02] = (''AAEC'', ''base64'')" by code_simp
  from base64_choice [OF this] show ?thesis by metis
qed

text \<open>
  C38: the three replacements of line ends are one pass over the text, give CRLF form, and
  leave text in CRLF form alone.
\<close>

theorem normalize_newlines_form:
  "normalize_newlines s = crlf_form s \<and> in_crlf_form (normalize_newlines s)
    \<and> normalize_newlines (normalize_newlines s) = normalize_newlines s"
  by (simp add: normalize_newlines_eq in_crlf_form_crlf_form crlf_form_id)

section \<open>Multiparts\<close>

text \<open>
  Whatever headers a child part brings, it is written with one Content-Transfer-Encoding,
  the encoder's, and one Content-Type, the one of its encoded part.
\<close>

lemma child_structural_headers_once:
  "filter (\<lambda>p. fst p = ''Content-Transfer-Encoding'') (child_mime_header hs e)
     = [(''Content-Transfer-Encoding'', contentTransferEncoding e)]
   \<and> filter (\<lambda>p. fst p = ''Content-Type'') (child_mime_header hs e) = [(''Content-Type'', contentType e)]"
  using child_header_structural by blast

text \<open>
  A multipart body without a content type passes the validation, and rendering the mail
  writes to a nil map.
\<close>

lemma multipart_without_type_panics:
  assumes "ValidateMail m = Ok ()" and "is_multipart (Body m)" and "ContentType m = []"
  shows "GetInternetMessageFormat rb m has8 = Panic Nil_Map_Write"
proof -
  obtain cs where "Body m = Multipart cs" using assms(2) by (cases "Body m") auto
  moreover have "fst (snd (parse_media_type [])) = None" by code_simp
  then obtain mt err where "parse_media_type [] = (mt, None, err)" by (cases "parse_media_type []") auto
  ultimately have "encode rb (Body m) (ContentType m) has8
      = (Panic Nil_Map_Write :: (mail_error list, encodedPart) outcome)"
    using assms(3) by (simp add: boundary_params_def param_def split: prod.splits)
  with assms(1) show ?thesis by (simp add: GetInternetMessageFormat_def)
qed

lemma multipart_without_type_panics_witness:
  "GetInternetMessageFormat (\<lambda>_. ''b'') (sample_mail\<lparr>ContentType := [], Body := Multipart []\<rparr>) True
    = Panic Nil_Map_Write"
  by (rule multipart_without_type_panics) code_simp+

section \<open>Senders\<close>

text \<open>
  What the SMTP sender hands to the server is at most one message: the mail rendered for
  7bit, with the From address and with every address of To, Cc and Bcc in the envelope, and
  its text does not depend on Bcc. It is handed over whenever the sender reports success.
\<close>

lemma smtp_envelope:
  assumes "smtp_TransmitMail deliver rb s (Some m) = (res, msgs)"
  shows "(msgs = [] \<and> res \<noteq> Ok ())
    \<or> (\<exists>t. GetInternetMessageFormat rb m False = Ok t
        \<and> (\<forall>bcc. GetInternetMessageFormat rb (m\<lparr>Bcc := bcc\<rparr>) False = Ok t)
        \<and> msgs = [\<lparr>smtp_addr = smtpHost s, smtp_auth = auth s, envelope_from = Address (From m),
             envelope_to = map Address (To m) @ map Address (Cc m) @ map Address (Bcc m), smtp_data = t\<rparr>])"
  using smtp_TransmitMail_sent [of deliver rb s "Some m"] smtp_TransmitMail_Ok [of deliver rb s "Some m"] assms
  by (auto simp: GetInternetMessageFormat_Bcc)

definition sample_sender :: SMTPMailSender where
  "sample_sender = \<lparr>defaultMailSenderAddress = ''api@vis.ch'', defaultMailSenderName = ''API'',
     smtpHost = ''localhost'', messageIDSuffix = ''vis'', auth = None\<rparr>"

lemma smtp_envelope_witness:
  "map envelope_to (snd (smtp_TransmitMail (\<lambda>_. None) (\<lambda>_. ''b'') sample_sender (Some sample_mail)))
    = [[''bob@vis.ch'', ''eve@vis.ch'']]"
proof -
  obtain res msgs where t: "smtp_TransmitMail (\<lambda>_. None) (\<lambda>_. ''b'') sample_sender (Some sample_mail) = (res, msgs)"
    by fastforce
  moreover have "fst (smtp_TransmitMail (\<lambda>_. None) (\<lambda>_. ''b'') sample_sender (Some sample_mail)) = Ok ()"
    by code_simp
  ultimately have "res = Ok ()" by simp
  with smtp_envelope [OF t] t show ?thesis by (auto simp: sample_mail_def)
qed

text \<open>
  A mail that went out through either sender was valid, went out once, in CRLF form, and
  is the mail rendered for that sender's transport; asking a sender twice for the sender
  address changes nothing.
\<close>

lemma senders_transmit_rendered:
  "(fst (smtp_TransmitMail deliver rb s (Some m)) = Ok () \<longrightarrow>
      (\<exists>t. GetInternetMessageFormat rb m False = Ok t
        \<and> map smtp_data (snd (smtp_TransmitMail deliver rb s (Some m))) = [t]))
   \<and> (fst (graph_TransmitMail http_do w now rb g m) = Ok () \<longrightarrow>
      (\<exists>t. GetInternetMessageFormat rb m True = Ok t
        \<and> graph_texts (fst (snd (graph_TransmitMail http_do w now rb g m))) = [t]))
   \<and> smtp_GetSender s (smtp_GetSender s a) = smtp_GetSender s a
   \<and> graph_GetSender g (graph_GetSender g a) = graph_GetSender g a"
  using smtp.transmit_Ok [of deliver rb s m] graph.transmit_Ok [of http_do w now rb g m]
    smtp.get_sender_idem [of s a] graph.get_sender_idem [of g a]
  by blast

lemma senders_transmit_rendered_witness:
  "\<exists>t. GetInternetMessageFormat (\<lambda>_. ''b'') sample_mail False = Ok t
    \<and> map smtp_data (snd (smtp_TransmitMail (\<lambda>_. None) (\<lambda>_. ''b'') sample_sender (Some sample_mail))) = [t]"
proof -
  have "fst (smtp_TransmitMail (\<lambda>_. None) (\<lambda>_. ''b'') sample_sender (Some sample_mail)) = Ok ()"
    by code_simp
  with senders_transmit_rendered [of "\<lambda>_. None" "\<lambda>_. ''b''" sample_sender sample_mail] show ?thesis by blast
qed

text \<open>
  The request of the Graph sender does not depend on Bcc: neither the message nor the
  request names a blind-copy recipient.
\<close>

lemma graph_ignores_bcc:
  "graph_TransmitMail http_do w now rb g (m\<lparr>Bcc := bcc\<rparr>) = graph_TransmitMail http_do w now rb g m"
  by (rule graph_TransmitMail_Bcc)

end
