(* ===== verification/Props_Queue.thy ===== *)
theory Props_Queue
  imports Samples
begin

text \<open>
  The properties of the storage and of the mail queue: what comes back from the database, and
  what happens to a mail in every history of the queue.
\<close>

section \<open>Storage\<close>

text \<open>
  C7: what is stored comes back. A mail whose strings are UTF-8, none of whose parts is empty and
  whose addresses the parser reads back from what \<open>String\<close> printed is converted to a row, and the
  row back to that mail, header order and nested parts included. The database keeps the instant of the
  date and not its zone: read in whatever zone, the row gives the mail with its date in that zone.
\<close>

theorem stored_mail_roundtrip:
  assumes "mail_storable m"
    and "\<forall>a \<in> set (all_addresses m). parse_address (address_String a) = Some a \<and> Address a \<noteq> []"
  shows "\<exists>row. MailToDBEntity m = Ok row \<and> DBEntityToMail parse_address row = Ok m
    \<and> (\<forall>z. DBEntityToMail parse_address (row_in_zone z row) = Ok (m\<lparr>Date := (Date m)\<lparr>zone := z (unix (Date m))\<rparr>\<rparr>))"
proof -
  from assms(2) have "list_all (\<lambda>a. parse_address (address_String a) = Some a \<and> Address a \<noteq> []) (all_addresses m)"
    by (simp add: list_all_iff)
  from DBEntityToMail_MailToDBEntity [OF assms(1) this] show ?thesis
    by (auto simp: DBEntityToMail_in_zone mail_in_zone_def in_zone_def)
qed

lemma stored_mail_roundtrip_witness:
  "\<exists>row. MailToDBEntity sample_mail = Ok row \<and> DBEntityToMail sample_parser row = Ok sample_mail
    \<and> DBEntityToMail sample_parser (row_in_zone (\<lambda>_. 0) row) = Ok (mail_in_zone (\<lambda>_. 0) sample_mail)"
proof -
  have "mail_storable sample_mail" by code_simp
  moreover have "\<forall>a \<in> set (all_addresses sample_mail). sample_parser (address_String a) = Some a \<and> Address a \<noteq> []"
    by code_simp
  ultimately show ?thesis
    using stored_mail_roundtrip [of sample_mail sample_parser] by (auto simp: mail_in_zone_def in_zone_def)
qed

text \<open>
  C40: a mail with an empty text is stored, but comes back without a part, whatever the zone of the
  reader, and both senders panic on it: the dispatcher that pops it is ended by the panic, after it has
  set the mail's status to failed.
\<close>

theorem stored_empty_text_panics:
  assumes "Body m = Text []" and "valid_utf8 (ContentType m)" and "list_all header_storable (Headers m)"
    and "\<forall>a \<in> set (all_addresses m). parse_address (address_String a) = Some a \<and> Address a \<noteq> []"
    and "MessageID m \<noteq> []" and "MailToDBEntity m = Ok row" and "Row r = row_in_zone z row"
  shows "DBEntityToMail parse_address (Row r) = Ok ((mail_in_zone z m)\<lparr>Body := NoPart\<rparr>)
    \<and> fst (handle_popped (\<lambda>q. fst (smtp_TransmitMail deliver rb s (Some q))) parse_address r) = Panic Nil_Deref
    \<and> fst (handle_popped (\<lambda>q. fst (graph_TransmitMail http_do w now rb g q)) parse_address r) = Panic Nil_Deref
    \<and> snd (snd (handle_popped (\<lambda>q. fst (smtp_TransmitMail deliver rb s (Some q))) parse_address r)) = Failed
    \<and> snd (snd (handle_popped (\<lambda>q. fst (graph_TransmitMail http_do w now rb g q)) parse_address r)) = Failed"
proof -
  let ?m = "(mail_in_zone z m)\<lparr>Body := NoPart\<rparr>"
  have "\<exists>row. MailToDBEntity m = Ok row \<and> DBEntityToMail parse_address row
      = Ok (m\<lparr>Body := reconstructMailBodyFromDbObject (PartV1 [] (ContentType m) [] [] [])\<rparr>)"
    by (rule DBEntityToMail_built) (use assms in \<open>simp_all add: list_all_iff ascii_valid_utf8\<close>)
  with assms(6) have "DBEntityToMail parse_address row = Ok (m\<lparr>Body := NoPart\<rparr>)" by auto
  then have stored: "DBEntityToMail parse_address (Row r) = Ok ?m"
    by (simp add: assms(7) DBEntityToMail_in_zone mail_in_zone_def)
  have "GetInternetMessageFormat rb ?m has8 = Panic Nil_Deref" for has8
    by (simp add: GetInternetMessageFormat_def ValidateMail_def validate_panic_NoPart)
  then have "fst (smtp_TransmitMail deliver rb s (Some ?m)) = Panic Nil_Deref"
    "fst (graph_TransmitMail http_do w now rb g ?m) = Panic Nil_Deref"
    using assms(5) by (simp_all add: smtp_TransmitMail_def graph_TransmitMail_def)
  with stored show ?thesis by (simp add: handle_popped_def)
qed

lemma stored_empty_text_panics_witness:
  "DBEntityToMail sample_parser (Row (hd (rows sample_empty_table)))
    = Ok ((mail_in_zone (\<lambda>_. 0) sample_mail)\<lparr>Body := NoPart\<rparr>)"
proof -
  obtain row where row: "MailToDBEntity (sample_mail\<lparr>Body := Text []\<rparr>) = Ok row"
    by (simp add: MailToDBEntity_def sample_mail_def)
  have z: "Row (hd (rows sample_empty_table)) = row_in_zone (\<lambda>_. 0) row"
    using row by (simp add: sample_empty_table_def sql_CreateMail_def empty_table_def)
  have "DBEntityToMail sample_parser (Row (hd (rows sample_empty_table)))
      = Ok ((mail_in_zone (\<lambda>_. 0) (sample_mail\<lparr>Body := Text []\<rparr>))\<lparr>Body := NoPart\<rparr>)"
    by (rule conjunct1 [OF stored_empty_text_panics [OF _ _ _ _ _ row z]]) code_simp+
  then show ?thesis by (simp add: mail_in_zone_def)
qed

section \<open>The queue\<close>

text \<open>
  C39: no retry and no clean-up. In every reachable state the statement that pops mails selects
  the submitted ones alone, so a failed mail, or one whose process died, stays as it is; and
  \<open>DeleteOldMails\<close> deletes nothing.
\<close>

theorem failed_mails_stay:
  assumes "queue_reachable (db, log)"
  shows "filter (poppable (clock db) retryFailedIntervalMicroseconds) (rows db)
      = filter (\<lambda>r. Status r = Submitted) (rows db)
    \<and> sql_DeleteOldMails (keepMailsForIntervalDays * 86400000000) db = db"
proof -
  have inv: "table_inv db" using queue_inv_reachable [OF assms] by (simp add: queue_inv_def)
  have "filter (poppable (clock db) retryFailedIntervalMicroseconds) (rows db)
      = filter (\<lambda>r. Status r = Submitted) (rows db)"
    by (rule filter_cong) (simp_all add: poppable_inv [OF inv] retryFailedIntervalMicroseconds_def)
  with DeleteOldMails_keeps_all [OF inv] show ?thesis by (simp add: keepMailsForIntervalDays_def)
qed

lemma failed_mails_stay_witness:
  "sql_DeleteOldMails (keepMailsForIntervalDays * 86400000000) (snd (snd sample_round)) = snd (snd sample_round)"
  using failed_mails_stay [OF sample_round_reachable] by blast

text \<open>
  After a round that took a mail, the mail's status is \<open>Sent\<close> exactly where the
  transmission succeeded, and \<open>Failed\<close> otherwise, after a panic too.
\<close>

lemma round_sets_status:
  assumes "queue_reachable (db, log)" and "\<forall>d. up d"
    and "popAndHandleMail (pg_queries up delay choice) transmit pa db = (res, a, db')" and "res \<noteq> Ok True"
  shows "\<exists>i \<in> submitted db. \<forall>r \<in> set (rows db'). ID r = i \<longrightarrow> Status r = (if res = Ok False then Sent else Failed)"
proof -
  have "table_inv db" using queue_inv_reachable [OF assms(1)] by (simp add: queue_inv_def)
  then show ?thesis using assms(2-) by (rule handled_status)
qed

lemma round_sets_status_witness:
  "map Status (rows (snd (snd sample_round))) = [Sent]"
proof -
  have "popAndHandleMail steady (\<lambda>_. Ok ()) sample_parser sample_table
      = (Ok False, fst (snd sample_round), snd (snd sample_round))"
    using sample_round_log(2) by (simp add: sample_round_def prod_eq_iff)
  from round_sets_status [OF sample_table_reachable _ this]
  have "\<forall>r \<in> set (rows (snd (snd sample_round))). ID r = 1 \<longrightarrow> Status r = Sent"
    by (simp add: sample_submitted)
  moreover have "map ID (rows (snd (snd sample_round))) = [1]" by code_simp
  ultimately show ?thesis by auto
qed

text \<open>
  C18: the inner loop of the dispatcher ends: with more rounds than there are submitted mails it
  has returned, whatever the sender, the database and the stored rows do; it tried submitted
  mails only, each once, and none of them is submitted any more.
\<close>

theorem drain_terminates:
  assumes "queue_reachable (db, log)" and "card (submitted db) < n"
  shows "\<exists>res a db'. drain n (pg_queries up delay choice) transmit pa db = Some (res, a, db')
    \<and> distinct (map fst a) \<and> set (map fst a) \<subseteq> submitted db - submitted db'
    \<and> (res = Ok () \<longrightarrow> set (map fst a) = submitted db)"
proof -
  have inv: "queue_ok (\<lambda>_ _. True) db"
    using queue_inv_reachable [OF assms(1)] by (simp add: queue_inv_def stored_rows_def list_all_iff)
  then obtain res a db' where d: "drain n (pg_queries up delay choice) transmit pa db = Some (res, a, db')"
    using pg.drain_ends [OF inv assms(2)] by (metis not_None_eq prod_cases3)
  with pg.drain_attempts [OF inv d] show ?thesis by blast
qed

lemma drain_terminates_witness:
  "\<exists>res a db'. drain 2 steady (\<lambda>_. Err Empty_Mail) sample_parser sample_table = Some (res, a, db')
    \<and> distinct (map fst a) \<and> set (map fst a) \<subseteq> submitted sample_table - submitted db'
    \<and> (res = Ok () \<longrightarrow> set (map fst a) = submitted sample_table)"
  by (rule drain_terminates [OF sample_table_reachable]) (simp add: sample_submitted)

text \<open>
  C16: the queue empties. With a database that answers and mails whose handling does not panic,
  as many ticks as there are submitted mails leave none submitted, failing transmissions
  included, and the dispatcher never ends on its own. What it has handed to the transmitter are
  exactly the submitted mails whose rows decode, each once and as it was stored.
\<close>

theorem queue_is_emptied:
  assumes "queue_reachable (db, log)" and "\<forall>d. up d" and "all_rows (row_handled transmit pa) db"
    and "card (submitted db) < fuel" and "card (submitted db) \<le> ticks"
  shows "\<exists>a db'. HandleMailQueue ticks fuel (pg_queries up delay choice) transmit pa db = Some (Ok (), a, db')
    \<and> submitted db' = {} \<and> distinct (map fst a)
    \<and> set a = {(ID r, m) | r m. r \<in> set (rows db) \<and> Status r = Submitted \<and> DBEntityToMail pa (Row r) = Ok m}"
proof -
  have "table_inv db" using queue_inv_reachable [OF assms(1)] by (simp add: queue_inv_def)
  from pg_queue_empties [OF assms(2) this assms(3-5)] show ?thesis unfolding waiting_mails_def .
qed

lemma single_waiting:
  assumes "rows db = [r0]" and "Status r0 = Submitted" and "DBEntityToMail pa (Row r0) = Ok m0"
  shows "{(ID r, m) | r m. r \<in> set (rows db) \<and> Status r = Submitted \<and> DBEntityToMail pa (Row r) = Ok m} = {(ID r0, m0)}"
  using assms by auto

lemma queue_is_emptied_witness:
  "\<exists>a db'. HandleMailQueue 1 2 steady (\<lambda>_. Err Empty_Mail) sample_parser sample_table = Some (Ok (), a, db')
    \<and> submitted db' = {} \<and> a = [(1, mail_in_zone (\<lambda>_. 0) sample_mail)]"
proof -
  have "\<exists>a db'. HandleMailQueue 1 2 steady (\<lambda>_. Err Empty_Mail) sample_parser sample_table = Some (Ok (), a, db')
      \<and> submitted db' = {} \<and> distinct (map fst a)
      \<and> set a = {(ID r, m) | r m. r \<in> set (rows sample_table) \<and> Status r = Submitted
          \<and> DBEntityToMail sample_parser (Row r) = Ok m}"
  proof (rule queue_is_emptied [OF sample_table_reachable])
    show "all_rows (row_handled (\<lambda>_. Err Empty_Mail) sample_parser) sample_table" by code_simp
  qed (simp_all add: sample_submitted)
  then obtain a db' where h: "HandleMailQueue 1 2 steady (\<lambda>_. Err Empty_Mail) sample_parser sample_table = Some (Ok (), a, db')"
    "submitted db' = {}" "distinct (map fst a)"
    and a: "set a = {(ID r, m) | r m. r \<in> set (rows sample_table) \<and> Status r = Submitted
          \<and> DBEntityToMail sample_parser (Row r) = Ok m}" by blast
  obtain r0 where r0: "rows sample_table = [r0]" "ID r0 = 1" "Status r0 = Submitted"
    "DBEntityToMail sample_parser (Row r0) = Ok (mail_in_zone (\<lambda>_. 0) sample_mail)"
  proof (rule that)
    show "rows sample_table = [hd (rows sample_table)]" by code_simp
  qed code_simp+
  from a have "set a = {(1, mail_in_zone (\<lambda>_. 0) sample_mail)}"
    unfolding single_waiting [OF r0(1,3,4)] r0(2) .
  with h show ?thesis using distinct_keys_singleton by blast
qed

end
