(* ===== verification/Token_Concurrent.thy ===== *)
theory Token_Concurrent
  imports Auth_Token_Provider
begin

text \<open>
  Calls of \<open>GetAccessToken\<close> on one provider that overlap, as the sessions of a proxy that injects its
  own token make them: the provider has no lock. A call is cut at its reads and writes of the stored
  token and of its expiry, which are two fields.
\<close>

section \<open>Calls on a shared provider\<close>

datatype token_pc =
    Read_Token
  | Read_Expiry
  | Refresh
  | Write_Token string int64
  | Write_Expiry int64
  | Return_Token
  | Returned "string option"
  | Failed_Call

text \<open>A call with the time at which it compares the expiry, and whether it has fetched a token.\<close>

record token_call =
  tc_pc :: token_pc
  tc_now :: int64
  tc_fetched :: bool

definition new_token_call :: "int64 \<Rightarrow> token_call" where
  "new_token_call now = \<lparr>tc_pc = Read_Token, tc_now = now, tc_fetched = False\<rparr>"

text \<open>The provider and the tokens that the endpoint has given so far. The endpoint may answer every
  request differently (\<open>post\<close>).\<close>

type_synonym token_shared = "OidcTokenProvider \<times> string list"

inductive token_step :: "token_world \<Rightarrow> token_shared \<times> token_call \<Rightarrow> token_shared \<times> token_call \<Rightarrow> bool" for w where
  no_account: "tc_pc c = Read_Token \<Longrightarrow> no_credentials tp
    \<Longrightarrow> token_step w ((tp, ts), c) ((tp, ts), c\<lparr>tc_pc := Returned (Some [])\<rparr>)"
| no_token: "tc_pc c = Read_Token \<Longrightarrow> \<not> no_credentials tp \<Longrightarrow> accessToken tp = None
    \<Longrightarrow> token_step w ((tp, ts), c) ((tp, ts), c\<lparr>tc_pc := Refresh\<rparr>)"
| some_token: "tc_pc c = Read_Token \<Longrightarrow> \<not> no_credentials tp \<Longrightarrow> accessToken tp = Some t
    \<Longrightarrow> token_step w ((tp, ts), c) ((tp, ts), c\<lparr>tc_pc := Read_Expiry\<rparr>)"
| no_expiry: "tc_pc c = Read_Expiry \<Longrightarrow> expiry tp = None
    \<Longrightarrow> token_step w ((tp, ts), c) ((tp, ts), c\<lparr>tc_pc := Refresh\<rparr>)"
| too_late: "tc_pc c = Read_Expiry \<Longrightarrow> expiry tp = Some e \<Longrightarrow> sint (e - 5) < sint (tc_now c)
    \<Longrightarrow> token_step w ((tp, ts), c) ((tp, ts), c\<lparr>tc_pc := Refresh\<rparr>)"
| in_time: "tc_pc c = Read_Expiry \<Longrightarrow> expiry tp = Some e \<Longrightarrow> sint (tc_now c) \<le> sint (e - 5)
    \<Longrightarrow> token_step w ((tp, ts), c) ((tp, ts), c\<lparr>tc_pc := Return_Token\<rparr>)"
| fetch: "tc_pc c = Refresh
    \<Longrightarrow> refreshAccessToken (w\<lparr>http_post := post\<rparr>) tp = (Ok (), tp') \<Longrightarrow> accessToken tp' = Some t \<Longrightarrow> expiry tp' = Some e
    \<Longrightarrow> token_step w ((tp, ts), c) ((tp, ts @ [t]), c\<lparr>tc_pc := Write_Token t e, tc_fetched := True\<rparr>)"
| fail: "tc_pc c = Refresh \<Longrightarrow> refreshAccessToken (w\<lparr>http_post := post\<rparr>) tp = (Err er, tp)
    \<Longrightarrow> token_step w ((tp, ts), c) ((tp, ts), c\<lparr>tc_pc := Failed_Call\<rparr>)"
| write_token: "tc_pc c = Write_Token t e
    \<Longrightarrow> token_step w ((tp, ts), c) ((tp\<lparr>accessToken := Some t\<rparr>, ts), c\<lparr>tc_pc := Write_Expiry e\<rparr>)"
| write_expiry: "tc_pc c = Write_Expiry e
    \<Longrightarrow> token_step w ((tp, ts), c) ((tp\<lparr>expiry := Some e\<rparr>, ts), c\<lparr>tc_pc := Return_Token\<rparr>)"
| return: "tc_pc c = Return_Token
    \<Longrightarrow> token_step w ((tp, ts), c) ((tp, ts), c\<lparr>tc_pc := Returned (accessToken tp)\<rparr>)"

inductive provider_step :: "token_world \<Rightarrow> token_shared \<times> token_call list \<Rightarrow> token_shared \<times> token_call list \<Rightarrow> bool"
  for w where
  arrive: "provider_step w (s, cs) (s, cs @ [new_token_call now])"
| step: "i < length cs \<Longrightarrow> token_step w (s, cs ! i) (s', c') \<Longrightarrow> provider_step w (s, cs) (s', cs[i := c'])"

inductive provider_reachable :: "token_world \<Rightarrow> token_shared \<times> token_call list \<Rightarrow> bool" for w where
  start: "provider_reachable w ((NewOidcTokenProvider endpoint cid secret [], []), [])"
| step: "provider_reachable w st \<Longrightarrow> provider_step w st st' \<Longrightarrow> provider_reachable w st'"

section \<open>What is returned was fetched\<close>

definition is_jwt :: "token_world \<Rightarrow> string \<Rightarrow> bool" where
  "is_jwt w t \<longleftrightarrow> (\<exists>e. getExpiryTimestamp w t = Ok e)"

text \<open>A call that has seen a token, or written one, finds one when it returns.\<close>

definition token_call_inv :: "token_shared \<Rightarrow> token_call \<Rightarrow> bool" where
  "token_call_inv s c \<longleftrightarrow> (case tc_pc c of
      Write_Token t e \<Rightarrow> t \<in> set (snd s)
    | Read_Expiry \<Rightarrow> accessToken (fst s) \<noteq> None
    | Write_Expiry e \<Rightarrow> accessToken (fst s) \<noteq> None
    | Return_Token \<Rightarrow> accessToken (fst s) \<noteq> None
    | Returned r \<Rightarrow> (\<exists>t \<in> set (snd s). r = Some t) \<or> (no_credentials (fst s) \<and> r = Some [])
    | _ \<Rightarrow> True)"

definition provider_inv :: "token_world \<Rightarrow> token_shared \<times> token_call list \<Rightarrow> bool" where
  "provider_inv w st \<longleftrightarrow> (\<forall>t. accessToken (fst (fst st)) = Some t \<longrightarrow> t \<in> set (snd (fst st)))
     \<and> (\<forall>t \<in> set (snd (fst st)). is_jwt w t) \<and> (\<forall>c \<in> set (snd st). token_call_inv (fst st) c)"

lemma getExpiryTimestamp_post: "getExpiryTimestamp (w\<lparr>http_post := post\<rparr>) t = getExpiryTimestamp w t"
  by (simp add: getExpiryTimestamp_def Let_def split: option.split)

lemma fetched_is_jwt:
  assumes "refreshAccessToken (w\<lparr>http_post := post\<rparr>) tp = (Ok (), tp')" and "accessToken tp' = Some t"
    and "expiry tp' = Some e"
  shows "getExpiryTimestamp w t = Ok e"
  using assms
  by (cases rule: refresh_cases [of "w\<lparr>http_post := post\<rparr>" tp]) (auto simp: getExpiryTimestamp_post)

text \<open>What a step leaves to the other calls: the account and a token stay, and what was fetched stays
  fetched.\<close>

definition keeps_tokens :: "token_shared \<Rightarrow> token_shared \<Rightarrow> bool" where
  "keeps_tokens s s' \<longleftrightarrow> sa (fst s') = sa (fst s) \<and> (accessToken (fst s) \<noteq> None \<longrightarrow> accessToken (fst s') \<noteq> None)
     \<and> set (snd s) \<subseteq> set (snd s')"

lemma token_call_inv_keeps: "keeps_tokens s s' \<Longrightarrow> token_call_inv s c \<Longrightarrow> token_call_inv s' c"
  by (auto simp: token_call_inv_def keeps_tokens_def no_credentials_def split: token_pc.splits)

lemma token_step_inv:
  assumes "token_step w (s, c) (s', c')" and "provider_inv w (s, [c])"
  shows "provider_inv w (s', [c']) \<and> keeps_tokens s s'"
  using assms(1)
proof cases
  case (fetch post tp tp' t e ts)
  with assms(2) fetched_is_jwt [of post w tp tp' t e] show ?thesis
    by (auto simp: provider_inv_def token_call_inv_def keeps_tokens_def is_jwt_def)
qed (use assms(2) in \<open>auto simp: provider_inv_def token_call_inv_def keeps_tokens_def\<close>)

lemma provider_inv_step: "provider_step w st st' \<Longrightarrow> provider_inv w st \<Longrightarrow> provider_inv w st'"
proof (induction rule: provider_step.induct)
  case (arrive s cs now)
  then show ?case by (auto simp: provider_inv_def new_token_call_def token_call_inv_def)
next
  case (step i cs s s' c')
  then have "provider_inv w (s, [cs ! i])" by (simp add: provider_inv_def)
  from token_step_inv [OF step(2) this] have i: "provider_inv w (s', [c'])" "keeps_tokens s s'" by simp_all
  have "\<forall>c \<in> set (cs[i := c']). token_call_inv s' c"
    using step(3) i token_call_inv_keeps [OF i(2)]
    by (auto simp: provider_inv_def simp del: split_paired_All dest!: set_update_subset_insert [THEN subsetD])
  with i(1) show ?case by (simp add: provider_inv_def)
qed

lemma provider_inv_reachable: "provider_reachable w st \<Longrightarrow> provider_inv w st"
proof (induction rule: provider_reachable.induct)
  case (start endpoint cid secret)
  show ?case by (simp add: provider_inv_def NewOidcTokenProvider_def)
next
  case (step st st')
  then show ?case using provider_inv_step by blast
qed

lemma returned_was_fetched:
  assumes "provider_reachable w ((tp, ts), cs)" and "c \<in> set cs" and "tc_pc c = Returned r"
  shows "(no_credentials tp \<and> r = Some []) \<or> (\<exists>t e. r = Some t \<and> t \<in> set ts \<and> getExpiryTimestamp w t = Ok e)"
  using provider_inv_reachable [OF assms(1)] assms(2,3)
  by (fastforce simp: provider_inv_def token_call_inv_def is_jwt_def)

section \<open>A token under the expiry of another\<close>

lemma provider_run:
  assumes "provider_reachable w (s, cs)" and "i < length cs" and "token_step w (s, cs ! i) (s', c')"
  shows "provider_reachable w (s', cs[i := c'])"
  using assms(1) provider_step.step [OF assms(2,3)] by (rule provider_reachable.step)

text \<open>A call that finds no token gets as far as having fetched one.\<close>

lemma provider_run_fetch:
  assumes "provider_reachable w ((tp, ts), cs)" and "i < length cs" and "tc_pc (cs ! i) = Read_Token" and "accessToken tp = None" and "\<not> no_credentials tp"
    and "refreshAccessToken (w\<lparr>http_post := post\<rparr>) tp = (Ok (), tp')" and "accessToken tp' = Some t" and "expiry tp' = Some e"
  shows "provider_reachable w ((tp, ts @ [t]), cs[i := (cs ! i)\<lparr>tc_pc := Write_Token t e, tc_fetched := True\<rparr>])"
proof -
  from provider_run [OF assms(1,2) no_token [OF assms(3,5,4)]]
  have "provider_reachable w ((tp, ts), cs[i := (cs ! i)\<lparr>tc_pc := Refresh\<rparr>])" .
  from provider_run [OF this _ fetch [OF _ assms(6-8)], of i] assms(2) show ?thesis by simp
qed

text \<open>
  Two calls fetch a token each, \<open>t1\<close> and \<open>t2\<close>; the token that is written last is \<open>t1\<close> and the expiry
  that is written last is that of \<open>t2\<close>. A third call, at any time before that expiry, is
  given \<open>t1\<close>, whatever the times of the first two.
\<close>

lemma token_under_other_expiry:
  fixes w endpoint cid secret and now1 now2 :: int64
  defines "tp0 \<equiv> NewOidcTokenProvider endpoint cid secret []"
  assumes "refreshAccessToken (w\<lparr>http_post := post1\<rparr>) tp0 = (Ok (), tp1)" and "accessToken tp1 = Some t1" and "expiry tp1 = Some e1"
    and "refreshAccessToken (w\<lparr>http_post := post2\<rparr>) tp0 = (Ok (), tp2)" and "accessToken tp2 = Some t2" and "expiry tp2 = Some e2"
    and "sint now \<le> sint (e2 - 5)" and "cid \<noteq> [] \<or> secret \<noteq> []"
  shows "\<exists>s cs c. provider_reachable w (s, cs) \<and> c \<in> set cs \<and> tc_now c = now \<and> \<not> tc_fetched c \<and> tc_pc c = Returned (Some t1)"
proof -
  let ?c1 = "new_token_call now1" and ?c2 = "new_token_call now2" and ?c = "new_token_call now"
  let ?f1 = "\<lparr>tc_pc = Write_Token t1 e1, tc_now = now1, tc_fetched = True\<rparr>"
  let ?f2 = "\<lparr>tc_pc = Write_Token t2 e2, tc_now = now2, tc_fetched = True\<rparr>"
  \<comment> \<open>the provider after each write, and the calls at their later points\<close>
  let ?pA = "tp0\<lparr>accessToken := Some t2\<rparr>" and ?pB = "tp0\<lparr>accessToken := Some t1\<rparr>"
    and ?pC = "tp0\<lparr>accessToken := Some t1, expiry := Some e1\<rparr>" and ?pD = "tp0\<lparr>accessToken := Some t1, expiry := Some e2\<rparr>"
  let ?g1 = "?f1\<lparr>tc_pc := Write_Expiry e1\<rparr>" and ?g2 = "?f2\<lparr>tc_pc := Write_Expiry e2\<rparr>"
    and ?h1 = "?f1\<lparr>tc_pc := Return_Token\<rparr>" and ?h2 = "?f2\<lparr>tc_pc := Return_Token\<rparr>"
  let ?d = "?c\<lparr>tc_pc := Read_Expiry\<rparr>" and ?e = "?c\<lparr>tc_pc := Return_Token\<rparr>" and ?r = "?c\<lparr>tc_pc := Returned (Some t1)\<rparr>"
  have none: "accessToken tp0 = None" "\<not> no_credentials tp0"
    using assms(9) by (auto simp: tp0_def NewOidcTokenProvider_def no_credentials_def)
  have "provider_reachable w ((tp0, []), [])" unfolding tp0_def by (rule provider_reachable.start)
  from provider_reachable.step [OF provider_reachable.step [OF provider_reachable.step [OF this
      provider_step.arrive [of w _ _ now1]] provider_step.arrive [of w _ _ now2]] provider_step.arrive [of w _ _ now]]
  have r: "provider_reachable w ((tp0, []), [?c1, ?c2, ?c])" by simp
  have r1: "provider_reachable w ((tp0, [t1]), [?f1, ?c2, ?c])"
    using provider_run_fetch [OF r, of 0, OF _ _ none assms(2-4)] by (simp add: new_token_call_def)
  have r2: "provider_reachable w ((tp0, [t1, t2]), [?f1, ?f2, ?c])"
    using provider_run_fetch [OF r1, of 1, OF _ _ none assms(5-7)] by (simp add: new_token_call_def)
  have r3: "provider_reachable w ((?pA, [t1, t2]), [?f1, ?g2, ?c])"
    using provider_run [OF r2, of 1 "(?pA, [t1, t2])" ?g2]
      write_token [of ?f2 t2 e2 w tp0 "[t1, t2]"] by (simp add: new_token_call_def)
  have r4: "provider_reachable w ((?pB, [t1, t2]), [?g1, ?g2, ?c])"
    using provider_run [OF r3, of 0 "(?pB, [t1, t2])" ?g1]
      write_token [of ?f1 t1 e1 w ?pA "[t1, t2]"] by (simp add: new_token_call_def)
  have r5: "provider_reachable w ((?pC, [t1, t2]), [?h1, ?g2, ?c])"
    using provider_run [OF r4, of 0 "(?pC, [t1, t2])" ?h1]
      write_expiry [of ?g1 e1 w ?pB "[t1, t2]"] by (simp add: new_token_call_def)
  have r6: "provider_reachable w ((?pD, [t1, t2]), [?h1, ?h2, ?c])"
    using provider_run [OF r5, of 1 "(?pD, [t1, t2])" ?h2]
      write_expiry [of ?g2 e2 w ?pC "[t1, t2]"] by (simp add: new_token_call_def)
  have r7: "provider_reachable w ((?pD, [t1, t2]), [?h1, ?h2, ?d])"
    using provider_run [OF r6, of 2 "(?pD, [t1, t2])" ?d]
      some_token [of ?c ?pD t1 w "[t1, t2]"] none(2) by (simp add: new_token_call_def no_credentials_def)
  have r8: "provider_reachable w ((?pD, [t1, t2]), [?h1, ?h2, ?e])"
    using provider_run [OF r7, of 2 "(?pD, [t1, t2])" ?e]
      in_time [of ?d ?pD e2 w "[t1, t2]"] assms(8) by (simp add: new_token_call_def)
  have r9: "provider_reachable w ((?pD, [t1, t2]), [?h1, ?h2, ?r])"
    using provider_run [OF r8, of 2 "(?pD, [t1, t2])" ?r]
      return [of ?e w ?pD "[t1, t2]"] by (simp add: new_token_call_def)
  from r9 show ?thesis
    by (intro exI [of _ ?r] exI conjI) (assumption, simp_all add: new_token_call_def)
qed

end
