(* ===== verification/Props_Grpc.thy ===== *)
theory Props_Grpc
  imports Samples Token_Concurrent
begin

text \<open>
  The properties of the mail service: who may send what, what an accepted mail is, and what the
  three calls do to the sender and to the database; and those of the provider of tokens.
\<close>

section \<open>Permissions\<close>

text \<open>
  C5: end to end. Let the server not be unauthenticated. Behind the interceptor, a call has an effect
  only where exactly one bearer token came with it, the token was verified for this issuer and this
  client, and the roles it holds for this client allow to mail, and to mail from the sender of the
  mail that is transmitted or stored.
\<close>

theorem effects_need_verified_token:
  assumes "claims ctx = None" and "\<not> unauthenticated s"
    and "e \<in> set (GetGrpcAuthInterceptor jwt iss cid ctx (\<lambda>c. snd (QueueMail w s c req)
      @ snd (SendMail w s c req) @ snd (SendDryRun w s c req)))"
  shows "\<exists>md tok parsed client roles. metadata ctx = Some md
    \<and> md_get md ''Authorization'' = [''Bearer '' @ tok] \<and> jwt iss cid tok = Some (parsed, True)
    \<and> ResourceAccess parsed cid = Some client \<and> client ''roles'' = Some roles \<and> ''mail'' \<in> set roles
    \<and> (\<forall>m. e = Transmitted m \<longrightarrow> ''mail-sender:'' @ Address (From m) \<in> set roles)
    \<and> (\<forall>row st d. e = Created row st d \<longrightarrow>
        (\<exists>m. MailToDBEntity m = Ok row \<and> ''mail-sender:'' @ Address (From m) \<in> set roles))"
proof -
  obtain m md tok where m: "metadata ctx = Some md" "md_get md ''Authorization'' = [''Bearer '' @ tok]"
    "token_allows jwt iss cid tok m" "effect_of m e"
    using intercepted_effect [OF assms] by blast
  then have "m' = m" if "e = Transmitted m'" for m'
    using that by (auto simp: effect_of_def create_effect_def)
  moreover have "MailToDBEntity m = Ok row" if "e = Created row st d" for row st d
    using m(4) that by (auto simp: effect_of_def create_effect_def)
  moreover obtain parsed client roles where "jwt iss cid tok = Some (parsed, True)" "ResourceAccess parsed cid = Some client"
    "client ''roles'' = Some roles" "''mail'' \<in> set roles" "''mail-sender:'' @ Address (From m) \<in> set roles"
    using m(3) by (auto simp: token_allows_def)
  ultimately show ?thesis using m(1,2)
    by (intro exI [of _ md] exI [of _ tok] exI [of _ parsed] exI [of _ client] exI [of _ roles]) auto
qed

lemma effects_need_verified_token_witness:
  "\<exists>md tok parsed client roles. metadata sample_bearer_ctx = Some md
    \<and> md_get md ''Authorization'' = [''Bearer '' @ tok] \<and> sample_jwt ''iss'' ''api'' tok = Some (parsed, True)
    \<and> ResourceAccess parsed ''api'' = Some client \<and> client ''roles'' = Some roles \<and> ''mail'' \<in> set roles
    \<and> (\<forall>m. Transmitted sample_sanitized = Transmitted m \<longrightarrow> ''mail-sender:'' @ Address (From m) \<in> set roles)
    \<and> (\<forall>row st d. Transmitted sample_sanitized = Created row st d \<longrightarrow>
        (\<exists>m. MailToDBEntity m = Ok row \<and> ''mail-sender:'' @ Address (From m) \<in> set roles))"
  by (rule effects_need_verified_token [where s = strict_server and w = sample_world and req = sample_request])
     code_simp+

text \<open>
  C10: where authentication is required, every mail that a call transmits or stores is one that
  was made from its request and that the caller's claims permit, extra headers and the limit on
  the size of the rendered mail included.
\<close>

theorem effects_permitted:
  assumes "\<not> unauthenticated s"
    and "e \<in> set (snd (QueueMail w s ctx req)) \<union> set (snd (SendMail w s ctx req)) \<union> set (snd (SendDryRun w s ctx req))"
  shows "\<exists>m c t. effect_of m e \<and> fst (preprocessIncomingMailRequest w s ctx req) = Ok m
    \<and> claims ctx = Some c \<and> CanMail (Some c) \<and> IsSenderAllowed (Some c) (Address (From m))
    \<and> (\<forall>h. Some h \<in> set (pb_ExtraHeaders req) \<longrightarrow> IsHeaderAllowed (Some c) (Key h))
    \<and> GetInternetMessageFormat (w_boundary w) m False = Ok t \<and> length t \<le> 2097152"
proof -
  obtain m req' where m: "preprocessIncomingMailRequest w s ctx req = (Ok m, req')" "effect_of m e"
    using call_effects [OF assms(2)] by blast
  then have "permitted w ctx req m" using assms(1) preprocess_permitted by blast
  with m show ?thesis
    by (fastforce simp: permitted_def list_all_iff MaxMailSizeBytes_def split: option.splits)
qed

lemma effects_permitted_witness:
  "\<exists>m c t. effect_of m (Transmitted sample_sanitized)
    \<and> fst (preprocessIncomingMailRequest sample_world strict_server sample_ctx sample_request) = Ok m
    \<and> claims sample_ctx = Some c \<and> CanMail (Some c) \<and> IsSenderAllowed (Some c) (Address (From m))
    \<and> (\<forall>h. Some h \<in> set (pb_ExtraHeaders sample_request) \<longrightarrow> IsHeaderAllowed (Some c) (Key h))
    \<and> GetInternetMessageFormat (w_boundary sample_world) m False = Ok t \<and> length t \<le> 2097152"
  by (rule effects_permitted) code_simp+

text \<open>
  In logging-only mode neither \<open>QueueMail\<close> nor \<open>SendMail\<close> transmits or stores anything.
\<close>

lemma logging_only_keeps_quiet:
  assumes "loggingOnly s"
  shows "snd (QueueMail w s ctx req) = [] \<and> snd (SendMail w s ctx req) = []"
  using assms QueueMail_effects [of w s ctx req] SendMail_effects [of w s ctx req] by auto

lemma logging_only_keeps_quiet_witness:
  "snd (SendMail sample_world \<lparr>loggingOnly = True, unauthenticated = True\<rparr> sample_ctx sample_request) = []"
  using logging_only_keeps_quiet [of "\<lparr>loggingOnly = True, unauthenticated = True\<rparr>" sample_world sample_ctx sample_request]
  by simp

text \<open>
  The dry run sends. For every request that is accepted and whose mail the sender takes,
  \<open>SendDryRun\<close> transmits the mail and stores it as sent, in logging-only mode too.
\<close>

lemma dry_run_transmits:
  assumes "preprocessIncomingMailRequest w s ctx req = (Ok m, req')"
    and "MailToDBEntity m = Ok row" and "w_TransmitMail w m = Ok ()"
  shows "SendDryRun w s ctx req = (Ok req', [Transmitted m, create_effect row Sent m])"
  using assms by (simp add: SendDryRun_def transmit_and_store_def)

lemma dry_run_transmits_witness:
  "Transmitted sample_sanitized \<in> set (snd (SendDryRun sample_world \<lparr>loggingOnly = True, unauthenticated = False\<rparr>
    sample_ctx sample_request))"
proof -
  have p: "preprocessIncomingMailRequest sample_world \<lparr>loggingOnly = True, unauthenticated = False\<rparr>
      sample_ctx sample_request = (Ok sample_sanitized, sample_request)"
    by code_simp
  obtain row where "MailToDBEntity sample_sanitized = Ok row"
    by (simp add: MailToDBEntity_def sample_sanitized_def)
  from dry_run_transmits [OF p this] show ?thesis
    by (simp add: sample_sanitized_def sample_world_def)
qed

section \<open>Accepted mails\<close>

text \<open>
  C24: an accepted mail has a recipient and a subject, every address in it was parsed and read
  back, its sender is the one the mail sender chose for the request, it is valid, and it is
  rendered without an error for either transport.
\<close>

theorem accepted_mail:
  assumes "preprocessIncomingMailRequest w s ctx req = (Ok m, req')"
  shows "To m @ Cc m @ Bcc m \<noteq> [] \<and> Subject m \<noteq> [] \<and> ValidateMail m = Ok ()
    \<and> list_all (address_sane (w_parse_address w)) (all_addresses m)
    \<and> From m = w_GetSender w (requested_sender req)
    \<and> (\<forall>rb has8. \<exists>t. GetInternetMessageFormat rb m has8 = Ok t)"
  using preprocess_recipients [OF assms] preprocess_renders [OF assms] by blast

lemma accepted_mail_witness:
  "ValidateMail sample_sanitized = Ok () \<and> (\<exists>t. GetInternetMessageFormat (\<lambda>_. ''x'') sample_sanitized True = Ok t)"
  using accepted_mail [OF sample_preprocessed] by blast

text \<open>
  Extra headers are lost. A request is accepted only if the caller may set its extra
  headers, but the mail has none, and it is the mail of the request without them.
\<close>

lemma extra_headers_dropped:
  assumes "preprocessIncomingMailRequest w s ctx req = (Ok m, req')"
  shows "Headers m = [] \<and> fst (preprocessIncomingMailRequest w s ctx (req\<lparr>pb_ExtraHeaders := []\<rparr>)) = Ok m"
  using preprocess_recipients(4) [OF assms] preprocess_without_extra_headers [OF assms] by blast

lemma extra_headers_dropped_witness:
  "Headers sample_sanitized = [] \<and> pb_ExtraHeaders sample_request \<noteq> []"
  using extra_headers_dropped [OF sample_preprocessed] by (simp add: sample_request_def)

text \<open>
  A request none of whose part lists has a nil element is accepted or refused, never with a
  panic, whatever else it holds.
\<close>

lemma requests_do_not_panic:
  assumes "body_nil_free (pb_BodyOneof req)"
  shows "\<not> panics (fst (preprocessIncomingMailRequest w s ctx req))"
  using assms by (rule preprocess_no_panic)

lemma requests_do_not_panic_witness:
  "\<not> panics (fst (preprocessIncomingMailRequest sample_world strict_server sample_ctx
    (sample_request\<lparr>pb_BodyOneof := Some (MultipartBody (MimeBody [MimePart None [None] Content_Unset]))\<rparr>)))"
  by (rule requests_do_not_panic) code_simp

section \<open>Sending and queueing\<close>

text \<open>
  C29: in a server that is not in logging-only mode, \<open>SendMail\<close> reports success only after the sender
  has taken the mail; the mail is stored as sent after that, and on no other way out is anything
  stored.
\<close>

theorem send_mail_order:
  assumes "SendMail w s ctx req = (res, es)" and "\<not> loggingOnly s"
  shows "((\<exists>i. res = Ok i) \<longleftrightarrow> (\<exists>m row. fst (preprocessIncomingMailRequest w s ctx req) = Ok m
      \<and> MailToDBEntity m = Ok row \<and> w_TransmitMail w m = Ok () \<and> res = Ok (MessageID m)
      \<and> es = [Transmitted m, create_effect row Sent m]))
    \<and> ((\<forall>i. res \<noteq> Ok i) \<longrightarrow> es = [] \<or> (\<exists>m. es = [Transmitted m] \<and> w_TransmitMail w m \<noteq> Ok ()))"
  using assms
  by (auto simp: SendMail_def transmit_and_store_def split: outcome.splits)

lemma send_mail_order_witness:
  "fst (SendMail sample_world strict_server sample_ctx sample_request) = Ok ''1@vis''
    \<and> length (snd (SendMail sample_world strict_server sample_ctx sample_request)) = 2"
proof -
  obtain res es where r: "SendMail sample_world strict_server sample_ctx sample_request = (res, es)" by fastforce
  have "fst (SendMail sample_world strict_server sample_ctx sample_request) = Ok ''1@vis''" by code_simp
  with send_mail_order [OF r] r show ?thesis by auto
qed

text \<open>
  C8: from the request to the transmission. In a server that is not in logging-only mode, let the
  accepted mail have strings in UTF-8, no empty part, and addresses that the parser reads back. The row
  that \<open>QueueMail\<close> stores for it is handled by the dispatcher with the very mail that was accepted, its
  date in the zone in which the dispatcher reads it; and the status that the dispatcher will set says
  whether the transmission succeeded.
\<close>

theorem queued_mail_is_handled:
  assumes "preprocessIncomingMailRequest w s ctx req = (Ok m, req')" and "\<not> loggingOnly s"
    and "mail_storable m"
    and "\<forall>a \<in> set (all_addresses m). pa (address_String a) = Some a \<and> Address a \<noteq> []"
  shows "\<exists>row. snd (QueueMail w s ctx req) = [create_effect row Submitted m]
    \<and> (\<forall>z r transmit. Row r = row_in_zone z row \<longrightarrow> snd (handle_popped transmit pa r)
        = ([(ID r, mail_in_zone z m)], if transmit (mail_in_zone z m) = Ok () then Sent else Failed))"
proof -
  obtain row where row: "MailToDBEntity m = Ok row" "DBEntityToMail pa row = Ok m"
    using DBEntityToMail_MailToDBEntity [OF assms(3)] assms(4) by (auto simp: list_all_iff)
  then have "snd (QueueMail w s ctx req) = [create_effect row Submitted m]"
    using assms(1,2) by (simp add: QueueMail_def)
  moreover have "snd (handle_popped transmit pa r)
      = ([(ID r, mail_in_zone z m)], if transmit (mail_in_zone z m) = Ok () then Sent else Failed)"
    if "Row r = row_in_zone z row" for z r transmit
    using row(2) that by (auto simp: handle_popped_def DBEntityToMail_in_zone split: outcome.split)
  ultimately show ?thesis by blast
qed

lemma queued_mail_is_handled_witness:
  "\<exists>row. snd (QueueMail sample_world strict_server sample_ctx sample_request) = [create_effect row Submitted sample_sanitized]
    \<and> (\<forall>z r transmit. Row r = row_in_zone z row \<longrightarrow> snd (handle_popped transmit (known_addresses (all_addresses sample_sanitized)) r)
        = ([(ID r, mail_in_zone z sample_sanitized)], if transmit (mail_in_zone z sample_sanitized) = Ok () then Sent else Failed))"
  by (rule queued_mail_is_handled [OF sample_preprocessed]) code_simp+

section \<open>Access tokens\<close>

text \<open>
  C26: whatever calls a provider has served, the next token it gives is either one that it has just
  fetched, or one whose own expiry is at least five seconds ahead; but for two exceptions. With neither
  ID nor secret it gives the empty token. And for the five smallest expiries that a 64-bit number can
  hold, \<open>*tp.expiry-5\<close> wraps around, and the token counts as fresh at any time but the last five
  seconds of the range.
\<close>

theorem tokens_are_fresh:
  assumes "provider = provider_after w calls (NewOidcTokenProvider endpoint cid secret [WithScope sc])"
    and "GetAccessToken w now provider = (Ok r, provider')"
  shows "(cid = [] \<and> secret = [] \<and> r = Some [])
    \<or> (\<exists>t e. r = Some t \<and> getExpiryTimestamp w t = Ok e \<and> accessToken provider' = Some t \<and> expiry provider' = Some e
        \<and> ((if sint e < - (2 ^ 63) + 5 then sint now \<le> sint e + 2 ^ 64 - 5 else sint now + 5 \<le> sint e)
           \<or> refreshAccessToken w provider = (Ok (), provider')))"
proof -
  have "token_inv w provider"
    unfolding assms(1) by (rule token_inv_after) (rule token_inv_New)
  moreover have "no_credentials provider \<longleftrightarrow> cid = [] \<and> secret = []"
    by (simp add: assms(1) no_credentials_def sa_provider_after NewOidcTokenProvider_def WithScope_def)
  moreover have fresh: "sint now \<le> sint (e - 5) \<longleftrightarrow>
      (if sint e < - (2 ^ 63) + 5 then sint now \<le> sint e + 2 ^ 64 - 5 else sint now + 5 \<le> sint e)" for e :: int64
    by (simp add: int64_sub_5 algebra_simps)
  ultimately show ?thesis unfolding fresh [symmetric] using GetAccessToken_Ok [OF _ assms(2)] by blast
qed

lemma tokens_are_fresh_witness:
  "\<exists>t e. fst (GetAccessToken sample_token_world 100 sample_provider) = Ok (Some t)
    \<and> getExpiryTimestamp sample_token_world t = Ok e"
proof -
  obtain r p where g: "GetAccessToken sample_token_world 100 sample_provider = (r, p)" by fastforce
  have "fst (GetAccessToken sample_token_world 100 sample_provider) = Ok (Some ''a.e30.c'')" by code_simp
  with g have "r = Ok (Some ''a.e30.c'')" by simp
  with g tokens_are_fresh [of sample_provider sample_token_world "[]" "''https://idp''" "''id''" "''key''" "[]" 100 _ p]
  show ?thesis by (auto simp: sample_provider_def provider_after_def)
qed

text \<open>
  C27: a shared provider gives out fetched tokens only. However calls overlap on one provider, which
  has no lock, a call that returns a token returns one that the endpoint has given, with an expiry
  that can be read, or, without credentials, the empty one; it never returns nil.
\<close>

theorem shared_provider_fetched:
  assumes "provider_reachable w ((tp, ts), cs)" and "c \<in> set cs" and "tc_pc c = Returned r"
  shows "(no_credentials tp \<and> r = Some []) \<or> (\<exists>t e. r = Some t \<and> t \<in> set ts \<and> getExpiryTimestamp w t = Ok e)"
  using assms by (rule returned_was_fetched)

text \<open>
  C37: but the token may have expired. Where two calls that overlap are given tokens of different
  expiries, the token of one can stay under the expiry of the other: a third call, which fetches
  nothing, is given a token whose own expiry has passed.
\<close>

theorem shared_provider_mixes_tokens:
  fixes now1 now2 :: int64
  assumes "tp0 = NewOidcTokenProvider endpoint cid secret []"
    and "refreshAccessToken (w\<lparr>http_post := post1\<rparr>) tp0 = (Ok (), tp1)" and "accessToken tp1 = Some t1" and "expiry tp1 = Some e1"
    and "refreshAccessToken (w\<lparr>http_post := post2\<rparr>) tp0 = (Ok (), tp2)" and "accessToken tp2 = Some t2" and "expiry tp2 = Some e2"
    and "sint e1 < sint now" and "sint now \<le> sint (e2 - 5)" and "cid \<noteq> [] \<or> secret \<noteq> []"
  shows "\<exists>s cs c. provider_reachable w (s, cs) \<and> c \<in> set cs \<and> tc_now c = now \<and> \<not> tc_fetched c
    \<and> tc_pc c = Returned (Some t1) \<and> getExpiryTimestamp w t1 = Ok e1"
  using token_under_other_expiry [OF assms(2-7) [unfolded assms(1)] assms(9,10)] fetched_is_jwt [OF assms(2-4)] by blast

definition two_tokens_world :: token_world where
  "two_tokens_world = \<lparr>url_ok = (\<lambda>_. True), http_post = (\<lambda>_. None), json_access_token = Some,
     json_exp = (\<lambda>b. Some (if b = ''{}'' then 60 else 3600))\<rparr>"

abbreviation two_tokens_provider :: OidcTokenProvider where
  "two_tokens_provider \<equiv> NewOidcTokenProvider ''https://idp'' ''id'' ''key'' []"

lemma two_tokens_fetched:
  "refreshAccessToken (two_tokens_world\<lparr>http_post := (\<lambda>_. Some (200, Some ''a.e30.c''))\<rparr>) two_tokens_provider
     = (Ok (), two_tokens_provider\<lparr>accessToken := Some ''a.e30.c'', expiry := Some 60\<rparr>)"
  "refreshAccessToken (two_tokens_world\<lparr>http_post := (\<lambda>_. Some (200, Some ''a.AAAA.c''))\<rparr>) two_tokens_provider
     = (Ok (), two_tokens_provider\<lparr>accessToken := Some ''a.AAAA.c'', expiry := Some 3600\<rparr>)"
  by code_simp+

lemma two_tokens_times: "sint (60 :: int64) < sint (1000 :: int64)" "sint (1000 :: int64) \<le> sint (3600 - 5 :: int64)"
  by code_simp+

lemma shared_provider_mixes_tokens_witness:
  "\<exists>s cs c. provider_reachable two_tokens_world (s, cs) \<and> c \<in> set cs \<and> tc_now c = 1000 \<and> \<not> tc_fetched c
    \<and> tc_pc c = Returned (Some ''a.e30.c'') \<and> getExpiryTimestamp two_tokens_world ''a.e30.c'' = Ok 60"
  by (rule shared_provider_mixes_tokens [OF refl two_tokens_fetched(1) _ _ two_tokens_fetched(2) _ _ two_tokens_times])
    simp_all

lemma shared_provider_fetched_witness:
  "\<exists>ts e. ''a.e30.c'' \<in> set ts \<and> getExpiryTimestamp two_tokens_world ''a.e30.c'' = Ok e"
proof -
  have "\<exists>s cs c. provider_reachable two_tokens_world (s, cs) \<and> c \<in> set cs \<and> tc_now c = 1000 \<and> \<not> tc_fetched c
      \<and> tc_pc c = Returned (Some ''a.e30.c'')"
    by (rule token_under_other_expiry [OF two_tokens_fetched(1) _ _ two_tokens_fetched(2) _ _ two_tokens_times(2)]) simp_all
  then obtain tp ts cs c where "provider_reachable two_tokens_world ((tp, ts), cs)" "c \<in> set cs"
    "tc_pc c = Returned (Some ''a.e30.c'')" by (metis prod.collapse)
  from shared_provider_fetched [OF this] show ?thesis by auto
qed

text \<open>
  A failed refresh leaves the provider as it was, so a later call tries again; and no call
  panics.
\<close>

lemma token_errors_keep_provider:
  "\<not> panics (fst (GetAccessToken w now tp))
    \<and> (\<forall>e. fst (GetAccessToken w now tp) = Err e \<longrightarrow> snd (GetAccessToken w now tp) = tp)"
  using GetAccessToken_no_panic GetAccessToken_Err_keeps by (metis prod.collapse)

lemma token_errors_keep_provider_witness:
  "snd (GetAccessToken (sample_token_world\<lparr>http_post := (\<lambda>_. Some (503, None))\<rparr>) 100 sample_provider) = sample_provider"
proof -
  have "fst (GetAccessToken (sample_token_world\<lparr>http_post := (\<lambda>_. Some (503, None))\<rparr>) 100 sample_provider)
      = Err (Unreadable_Response 503)"
    by code_simp
  with token_errors_keep_provider show ?thesis by blast
qed

text \<open>
  The expiry check in 64-bit arithmetic. The stored token is refreshed exactly where fewer
  than five seconds are left, but for the five smallest expiries: there \<open>*tp.expiry-5\<close> wraps
  around, and the token counts as valid at any time but the last five seconds of the range.
\<close>

lemma expiry_check:
  assumes "accessToken tp = Some t" and "expiry tp = Some e"
  shows "must_refresh now tp \<longleftrightarrow>
    (if sint e < - (2 ^ 63) + 5 then sint e + 2 ^ 64 - 5 < sint now else sint e - 5 < sint now)"
  using assms int64_sub_5 [of e] by (simp add: must_refresh_def)

lemma expiry_check_witness:
  "must_refresh 96 (sample_provider\<lparr>accessToken := Some [], expiry := Some 100\<rparr>)
    \<and> \<not> must_refresh 95 (sample_provider\<lparr>accessToken := Some [], expiry := Some 100\<rparr>)"
  using expiry_check [of "sample_provider\<lparr>accessToken := Some [], expiry := Some 100\<rparr>" "[]" 100] by simp

end
