(* ===== verification/Slack_Concurrent.thy ===== *)
theory Slack_Concurrent
  imports Slack
begin

text \<open>
  Calls of \<open>SendToUsername\<close> that overlap, as the gRPC server runs them: they share the client's map
  of workspaces, a plain Go map without a lock, and the objects in it, whose names are guarded by
  a lock each. A call is cut at its accesses of this state; any number of calls interleave.
\<close>

section \<open>The shared state and the calls\<close>

text \<open>The objects of type \<open>UsernameMap\<close> by address, the map of workspaces with the addresses, and
  what the API was asked: the lists of users it gave for a workspace, and the messages posted
  (workspace, user name, ID).\<close>

record slack_shared =
  objects :: "UsernameMap list"
  workspaces :: "string \<Rightarrow> nat option"
  listings :: "(string \<times> (string \<times> string) list) list"
  posts :: "(string \<times> string \<times> string) list"

datatype slack_pc =
    Look_Up
  | Check_Expiry nat
  | List_Users
  | Look_Up_Again "(string \<times> string) list"
  | Insert_Map "(string \<times> string) list"
  | Replace_Map "(string \<times> string) list" nat
  | Get_User nat
  | Post_To string
  | Done

text \<open>A call whose token has been found to belong to a workspace.\<close>

record slack_call =
  call_url :: string
  call_name :: string
  call_pc :: slack_pc

definition new_call :: "string \<Rightarrow> string \<Rightarrow> slack_call" where
  "new_call url name = \<lparr>call_url = url, call_name = name, call_pc = Look_Up\<rparr>"

definition empty_map :: UsernameMap where
  "empty_map = \<lparr>expiresAt = - 62135596800, data = (\<lambda>_. None)\<rparr>"

inductive call_step :: "int \<Rightarrow> slack_shared \<times> slack_call \<Rightarrow> slack_shared \<times> slack_call \<Rightarrow> bool" for period where
  not_cached: "call_pc c = Look_Up \<Longrightarrow> workspaces s (call_url c) = None
    \<Longrightarrow> call_step period (s, c) (s, c\<lparr>call_pc := List_Users\<rparr>)"
| cached: "call_pc c = Look_Up \<Longrightarrow> workspaces s (call_url c) = Some a
    \<Longrightarrow> call_step period (s, c) (s, c\<lparr>call_pc := Check_Expiry a\<rparr>)"
| expired: "call_pc c = Check_Expiry a \<Longrightarrow> expiresAt (objects s ! a) < now
    \<Longrightarrow> call_step period (s, c) (s, c\<lparr>call_pc := List_Users\<rparr>)"
| fresh: "call_pc c = Check_Expiry a \<Longrightarrow> now \<le> expiresAt (objects s ! a)
    \<Longrightarrow> call_step period (s, c) (s, c\<lparr>call_pc := Get_User a\<rparr>)"
| listed: "call_pc c = List_Users
    \<Longrightarrow> call_step period (s, c) (s\<lparr>listings := listings s @ [(call_url c, us)]\<rparr>, c\<lparr>call_pc := Look_Up_Again us\<rparr>)"
| given_up: "call_pc c = List_Users \<Longrightarrow> call_step period (s, c) (s, c\<lparr>call_pc := Look_Up_Again []\<rparr>)"
| not_listed: "call_pc c = List_Users \<Longrightarrow> call_step period (s, c) (s, c\<lparr>call_pc := Done\<rparr>)"
| no_object: "call_pc c = Look_Up_Again us \<Longrightarrow> workspaces s (call_url c) = None
    \<Longrightarrow> call_step period (s, c) (s, c\<lparr>call_pc := Insert_Map us\<rparr>)"
| object: "call_pc c = Look_Up_Again us \<Longrightarrow> workspaces s (call_url c) = Some a
    \<Longrightarrow> call_step period (s, c) (s, c\<lparr>call_pc := Replace_Map us a\<rparr>)"
| insert: "call_pc c = Insert_Map us
    \<Longrightarrow> call_step period (s, c)
      (s\<lparr>objects := objects s @ [empty_map], workspaces := (workspaces s)(call_url c \<mapsto> length (objects s))\<rparr>,
       c\<lparr>call_pc := Replace_Map us (length (objects s))\<rparr>)"
| replace: "call_pc c = Replace_Map us a
    \<Longrightarrow> call_step period (s, c)
      (s\<lparr>objects := (objects s)[a := Replace (objects s ! a) (users_map us) (now + period)]\<rparr>,
       c\<lparr>call_pc := Get_User a\<rparr>)"
| found: "call_pc c = Get_User a \<Longrightarrow> Get (objects s ! a) (call_name c) = Some i
    \<Longrightarrow> call_step period (s, c) (s, c\<lparr>call_pc := Post_To i\<rparr>)"
| not_found: "call_pc c = Get_User a \<Longrightarrow> Get (objects s ! a) (call_name c) = None
    \<Longrightarrow> call_step period (s, c) (s, c\<lparr>call_pc := Done\<rparr>)"
| post: "call_pc c = Post_To i
    \<Longrightarrow> call_step period (s, c) (s\<lparr>posts := posts s @ [(call_url c, call_name c, i)]\<rparr>, c\<lparr>call_pc := Done\<rparr>)"

text \<open>The server: calls come in, and one of them makes a step.\<close>

inductive slack_step :: "int \<Rightarrow> slack_shared \<times> slack_call list \<Rightarrow> slack_shared \<times> slack_call list \<Rightarrow> bool"
  for period where
  arrive: "slack_step period (s, cs) (s, cs @ [new_call url name])"
| step: "i < length cs \<Longrightarrow> call_step period (s, cs ! i) (s', c') \<Longrightarrow> slack_step period (s, cs) (s', cs[i := c'])"

definition no_workspaces :: slack_shared where
  "no_workspaces = \<lparr>objects = [], workspaces = (\<lambda>_. None), listings = [], posts = []\<rparr>"

inductive slack_reachable :: "int \<Rightarrow> slack_shared \<times> slack_call list \<Rightarrow> bool" for period where
  start: "slack_reachable period (no_workspaces, [])"
| step: "slack_reachable period st \<Longrightarrow> slack_step period st st' \<Longrightarrow> slack_reachable period st'"

section \<open>Messages go to listed users\<close>

definition was_listed :: "slack_shared \<Rightarrow> string \<Rightarrow> string \<Rightarrow> string \<Rightarrow> bool" where
  "was_listed s url name i \<longleftrightarrow> (\<exists>us. (url, us) \<in> set (listings s) \<and> (name, i) \<in> set us)"

definition map_listed :: "slack_shared \<Rightarrow> string \<Rightarrow> (string \<Rightarrow> string option) \<Rightarrow> bool" where
  "map_listed s url m \<longleftrightarrow> (\<forall>name i. m name = Some i \<longrightarrow> was_listed s url name i)"

text \<open>What a call holds on to: the address of an object, a list of users, an ID.\<close>

fun holds :: "slack_pc \<Rightarrow> nat option \<times> (string \<times> string) list \<times> string option" where
  "holds (Check_Expiry a) = (Some a, [], None)"
| "holds (Look_Up_Again us) = (None, us, None)"
| "holds (Insert_Map us) = (None, us, None)"
| "holds (Replace_Map us a) = (Some a, us, None)"
| "holds (Get_User a) = (Some a, [], None)"
| "holds (Post_To i) = (None, [], Some i)"
| "holds _ = (None, [], None)"

text \<open>\<open>owner\<close> gives the workspace for which an object was made.\<close>

definition call_inv :: "(nat \<Rightarrow> string) \<Rightarrow> slack_shared \<Rightarrow> slack_call \<Rightarrow> bool" where
  "call_inv owner s c \<longleftrightarrow> (case holds (call_pc c) of (ao, us, io) \<Rightarrow>
     (\<forall>a. ao = Some a \<longrightarrow> a < length (objects s) \<and> owner a = call_url c)
     \<and> (\<forall>(name, i) \<in> set us. was_listed s (call_url c) name i)
     \<and> (\<forall>i. io = Some i \<longrightarrow> was_listed s (call_url c) (call_name c) i))"

definition shared_inv :: "(nat \<Rightarrow> string) \<Rightarrow> slack_shared \<Rightarrow> bool" where
  "shared_inv owner s \<longleftrightarrow>
     (\<forall>url a. workspaces s url = Some a \<longrightarrow> a < length (objects s) \<and> owner a = url)
     \<and> (\<forall>a < length (objects s). map_listed s (owner a) (data (objects s ! a)))
     \<and> (\<forall>(url, name, i) \<in> set (posts s). was_listed s url name i)"

text \<open>What a step may do to the state that another call relies on.\<close>

definition grows :: "(nat \<Rightarrow> string) \<Rightarrow> slack_shared \<Rightarrow> (nat \<Rightarrow> string) \<Rightarrow> slack_shared \<Rightarrow> bool" where
  "grows owner s owner' s' \<longleftrightarrow> length (objects s) \<le> length (objects s')
     \<and> (\<forall>a < length (objects s). owner' a = owner a) \<and> set (listings s) \<subseteq> set (listings s')"

lemma was_listed_grows: "grows owner s owner' s' \<Longrightarrow> was_listed s url name i \<Longrightarrow> was_listed s' url name i"
  by (auto simp: grows_def was_listed_def)

lemma call_inv_grows: "grows owner s owner' s' \<Longrightarrow> call_inv owner s c \<Longrightarrow> call_inv owner' s' c"
  using was_listed_grows by (fastforce simp: call_inv_def grows_def split: prod.splits)

lemma users_map_listed:
  "(\<And>name i. (name, i) \<in> set us \<Longrightarrow> was_listed s url name i) \<Longrightarrow> map_listed s url (users_map us)"
  by (auto simp: map_listed_def users_map_map_of dest!: map_of_SomeD)

lemma grows_refl: "grows owner s owner s"
  by (simp add: grows_def)

text \<open>A step that leaves the objects as they are.\<close>

lemma shared_inv_log:
  assumes "shared_inv owner s" and "objects s' = objects s" and "workspaces s' = workspaces s"
    and "set (listings s) \<subseteq> set (listings s')"
    and "\<And>url name i. (url, name, i) \<in> set (posts s') \<Longrightarrow> (url, name, i) \<in> set (posts s) \<or> was_listed s url name i"
  shows "grows owner s owner s' \<and> shared_inv owner s'"
proof -
  have g: "grows owner s owner s'" using assms(2,4) by (simp add: grows_def)
  have "\<forall>(url, name, i) \<in> set (posts s'). was_listed s' url name i"
    using assms(1,5) was_listed_grows [OF g] by (fastforce simp: shared_inv_def)
  moreover have "map_listed s' (owner a) (data (objects s' ! a))" if "a < length (objects s')" for a
    using assms(1,2) that was_listed_grows [OF g] by (auto simp: shared_inv_def map_listed_def)
  ultimately show ?thesis using assms(1-3) g by (simp add: shared_inv_def)
qed

lemma shared_inv_insert:
  assumes "shared_inv owner s"
    and "s' = s\<lparr>objects := objects s @ [empty_map], workspaces := (workspaces s)(url \<mapsto> length (objects s))\<rparr>"
  shows "grows owner s (owner(length (objects s) := url)) s' \<and> shared_inv (owner(length (objects s) := url)) s'"
proof -
  have "was_listed s' = was_listed s" using assms(2) by (simp add: was_listed_def fun_eq_iff)
  then show ?thesis
    using assms
    by (auto simp: shared_inv_def grows_def map_listed_def nth_append empty_map_def less_Suc_eq split: if_splits)
qed

lemma shared_inv_replace:
  assumes "shared_inv owner s" and "a < length (objects s)" and "map_listed s (owner a) (users_map us)"
    and "s' = s\<lparr>objects := (objects s)[a := Replace (objects s ! a) (users_map us) t]\<rparr>"
  shows "grows owner s owner s' \<and> shared_inv owner s'"
proof -
  have "was_listed s' = was_listed s" using assms(4) by (simp add: was_listed_def fun_eq_iff)
  then have "map_listed s' = map_listed s" by (simp add: map_listed_def fun_eq_iff)
  with \<open>was_listed s' = was_listed s\<close> show ?thesis
    using assms by (auto simp: shared_inv_def grows_def Replace_def nth_list_update)
qed

lemma call_step_inv:
  assumes "call_step period (s, c) (s', c')" and "shared_inv owner s" and "call_inv owner s c"
  shows "\<exists>owner'. grows owner s owner' s' \<and> shared_inv owner' s' \<and> call_inv owner' s' c'"
  using assms(1)
proof cases
  case not_cached
  with assms(2) grows_refl show ?thesis by (auto simp: call_inv_def)
next
  case (cached a)
  with assms(2) grows_refl show ?thesis by (intro exI [of _ owner]) (auto simp: call_inv_def shared_inv_def)
next
  case (expired a now)
  with assms(2) grows_refl show ?thesis by (auto simp: call_inv_def)
next
  case (fresh a now)
  with assms(2,3) grows_refl show ?thesis by (intro exI [of _ owner]) (auto simp: call_inv_def)
next
  case (listed us)
  with shared_inv_log [OF assms(2), of s'] show ?thesis
    by (intro exI [of _ owner]) (auto simp: call_inv_def was_listed_def)
next
  case given_up
  with assms(2) grows_refl show ?thesis by (intro exI [of _ owner]) (auto simp: call_inv_def)
next
  case not_listed
  with assms(2) grows_refl show ?thesis by (auto simp: call_inv_def)
next
  case (no_object us)
  with assms(2,3) grows_refl show ?thesis by (intro exI [of _ owner]) (auto simp: call_inv_def)
next
  case (object us a)
  with assms(2,3) grows_refl show ?thesis by (intro exI [of _ owner]) (auto simp: call_inv_def shared_inv_def)
next
  case (insert us)
  note i = shared_inv_insert [OF assms(2) insert(1)]
  from i assms(3) insert show ?thesis
    by (intro exI [of _ "owner(length (objects s) := call_url c)"]) (auto simp: call_inv_def was_listed_def)
next
  case (replace us a now)
  with assms(3) have a: "a < length (objects s)" "owner a = call_url c"
    and us: "\<And>name i. (name, i) \<in> set us \<Longrightarrow> was_listed s (owner a) name i"
    by (auto simp: call_inv_def)
  from shared_inv_replace [OF assms(2) a(1) users_map_listed [OF us] replace(1)] a replace(1,2) show ?thesis
    by (intro exI [of _ owner]) (auto simp: call_inv_def)
next
  case (found a i)
  with assms(3) have "a < length (objects s)" "owner a = call_url c" by (auto simp: call_inv_def)
  with assms(2) have "map_listed s (call_url c) (data (objects s ! a))" by (auto simp: shared_inv_def)
  with found assms(2) grows_refl show ?thesis
    by (intro exI [of _ owner]) (auto simp: call_inv_def map_listed_def Get_def)
next
  case (not_found a)
  with assms(2) grows_refl show ?thesis by (auto simp: call_inv_def)
next
  case (post i)
  with assms(3) have "was_listed s (call_url c) (call_name c) i" by (simp add: call_inv_def)
  with post shared_inv_log [OF assms(2), of s'] show ?thesis
    by (intro exI [of _ owner]) (auto simp: call_inv_def)
qed

definition slack_inv :: "slack_shared \<times> slack_call list \<Rightarrow> bool" where
  "slack_inv st \<longleftrightarrow> (\<exists>owner. shared_inv owner (fst st) \<and> (\<forall>c \<in> set (snd st). call_inv owner (fst st) c))"

lemma slack_inv_step: "slack_step period st st' \<Longrightarrow> slack_inv st \<Longrightarrow> slack_inv st'"
proof (induction rule: slack_step.induct)
  case (arrive s cs url name)
  then show ?case by (auto simp: slack_inv_def new_call_def call_inv_def)
next
  case (step i cs s s' c')
  then obtain owner where o': "shared_inv owner s" "\<forall>c \<in> set cs. call_inv owner s c" by (auto simp: slack_inv_def)
  from call_step_inv [OF step(2) o'(1)] o'(2) step(1) obtain owner' where
    "grows owner s owner' s'" "shared_inv owner' s'" "call_inv owner' s' c'" by auto
  with o'(2) call_inv_grows have "\<forall>c \<in> set (cs[i := c']). call_inv owner' s' c"
    by (auto dest!: set_update_subset_insert [THEN subsetD])
  with \<open>shared_inv owner' s'\<close> show ?case by (auto simp: slack_inv_def)
qed

lemma slack_inv_reachable: "slack_reachable period st \<Longrightarrow> slack_inv st"
proof (induction rule: slack_reachable.induct)
  case start
  show ?case by (simp add: slack_inv_def shared_inv_def no_workspaces_def)
next
  case (step st st')
  then show ?case using slack_inv_step by blast
qed

lemma posted_was_listed:
  assumes "slack_reachable period (s, cs)" and "(url, name, i) \<in> set (posts s)"
  shows "\<exists>us. (url, us) \<in> set (listings s) \<and> (name, i) \<in> set us"
  using slack_inv_reachable [OF assms(1)] assms(2)
  by (auto simp: slack_inv_def shared_inv_def was_listed_def)

section \<open>A call on its own is the sequential one\<close>

text \<open>The client of the sequential model that a shared state stands for.\<close>

definition client_of :: "int \<Rightarrow> slack_shared \<Rightarrow> client" where
  "client_of period s = \<lparr>workspaceUsers = (\<lambda>url. map_option (\<lambda>a. objects s ! a) (workspaces s url)), updatePeriod = period\<rparr>"

definition distinct_objects :: "slack_shared \<Rightarrow> bool" where
  "distinct_objects s \<longleftrightarrow> (\<forall>url a. workspaces s url = Some a \<longrightarrow> a < length (objects s))
     \<and> (\<forall>url url' a. workspaces s url = Some a \<longrightarrow> workspaces s url' = Some a \<longrightarrow> url = url')"

lemma slack_inv_distinct: "slack_inv (s, cs) \<Longrightarrow> distinct_objects s"
proof -
  assume "slack_inv (s, cs)"
  then obtain owner where "\<forall>url a. workspaces s url = Some a \<longrightarrow> a < length (objects s) \<and> owner a = url"
    by (auto simp: slack_inv_def shared_inv_def)
  then show "distinct_objects s" unfolding distinct_objects_def by metis
qed

abbreviation call_steps :: "int \<Rightarrow> slack_shared \<times> slack_call \<Rightarrow> slack_shared \<times> slack_call \<Rightarrow> bool" where
  "call_steps period \<equiv> (call_step period)\<^sup>*\<^sup>*"

lemma update_run:
  assumes "distinct_objects s" and "call_pc c = Look_Up_Again us" and "u0 = (case workspaces s (call_url c) of
      None \<Rightarrow> empty_map | Some a \<Rightarrow> objects s ! a)"
  shows "\<exists>s' a. call_steps period (s, c) (s', c\<lparr>call_pc := Get_User a\<rparr>)
    \<and> objects s' ! a = Replace u0 (users_map us) (now + period)
    \<and> client_of period s' = (client_of period s)\<lparr>workspaceUsers :=
        (workspaceUsers (client_of period s))(call_url c \<mapsto> Replace u0 (users_map us) (now + period))\<rparr>"
proof -
  have len: "a < length (objects s)" if "workspaces s url = Some a" for url a
    using assms(1) that by (simp add: distinct_objects_def)
  have inj: "url = url'" if "workspaces s url = Some a" "workspaces s url' = Some a" for url url' a
    using assms(1) that unfolding distinct_objects_def by blast
  show ?thesis
  proof (cases "workspaces s (call_url c)")
    case None
    let ?s1 = "s\<lparr>objects := objects s @ [empty_map], workspaces := (workspaces s)(call_url c \<mapsto> length (objects s))\<rparr>"
    let ?a = "length (objects s)"
    let ?s2 = "?s1\<lparr>objects := (objects ?s1)[?a := Replace (objects ?s1 ! ?a) (users_map us) (now + period)]\<rparr>"
    have "call_step period (s, c) (s, c\<lparr>call_pc := Insert_Map us\<rparr>)"
      using assms(2) None by (rule no_object)
    moreover have "call_step period (s, c\<lparr>call_pc := Insert_Map us\<rparr>) (?s1, c\<lparr>call_pc := Replace_Map us ?a\<rparr>)"
      using insert [of "c\<lparr>call_pc := Insert_Map us\<rparr>" us period s] by simp
    moreover have "call_step period (?s1, c\<lparr>call_pc := Replace_Map us ?a\<rparr>) (?s2, c\<lparr>call_pc := Get_User ?a\<rparr>)"
      using replace [of "c\<lparr>call_pc := Replace_Map us ?a\<rparr>" us ?a period ?s1 now] by simp
    ultimately have "call_steps period (s, c) (?s2, c\<lparr>call_pc := Get_User ?a\<rparr>)"
      by (meson converse_rtranclp_into_rtranclp rtranclp.rtrancl_refl)
    moreover have "workspaceUsers (client_of period ?s2) url
        = ((workspaceUsers (client_of period s))(call_url c \<mapsto> Replace u0 (users_map us) (now + period))) url" for url
    proof (cases "workspaces s url")
      case (Some a')
      with len have "a' < length (objects s)" by simp
      with assms(3) None Some show ?thesis by (auto simp: client_of_def nth_append)
    qed (use assms(3) None in \<open>auto simp: client_of_def nth_append\<close>)
    ultimately show ?thesis
      using assms(3) None
      by (intro exI [of _ ?s2] exI [of _ ?a]) (auto simp: client_of_def fun_eq_iff)
  next
    case (Some a)
    let ?s2 = "s\<lparr>objects := (objects s)[a := Replace (objects s ! a) (users_map us) (now + period)]\<rparr>"
    have "call_step period (s, c) (s, c\<lparr>call_pc := Replace_Map us a\<rparr>)"
      using assms(2) Some by (rule object)
    moreover have "call_step period (s, c\<lparr>call_pc := Replace_Map us a\<rparr>) (?s2, c\<lparr>call_pc := Get_User a\<rparr>)"
      using replace [of "c\<lparr>call_pc := Replace_Map us a\<rparr>" us a period s now] by simp
    ultimately have "call_steps period (s, c) (?s2, c\<lparr>call_pc := Get_User a\<rparr>)"
      by (meson converse_rtranclp_into_rtranclp rtranclp.rtrancl_refl)
    moreover have a: "a < length (objects s)" using len Some by blast
    moreover have "workspaceUsers (client_of period ?s2) url
        = ((workspaceUsers (client_of period s))(call_url c \<mapsto> Replace u0 (users_map us) (now + period))) url" for url
    proof (cases "url = call_url c")
      case False
      with inj Some have "workspaces s url \<noteq> Some a" by blast
      with False show ?thesis by (cases "workspaces s url") (auto simp: client_of_def)
    qed (use assms(3) Some a in \<open>simp add: client_of_def\<close>)
    ultimately show ?thesis
      using assms(3) Some
      by (intro exI [of _ ?s2] exI [of _ a]) (auto simp: client_of_def fun_eq_iff)
  qed
qed

lemma client_of_listing [simp]: "client_of period (s\<lparr>listings := ls\<rparr>) = client_of period s"
  by (simp add: client_of_def)

text \<open>The lookup of the user names: whatever \<open>user_map\<close> gives, a call that runs alone gets to.\<close>

lemma user_map_run:
  assumes "distinct_objects s" and "user_map api now (client_of period s) (call_url c) = (Ok u, cl)"
    and "call_pc c = Look_Up"
  shows "\<exists>s' a. call_steps period (s, c) (s', c\<lparr>call_pc := Get_User a\<rparr>) \<and> objects s' ! a = u
    \<and> client_of period s' = cl"
proof -
  define url where "url = call_url c"
  have update: "\<exists>s' a. call_steps period (s, c) (s', c\<lparr>call_pc := Get_User a\<rparr>) \<and> objects s' ! a = u
      \<and> client_of period s' = cl"
    if up: "UpdateUsernameMap api now (client_of period s) url = (Ok u, cl)"
      and run: "call_steps period (s, c) (s, c\<lparr>call_pc := List_Users\<rparr>)"
  proof -
    define u0 where "u0 = (case workspaces s url of None \<Rightarrow> empty_map | Some a \<Rightarrow> objects s ! a)"
    from up obtain us where us: "u = Replace u0 (users_map us) (now + period)"
      "cl = (client_of period s)\<lparr>workspaceUsers := (workspaceUsers (client_of period s))(url \<mapsto> u)\<rparr>"
      by (cases "workspaces s url")
        (auto simp: UpdateUsernameMap_def Let_def client_of_def empty_map_def u0_def split: outcome.splits)
    let ?s1 = "s\<lparr>listings := listings s @ [(url, us)]\<rparr>" and ?c1 = "c\<lparr>call_pc := Look_Up_Again us\<rparr>"
    have "call_step period (s, c\<lparr>call_pc := List_Users\<rparr>) (?s1, ?c1)"
      using listed [of "c\<lparr>call_pc := List_Users\<rparr>" period s us] by (simp add: url_def)
    with run have r1: "call_steps period (s, c) (?s1, ?c1)" by (rule rtranclp.rtrancl_into_rtrancl)
    have "distinct_objects ?s1" using assms(1) by (simp add: distinct_objects_def)
    moreover have "u0 = (case workspaces ?s1 (call_url ?c1) of None \<Rightarrow> empty_map | Some a \<Rightarrow> objects ?s1 ! a)"
      by (simp add: u0_def url_def split: option.split)
    ultimately obtain s' a where r2: "call_steps period (?s1, ?c1) (s', ?c1\<lparr>call_pc := Get_User a\<rparr>)"
      and o': "objects s' ! a = u" and cl: "client_of period s' = (client_of period ?s1)\<lparr>workspaceUsers :=
        (workspaceUsers (client_of period ?s1))(call_url ?c1 \<mapsto> u)\<rparr>"
      using update_run [of ?s1 ?c1 us u0 period now] unfolding us(1) by auto
    from r1 r2 have "call_steps period (s, c) (s', c\<lparr>call_pc := Get_User a\<rparr>)" by simp
    moreover have "client_of period s' = cl" using cl us(2) by (simp add: url_def)
    ultimately show ?thesis using o' by blast
  qed
  show ?thesis
  proof (cases "workspaces s url")
    case None
    then have "call_steps period (s, c) (s, c\<lparr>call_pc := List_Users\<rparr>)"
      using not_cached [OF assms(3), of s] by (auto simp: url_def)
    moreover have "UpdateUsernameMap api now (client_of period s) url = (Ok u, cl)"
      using assms(2) None by (auto simp: user_map_def client_of_def url_def split: outcome.splits prod.splits)
    ultimately show ?thesis by (rule update [rotated])
  next
    case (Some a)
    then have l: "call_step period (s, c) (s, c\<lparr>call_pc := Check_Expiry a\<rparr>)"
      using cached [OF assms(3), of s] by (auto simp: url_def)
    show ?thesis
    proof (cases "expiresAt (objects s ! a) < now")
      case True
      then have "call_step period (s, c\<lparr>call_pc := Check_Expiry a\<rparr>) (s, c\<lparr>call_pc := List_Users\<rparr>)"
        using expired [of "c\<lparr>call_pc := Check_Expiry a\<rparr>" a s now period] by simp
      with l have "call_steps period (s, c) (s, c\<lparr>call_pc := List_Users\<rparr>)"
        by (meson converse_rtranclp_into_rtranclp rtranclp.rtrancl_refl)
      moreover have "UpdateUsernameMap api now (client_of period s) url = (Ok u, cl)"
        using assms(2) Some True by (auto simp: user_map_def client_of_def url_def split: outcome.splits prod.splits)
      ultimately show ?thesis by (rule update [rotated])
    next
      case False
      then have "call_step period (s, c\<lparr>call_pc := Check_Expiry a\<rparr>) (s, c\<lparr>call_pc := Get_User a\<rparr>)"
        using fresh [of "c\<lparr>call_pc := Check_Expiry a\<rparr>" a now s period] by simp
      with l have "call_steps period (s, c) (s, c\<lparr>call_pc := Get_User a\<rparr>)"
        by (meson converse_rtranclp_into_rtranclp rtranclp.rtrancl_refl)
      moreover have "u = objects s ! a" "cl = client_of period s"
        using assms(2) Some False by (auto simp: user_map_def client_of_def url_def)
      ultimately show ?thesis by blast
    qed
  qed
qed

section \<open>Accesses that are not ordered\<close>

text \<open>What the next step of a call accesses: a location, whether it writes, and whether it holds the
  lock of the object. The map of workspaces has no lock; \<open>expiresAt\<close> is written under the lock but
  read without it.\<close>

datatype slack_location = Workspaces_Map | Expires_At nat | Names nat

record slack_access =
  accessed :: slack_location
  writes :: bool
  locked :: bool

fun accesses :: "slack_pc \<Rightarrow> slack_access list" where
  "accesses Look_Up = [\<lparr>accessed = Workspaces_Map, writes = False, locked = False\<rparr>]"
| "accesses (Check_Expiry a) = [\<lparr>accessed = Expires_At a, writes = False, locked = False\<rparr>]"
| "accesses (Look_Up_Again us) = [\<lparr>accessed = Workspaces_Map, writes = False, locked = False\<rparr>]"
| "accesses (Insert_Map us) = [\<lparr>accessed = Workspaces_Map, writes = True, locked = False\<rparr>]"
| "accesses (Replace_Map us a) =
     [\<lparr>accessed = Expires_At a, writes = True, locked = True\<rparr>, \<lparr>accessed = Names a, writes = True, locked = True\<rparr>]"
| "accesses (Get_User a) = [\<lparr>accessed = Names a, writes = False, locked = True\<rparr>]"
| "accesses _ = []"

text \<open>Two calls race for a location where the next step of each accesses it, one of them writes, and
  not both hold its lock.\<close>

definition conflict :: "slack_access \<Rightarrow> slack_access \<Rightarrow> bool" where
  "conflict x y \<longleftrightarrow> accessed x = accessed y \<and> (writes x \<or> writes y) \<and> \<not> (locked x \<and> locked y)"

definition races_for :: "slack_location \<Rightarrow> slack_call list \<Rightarrow> bool" where
  "races_for l cs \<longleftrightarrow> (\<exists>i < length cs. \<exists>j < length cs. i \<noteq> j
     \<and> (\<exists>x \<in> set (accesses (call_pc (cs ! i))). \<exists>y \<in> set (accesses (call_pc (cs ! j))). conflict x y \<and> accessed x = l))"

text \<open>The names are guarded: whatever the calls do, none races for them.\<close>

lemma names_locked: "x \<in> set (accesses pc) \<Longrightarrow> accessed x = Names a \<Longrightarrow> locked x"
  by (cases pc) auto

lemma names_not_raced: "\<not> races_for (Names a) cs"
proof
  assume "races_for (Names a) cs"
  then obtain i j x y where x: "x \<in> set (accesses (call_pc (cs ! i)))" "accessed x = Names a"
    and y: "y \<in> set (accesses (call_pc (cs ! j)))" "accessed y = accessed x" and c: "conflict x y"
    unfolding races_for_def conflict_def by metis
  from names_locked [OF x] names_locked [OF y(1)] x(2) y(2) have "locked x" "locked y" by simp_all
  with c show False by (simp add: conflict_def)
qed

text \<open>Two first calls, for the same workspace or for two, reach the point where both are about to
  insert into the map of workspaces: the Go runtime ends the process when it sees that.\<close>

lemma first_call_to_insert:
  assumes "slack_reachable period (s, cs)" and "i < length cs" and "call_pc (cs ! i) = Look_Up"
    and "workspaces s (call_url (cs ! i)) = None"
  shows "\<exists>s'. slack_reachable period (s', cs[i := (cs ! i)\<lparr>call_pc := Insert_Map us\<rparr>]) \<and> workspaces s' = workspaces s"
proof -
  let ?c = "cs ! i"
  let ?s1 = "s\<lparr>listings := listings s @ [(call_url ?c, us)]\<rparr>"
  have "slack_step period (s, cs) (s, cs[i := ?c\<lparr>call_pc := List_Users\<rparr>])"
    using assms(2) not_cached [OF assms(3,4)] by (rule slack_step.step)
  with assms(1) have r1: "slack_reachable period (s, cs[i := ?c\<lparr>call_pc := List_Users\<rparr>])" by (rule slack_reachable.step)
  have "slack_step period (s, cs[i := ?c\<lparr>call_pc := List_Users\<rparr>]) (?s1, cs[i := ?c\<lparr>call_pc := Look_Up_Again us\<rparr>])"
    using slack_step.step [of i "cs[i := ?c\<lparr>call_pc := List_Users\<rparr>]" period s ?s1 "?c\<lparr>call_pc := Look_Up_Again us\<rparr>"]
      listed [of "?c\<lparr>call_pc := List_Users\<rparr>" period s us] assms(2) by simp
  with r1 have r2: "slack_reachable period (?s1, cs[i := ?c\<lparr>call_pc := Look_Up_Again us\<rparr>])" by (rule slack_reachable.step)
  have "slack_step period (?s1, cs[i := ?c\<lparr>call_pc := Look_Up_Again us\<rparr>]) (?s1, cs[i := ?c\<lparr>call_pc := Insert_Map us\<rparr>])"
    using slack_step.step [of i "cs[i := ?c\<lparr>call_pc := Look_Up_Again us\<rparr>]" period ?s1 ?s1 "?c\<lparr>call_pc := Insert_Map us\<rparr>"]
      no_object [of "?c\<lparr>call_pc := Look_Up_Again us\<rparr>" us ?s1 period] assms(2,4) by simp
  with r2 have "slack_reachable period (?s1, cs[i := ?c\<lparr>call_pc := Insert_Map us\<rparr>])" by (rule slack_reachable.step)
  then show ?thesis by (intro exI [of _ ?s1]) simp
qed

lemma two_calls_race:
  "\<exists>s cs. slack_reachable period (s, cs) \<and> map call_url cs = [url1, url2] \<and> races_for Workspaces_Map cs"
proof -
  let ?c1 = "new_call url1 name1" and ?c2 = "new_call url2 name2"
  have "slack_reachable period (no_workspaces, [?c1])"
    using slack_reachable.step [OF slack_reachable.start slack_step.arrive] by simp
  from slack_reachable.step [OF this slack_step.arrive] have "slack_reachable period (no_workspaces, [?c1, ?c2])" by simp
  from first_call_to_insert [OF this, of 0 "[]"] obtain s1 where
    s1: "slack_reachable period (s1, [?c1\<lparr>call_pc := Insert_Map []\<rparr>, ?c2])" "workspaces s1 = workspaces no_workspaces"
    by (auto simp: new_call_def no_workspaces_def)
  from first_call_to_insert [OF s1(1), of 1 "[]"] s1(2) obtain s2 where
    "slack_reachable period (s2, [?c1\<lparr>call_pc := Insert_Map []\<rparr>, ?c2\<lparr>call_pc := Insert_Map []\<rparr>])"
    by (auto simp: new_call_def no_workspaces_def)
  moreover have "races_for Workspaces_Map [?c1\<lparr>call_pc := Insert_Map []\<rparr>, ?c2\<lparr>call_pc := Insert_Map []\<rparr>]"
    unfolding races_for_def by (intro exI [of _ 0] exI [of _ 1] conjI) (simp_all add: conflict_def)
  ultimately show ?thesis by (intro exI [of _ s2] exI conjI) (assumption, simp_all add: new_call_def)
qed

end
