(* ===== verification/Props_Smtp.thy ===== *)
theory Props_Smtp
  imports Samples Slack_Concurrent
begin

text \<open>
  The properties of the SMTP proxy and its server, of the Slack sender and of the start-up: what
  is relayed and on whose behalf, what is refused and what is retried.
\<close>

section \<open>The proxy\<close>

text \<open>
  C12: let a valid mail have a content type, and each of its nested parts too, part headers with keys
  that the service accepts, and addresses that the parser takes. The request that the proxy builds from
  it is converted back by the mail service to the same mail, nested parts and part headers included,
  but for the date, the Message-ID and the extra headers.
\<close>

theorem proxied_mail_roundtrip:
  assumes "ValidateMail m = Ok ()" and "part_transferable (Body m)" and "ContentType m \<noteq> []"
    and "list_all (address_sane pa) (all_addresses m)"
  shows "\<exists>req. buildGrpcRequestFromMail m = Ok req
    \<and> pbMailToValidatedMail pa now req (From m) = Ok (m\<lparr>Date := now, MessageID := [], Headers := []\<rparr>)"
  using proxy_roundtrip [OF assms] by (simp add: handed_on_def)

lemma proxied_mail_roundtrip_witness:
  "\<exists>req. buildGrpcRequestFromMail sample_mail = Ok req
    \<and> pbMailToValidatedMail (plain_parser (all_addresses sample_mail)) \<lparr>unix = 0, zone = 0\<rparr> req (From sample_mail)
      = Ok (sample_mail\<lparr>Date := \<lparr>unix = 0, zone = 0\<rparr>, MessageID := [], Headers := []\<rparr>)"
  by (rule proxied_mail_roundtrip [OF sample_facts(3)]) code_simp+

text \<open>
  The proxy delivers a mail at most once, by the last of its calls, and reports success only
  if that call succeeded; in pass-through mode every call carries the token of the session's own
  user, and logging-only mode calls nothing.
\<close>

lemma proxy_calls:
  assumes "mailHandler cfg client w now rb ps m = (res, calls, ps')"
  shows "length (filter (\<lambda>c. \<exists>a r. c = Call_Queue a r \<or> c = Call_Send a r) calls) \<le> 1
    \<and> (res = Ok () \<longrightarrow> (LoggingOnly cfg \<and> calls = [])
        \<or> (\<exists>a r. last calls = deliver_call cfg a r \<and> calls \<noteq> [] \<and> deliver_mail cfg client a r = Ok ()
             \<and> buildGrpcRequestFromMail m = Ok r))
    \<and> (LoggingOnly cfg \<longrightarrow> calls = [])
    \<and> (grpcAuthMode cfg = SMTPPassthrough \<longrightarrow> (\<forall>c \<in> set calls. \<exists>tp t. of_session ps = Some tp
        \<and> fst (GetAccessToken w now tp) = Ok (Some t) \<and> call_authorization c = Some (''Bearer '' @ t)))"
proof -
  have quiet: "LoggingOnly cfg" if "calls = []" "res = Ok ()"
    using assms that by (auto simp: mailHandler_def split: outcome.splits if_splits prod.splits)
  from mailHandler_calls [OF assms] show ?thesis
  proof (elim disjE exE conjE)
    assume "calls = []"
    with quiet show ?thesis by auto
  next
    fix a r
    assume "fst (authorization (grpcAuthMode cfg) w now ps) = Ok a" "\<not> LoggingOnly cfg"
      "calls = [Call_DryRun a r]" "res \<noteq> Ok ()"
    with passthrough_authorization [of w now ps a] show ?thesis by auto
  next
    fix a r
    assume *: "fst (authorization (grpcAuthMode cfg) w now ps) = Ok a" "\<not> LoggingOnly cfg"
      "calls = (if SMTPEnsureSender cfg then [Call_DryRun a r] else []) @ [deliver_call cfg a r]"
      "res = deliver_mail cfg client a r" "buildGrpcRequestFromMail m = Ok r"
    have "length (filter (\<lambda>c. \<exists>a r. c = Call_Queue a r \<or> c = Call_Send a r) calls) \<le> 1" using *(3) by simp
    moreover have "last calls = deliver_call cfg a r" "calls \<noteq> []" using *(3) by simp_all
    moreover have "call_authorization c = a" if "c \<in> set calls" for c
      using that *(3) by (auto split: if_splits)
    moreover have "\<exists>tp t. of_session ps = Some tp \<and> fst (GetAccessToken w now tp) = Ok (Some t)
        \<and> a = Some (''Bearer '' @ t)" if "grpcAuthMode cfg = SMTPPassthrough"
      using *(1) passthrough_authorization [of w now ps a] that by simp
    ultimately show ?thesis using *(2,4,5) by simp blast
  qed
qed

lemma proxy_calls_witness:
  "length (filter (\<lambda>c. \<exists>a r. c = Call_Queue a r \<or> c = Call_Send a r)
    (fst (snd (mailHandler sample_proxy sample_client sample_token_world 100 (\<lambda>_. ''b'')
      \<lparr>injected = None, of_session = Some sample_provider\<rparr> sample_mail)))) \<le> 1"
proof -
  obtain res calls ps' where h: "mailHandler sample_proxy sample_client sample_token_world 100 (\<lambda>_. ''b'')
      \<lparr>injected = None, of_session = Some sample_provider\<rparr> sample_mail = (res, calls, ps')"
    by (metis prod_cases3)
  from proxy_calls [OF h] show ?thesis by (simp add: h)
qed

section \<open>Sessions\<close>

text \<open>
  C11: where the proxy asks for authentication, every mail that a session hands to the handler,
  whatever commands came in whatever order and whatever the token endpoint and the service answered
  from command to command, is handed over on behalf of the user who is logged in then, with a
  provider that holds that user's credentials and no token but one that the endpoint gave for them;
  and it is a valid mail.
\<close>

theorem relayed_for_authenticated:
  assumes "session_reachable lib (proxy_backends cfg clients TW) (s, newer @ Handed ctx m # older)"
    and "smtpAuthMode cfg = SMTPAuthPlain" and "TokenProviderOptions cfg = []" and "OidcConfig cfg = Some oc"
  shows "\<exists>u p tp. logged_in_as older = Some (u, p) \<and> ctx = Some tp
    \<and> sa tp = Some \<lparr>sa_ClientID = u, sa_ClientSecret = p\<rparr>
    \<and> (\<forall>t. accessToken tp = Some t \<longrightarrow> token_for TW (oidcTokenEndpoint oc) u p t)
    \<and> ValidateMail m = Ok ()"
  using handed_over_for_user [OF assms] unfolding provider_for_def by blast

lemma relayed_for_authenticated_witness:
  "\<exists>tp. sctx sample_session = Some tp \<and> sa tp = Some \<lparr>sa_ClientID = ''id'', sa_ClientSecret = ''key''\<rparr>
    \<and> ValidateMail sample_received = Ok ()"
  using relayed_for_authenticated [OF sample_data_reachable] by (simp add: sample_proxy_def) blast

text \<open>
  Anyone may authenticate with an empty user name and an empty password: no token is asked
  for, and the session is authenticated.
\<close>

lemma empty_credentials_authenticate:
  assumes "smtpAuthMode cfg = SMTPAuthPlain" and "OidcConfig cfg = Some oc" and "TokenProviderOptions cfg = []"
  shows "\<exists>tp. AuthPlain (proxy_backend cfg client w now rb own) s [] []
      = (Ok (), s\<lparr>sctx := Some tp, isAuthenticated := True\<rparr>)
    \<and> fst (GetAccessToken w now tp) = Ok (Some [])"
proof -
  define tp where "tp = NewOidcTokenProvider (oidcTokenEndpoint oc) [] [] []"
  have "no_credentials tp" by (simp add: tp_def no_credentials_def NewOidcTokenProvider_def)
  then have get: "GetAccessToken w now tp = (Ok (Some []), tp)" by (rule GetAccessToken_empty)
  then have "authHandler cfg w now [] [] = Ok tp" using assms(2,3) by (simp add: authHandler_def tp_def)
  then have "proxy_auth cfg w now c [] [] = Ok (Some tp)" for c by (simp add: proxy_auth_def)
  with get show ?thesis using assms(1) by (auto simp: AuthPlain_def run_auth_def proxy_backend_sel)
qed

lemma empty_credentials_authenticate_witness:
  "\<exists>tp. AuthPlain (proxy_backend sample_proxy sample_client sample_token_world 100 (\<lambda>_. ''b'') None)
      (NewSession None) [] [] = (Ok (), (NewSession None)\<lparr>sctx := Some tp, isAuthenticated := True\<rparr>)
    \<and> fst (GetAccessToken sample_token_world 100 tp) = Ok (Some [])"
  by (rule empty_credentials_authenticate) (simp_all add: sample_proxy_def)

text \<open>
  C25: a mail taken over SMTP is valid, comes from the envelope's sender, and is for every
  recipient of the envelope; its blind copies go to recipients of the envelope that neither To nor Cc
  names; both in the comparison without case, of what \<open>strings.ToLower\<close> makes of the addresses; and it
  has none of the message's extra headers.
\<close>

theorem smtp_mail_accepted:
  assumes "parse_data lib sender rcpts r = Ok m"
  shows "ValidateMail m = Ok () \<and> Address (From m) = sender \<and> Headers m = []
    \<and> (\<forall>a \<in> set rcpts. \<exists>b \<in> set (To m @ Cc m @ Bcc m). lib_ToLower lib (Address b) = lib_ToLower lib a)
    \<and> (\<forall>b \<in> set (Bcc m). Address b \<in> set rcpts
        \<and> (\<forall>a \<in> set (To m @ Cc m). lib_ToLower lib (Address b) \<noteq> lib_ToLower lib (Address a)))"
proof -
  note ok = parse_data_Ok [OF assms]
  have "\<exists>b \<in> set (To m @ Cc m @ Bcc m). lib_ToLower lib (Address b) = lib_ToLower lib a" if "a \<in> set rcpts" for a
    unfolding ok(4) using that by (rule bcc_list_covers)
  moreover have "Address b \<in> set rcpts \<and> (\<forall>a \<in> set (To m @ Cc m). lib_ToLower lib (Address b) \<noteq> lib_ToLower lib (Address a))"
    if "b \<in> set (Bcc m)" for b
    using that bcc_list_recipients [of b lib "To m" "Cc m" rcpts] bcc_list_disjoint [of b lib "To m" "Cc m" rcpts]
    unfolding ok(4) [symmetric] by blast
  ultimately show ?thesis using ok(1-3) by blast
qed

lemma smtp_mail_accepted_witness:
  "Address (From sample_received) = ''ann@vis.ch'' \<and> Address (hd (Bcc sample_received)) = ''eve@vis.ch''"
  using smtp_mail_accepted [OF sample_parse_data] by (simp add: sample_received_def)

text \<open>
  C30: the reading of nested parts ends. Where the parts of a multipart lie within its body, more
  levels than the body has bytes are enough, and the result does not depend on how many there are.
\<close>

theorem parse_part_ends:
  assumes "parts_shrink lib" and "length body < n" and "length body < k"
  shows "\<exists>r. parsePart n lib h body = Some r \<and> parsePart k lib h body = Some r"
proof -
  obtain r where r: "parsePart (Suc (length body)) lib h body = Some r"
    using parsePart_enough_fuel [OF assms(1), of body "Suc (length body)" h] by auto
  have "Suc (length body) \<le> n" "Suc (length body) \<le> k" using assms(2,3) by simp_all
  with r show ?thesis by (blast intro: parsePart_mono)
qed

lemma parse_part_ends_witness:
  "\<exists>r. parsePart 9 sample_lib sample_mixed ''12'' = Some r \<and> parsePart 3 sample_lib sample_mixed ''12'' = Some r"
  by (rule parse_part_ends) (auto simp: parts_shrink_def sample_lib_def split: if_splits)

section \<open>Slack\<close>

text \<open>
  The retries of a Slack call: at most twenty waits of at least a second each; the outcome is
  that of the first try that was not rate limited, if it is one of the twenty.
\<close>

lemma slack_retries:
  "length (snd (slackCallWrapper f z)) \<le> 20 \<and> list_all (\<lambda>s. 1 \<le> s) (snd (slackCallWrapper f z))
   \<and> (\<forall>j < 20. (\<forall>k < j. \<exists>s. snd (f k) = Some (RateLimited s)) \<longrightarrow>
        (\<forall>r. f j = (r, None) \<longrightarrow> fst (slackCallWrapper f z) = Ok r)
        \<and> (\<forall>r e. f j = (r, Some (Api_Error e)) \<longrightarrow> fst (slackCallWrapper f z) = Err e))"
proof -
  have "fst (slackCallWrapper f z) = (case f j of (r, None) \<Rightarrow> Ok r | (r, Some (Api_Error e)) \<Rightarrow> Err e
      | (r, Some (RateLimited s)) \<Rightarrow> Ok r)"
    if "j < 20" "\<forall>k < j. \<exists>s. snd (f k) = Some (RateLimited s)" "\<forall>s. snd (f j) \<noteq> Some (RateLimited s)" for j
    using call_loop_first [of j maxRetries f 0 z] that by (simp add: slackCallWrapper_def maxRetries_def)
  then show ?thesis
    using call_loop_waits [of f maxRetries 0 z] by (auto simp: slackCallWrapper_def maxRetries_def)
qed

lemma slack_retries_witness:
  "fst (slackCallWrapper (\<lambda>k. if k = 0 then (0 :: nat, Some (RateLimited 3)) else (1, None)) 0) = Ok 1"
proof -
  let ?f = "\<lambda>k :: nat. if k = 0 then (0 :: nat, Some (RateLimited 3)) else (1, None)"
  have "\<forall>k < (1 :: nat). \<exists>s. snd (?f k) = Some (RateLimited s)" by simp
  with slack_retries [of ?f 0] show ?thesis by (elim conjE allE [of _ 1]) simp
qed

text \<open>
  A message that Slack refuses twenty times for its rate limit is reported as sent.
\<close>

lemma slack_message_lost:
  assumes "fst (slackCallWrapper (api_AuthTest (api_of token)) None) = Ok (Some url)"
    and "json_blocks blocksJSON = Some blocks"
    and "user_map (api_of token) now c url = (Ok u, c')" and "Get u username = Some i"
    and "\<forall>k. \<exists>s. api_PostMessage (api_of token) i blocks txt k = ((), Some (RateLimited s))"
  shows "SendToUsername json_blocks api_of now c token username blocksJSON txt = (Ok (), c')"
proof -
  have "fst (slackCallWrapper (api_PostMessage (api_of token) i blocks txt) ()) = Ok ()"
    unfolding slackCallWrapper_def by (rule call_loop_exhausted) (use assms(5) in simp)
  with assms show ?thesis by (simp add: SendToUsername_def)
qed

definition sample_slack :: slack_api where
  "sample_slack = \<lparr>api_AuthTest = (\<lambda>_. (Some ''vis.slack.com'', None)),
     api_GetUsers = (\<lambda>_. ([(''bob'', ''U1'')], None)),
     api_PostMessage = (\<lambda>_ _ _ k. ((), Some (RateLimited (int k))))\<rparr>"

lemma slack_message_lost_witness:
  "fst (SendToUsername Some (\<lambda>_. sample_slack) 0 NewClient ''token'' ''bob'' ''[]'' ''hi'') = Ok ()"
proof -
  let ?url = "''vis.slack.com''"
  have test: "fst (slackCallWrapper (api_AuthTest sample_slack) None) = Ok (Some ?url)"
    by (rule slack_loop_first) (simp add: sample_slack_def)
  have "fst (slackCallWrapper (api_GetUsers sample_slack) []) = Ok [(''bob'', ''U1'')]"
    by (rule slack_loop_first) (simp add: sample_slack_def)
  then obtain u c where u: "user_map sample_slack 0 NewClient ?url = (Ok u, c)" "Get u ''bob'' = Some ''U1''"
    by (simp add: user_map_def NewClient_def UpdateUsernameMap_def Let_def Get_def Replace_def users_map_def)
  have "\<forall>k. \<exists>s. api_PostMessage sample_slack ''U1'' ''[]'' ''hi'' k = ((), Some (RateLimited s))"
    by (simp add: sample_slack_def)
  from slack_message_lost [where api_of = "\<lambda>_. sample_slack" and json_blocks = Some, OF test refl u this]
  show ?thesis by simp
qed

section \<open>Overlapping Slack calls\<close>

text \<open>
  C28: a message goes to a listed user. However calls overlap, for however many workspaces, with maps
  that expire and are replaced under a call, every ID that a message is posted to was listed by
  the API, for the workspace of the call and under the name that the caller asked for.
\<close>

theorem slack_posts_to_listed:
  assumes "slack_reachable period (s, cs)" and "(url, name, i) \<in> set (posts s)"
  shows "\<exists>us. (url, us) \<in> set (listings s) \<and> (name, i) \<in> set us"
  using assms by (rule posted_was_listed)

lemma slack_run_extend:
  assumes "slack_reachable period (s, [c])" and "call_step period (s, c) (s', c')"
  shows "slack_reachable period (s', [c'])"
  using slack_reachable.step [OF assms(1) slack_step.step [of 0 "[c]" period s s' c']] assms(2) by simp

lemma slack_run_single:
  assumes "call_steps period (s, c) (s', c')" and "slack_reachable period (s, [c])"
  shows "slack_reachable period (s', [c'])"
  using assms by (induction rule: rtranclp_induct2) (auto intro: slack_run_extend)

lemma slack_posted_run:
  "\<exists>s cs. slack_reachable 43200 (s, cs) \<and> (''vis'', ''bob'', ''U1'') \<in> set (posts s)"
proof -
  let ?c = "new_call ''vis'' ''bob''"
  have "slack_reachable 43200 (no_workspaces, [?c])"
    using slack_reachable.step [OF slack_reachable.start slack_step.arrive] by simp
  moreover have "user_map sample_slack 0 (client_of 43200 no_workspaces) (call_url ?c)
      = (Ok \<lparr>expiresAt = 43200, data = users_map [(''bob'', ''U1'')]\<rparr>,
         (client_of 43200 no_workspaces)\<lparr>workspaceUsers := (workspaceUsers (client_of 43200 no_workspaces))
           (''vis'' \<mapsto> \<lparr>expiresAt = 43200, data = users_map [(''bob'', ''U1'')]\<rparr>)\<rparr>)"
  proof -
    have "fst (slackCallWrapper (api_GetUsers sample_slack) []) = Ok [(''bob'', ''U1'')]"
      by (rule slack_loop_first) (simp add: sample_slack_def)
    then show ?thesis
      by (simp add: user_map_def client_of_def no_workspaces_def new_call_def UpdateUsernameMap_def Let_def Replace_def)
  qed
  ultimately obtain s a where r: "slack_reachable 43200 (s, [?c\<lparr>call_pc := Get_User a\<rparr>])"
    and o': "objects s ! a = \<lparr>expiresAt = 43200, data = users_map [(''bob'', ''U1'')]\<rparr>"
    using user_map_run [of no_workspaces sample_slack 0 43200 ?c] slack_run_single
    by (fastforce simp: distinct_objects_def no_workspaces_def new_call_def)
  have "Get (objects s ! a) ''bob'' = Some ''U1''" by (simp add: o' Get_def users_map_def)
  then have "call_step 43200 (s, ?c\<lparr>call_pc := Get_User a\<rparr>) (s, ?c\<lparr>call_pc := Post_To ''U1''\<rparr>)"
    using found [of "?c\<lparr>call_pc := Get_User a\<rparr>" a s "''U1''" 43200] by (simp add: new_call_def)
  with r have r2: "slack_reachable 43200 (s, [?c\<lparr>call_pc := Post_To ''U1''\<rparr>])" by (rule slack_run_extend)
  from slack_run_extend [OF r2 post] show ?thesis by (fastforce simp: new_call_def)
qed

lemma slack_posts_to_listed_witness:
  "\<exists>s cs us. slack_reachable 43200 (s, cs) \<and> (''vis'', us) \<in> set (listings s) \<and> (''bob'', ''U1'') \<in> set us"
proof -
  obtain s cs where s: "slack_reachable 43200 (s, cs)" "(''vis'', ''bob'', ''U1'') \<in> set (posts s)"
    using slack_posted_run by blast
  from slack_posts_to_listed [OF s] s(1) show ?thesis by blast
qed

text \<open>
  C35: the map of workspaces is not guarded. Two first calls, for one workspace or for two, reach a
  state in which both are about to write to the client's map, which has no lock; the names within
  an object, which have one, are never raced for.
\<close>

theorem slack_calls_race:
  "(\<exists>s cs. slack_reachable period (s, cs) \<and> map call_url cs = [url1, url2] \<and> races_for Workspaces_Map cs)
    \<and> \<not> races_for (Names a) cs'"
  using two_calls_race names_not_raced by blast

section \<open>What panics the server\<close>

text \<open>
  C31: a message to the proxy, whatever bytes a client sends, whatever the library makes of them,
  however deep its parts are nested and whatever the token endpoint answers, panics only where the
  Message-ID is a single byte: neither the reading nor the handler panics over any other.
\<close>

theorem data_panics_on_message_id:
  assumes "panics (fst (Data lib (proxy_backend cfg client w now rb own) s r))"
    and "client_answers client" and "grpcAuthMode cfg = OIDCInject \<longrightarrow> own \<noteq> None"
  shows "\<exists>h body. lib_ReadMessage lib r = Some (h, body) \<and> length (header_get h ''Message-ID'') = 1"
  using assms by (rule proxy_Data_panics)

definition panicking_lib :: mail_lib where
  "panicking_lib = sample_lib\<lparr>lib_ReadMessage := (\<lambda>_. Some
     ([(''From'', [''ann'']), (''To'', [''bob'']), (''Cc'', [''bob'']), (''Message-Id'', [''<''])], ''hello''))\<rparr>"

definition open_session :: "unit session" where
  "open_session = (NewSession ())\<lparr>sfrom := ''ann@vis.ch'', recipients := [''bob@vis.ch'']\<rparr>"

lemma data_panics_on_message_id_witness:
  "\<exists>h body. lib_ReadMessage panicking_lib ''msg'' = Some (h, body) \<and> length (header_get h ''Message-ID'') = 1"
proof (rule data_panics_on_message_id)
  show "panics (fst (Data panicking_lib sample_backend sample_session ''msg''))" by code_simp
qed (simp_all add: client_answers_def sample_client_def sample_proxy_def)

section \<open>Start-up\<close>

text \<open>
  C32: a proxy that starts and asks for authentication has TLS, unless insecure authentication
  was allowed; one that passes credentials through asks for authentication; and one that injects a
  token, and no other, has a provider of its own, which has fetched a token: one that the token
  endpoint gave for the proxy's own ID and secret.
\<close>

theorem proxy_starts_safely:
  assumes "HandleSMTPProxy client_ok lkp w now c = Ok (srv, cfg, tp)"
  shows "(srv_auth srv \<longrightarrow> srv_has_tls srv \<or> srv_allow_insecure srv)
    \<and> (grpcAuthMode cfg = SMTPPassthrough \<longrightarrow> srv_auth srv)
    \<and> (grpcAuthMode cfg = OIDCInject \<longleftrightarrow> tp \<noteq> None)
    \<and> (grpcAuthMode cfg = OIDCInject \<longrightarrow> (\<exists>p t. tp = Some p \<and> accessToken p = Some t
        \<and> token_for {w} (s_OIDCTokenEndpoint c) (s_OIDCClientID c) (s_OIDCClientSecret c) t))"
  using started_proxy [OF assms] smtp_proxy_config_Ok(1,2) [of c cfg] started_proxy_token [OF assms] by simp

definition sample_settings :: proxy_settings where
  "sample_settings = \<lparr>s_LoggingOnly = False, s_GrpcClientAuthMode = ''passthrough'', s_GrpcClientUseQueuing = True,
     s_SMTPServerAuth = ''plain'', s_SMTPServerTLS = True, s_SMTPServerTLSCertPath = ''crt'',
     s_SMTPServerTLSKeyPath = ''key'', s_SMTPServerAllowInsecureAuth = False, s_SMTPServerAddress = '':25'',
     s_OIDCClientID = ''id'', s_OIDCClientSecret = ''s'', s_OIDCTokenEndpoint = ''https://idp''\<rparr>"

abbreviation inject_settings :: proxy_settings where
  "inject_settings \<equiv> sample_settings\<lparr>s_GrpcClientAuthMode := ''oidc-inject''\<rparr>"

lemma inject_starts:
  "\<exists>srv cfg tp. HandleSMTPProxy True (\<lambda>_ _. True) sample_token_world 100 inject_settings = Ok (srv, cfg, tp)
     \<and> srv_auth srv \<and> grpcAuthMode cfg = OIDCInject"
proof -
  let ?r = "HandleSMTPProxy True (\<lambda>_ _. True) sample_token_world 100 inject_settings"
  have "case ?r of Ok (srv, cfg, tp) \<Rightarrow> srv_auth srv \<and> grpcAuthMode cfg = OIDCInject | _ \<Rightarrow> False" by code_simp
  then show ?thesis by (cases ?r) auto
qed

lemma proxy_starts_safely_witness:
  "case HandleSMTPProxy True (\<lambda>_ _. True) sample_token_world 100 inject_settings of
     Ok (srv, cfg, tp) \<Rightarrow> (srv_has_tls srv \<or> srv_allow_insecure srv)
       \<and> (\<exists>p t. tp = Some p \<and> accessToken p = Some t \<and> token_for {sample_token_world} ''https://idp'' ''id'' ''s'' t)
   | _ \<Rightarrow> False"
proof -
  obtain srv cfg tp where h: "HandleSMTPProxy True (\<lambda>_ _. True) sample_token_world 100 inject_settings = Ok (srv, cfg, tp)"
    and "srv_auth srv" "grpcAuthMode cfg = OIDCInject"
    using inject_starts by blast
  with proxy_starts_safely [OF h] show ?thesis by (simp add: sample_settings_def)
qed

end
