(* ===== verification/Observability.thy ===== *)
theory Observability
  imports Mail_Queue Smtp_Server
begin

text \<open>
  The metrics: the set-up of the exporters (\<^verbatim>\<open>internal/observability\<close>), the counters of the mailer
  and of the SMTP server (\<^verbatim>\<open>pkg/mailer/observability.go\<close>, \<^verbatim>\<open>pkg/smtpserver/observability.go\<close>), and
  the dispatcher's counter and gauge (\<^verbatim>\<open>internal/dispatcher/observability.go\<close>). The OpenTelemetry
  library is a parameter where it can fail; what it is told is kept in order in \<open>telemetry\<close>.
\<close>

section \<open>Exporters\<close>

datatype reader = Periodic_Otlp | Prometheus_Reader

record exporter_world =
  traces_exporter :: bool       \<comment> \<open>whether the library makes the exporter\<close>
  metrics_exporter :: bool
  prometheus_exporter :: bool

definition SetupTracer :: "exporter_world \<Rightarrow> (string, unit) outcome" where
  "SetupTracer w = (if traces_exporter w then Ok () else Err ''failed to startup otlp traces grpc exporter'')"

text \<open>The readers of the meter provider.\<close>

definition SetupMetrics :: "exporter_world \<Rightarrow> bool \<Rightarrow> (string, reader list) outcome" where
  "SetupMetrics w exportOtelMetrics =
     obind (if exportOtelMetrics then
              if metrics_exporter w then Ok [Periodic_Otlp] else Err ''failed to startup otlp metrics grpc exporter''
            else Ok []) (\<lambda>options.
     if prometheus_exporter w then Ok (options @ [Prometheus_Reader])
     else Err ''failed to create Prometheus exporter'')"

section \<open>Instruments\<close>

record instrument =
  i_meter :: string
  i_name :: string
  i_description :: string
  i_unit :: string

type_synonym attributes = "(string \<times> string) list"

text \<open>The package variables \<open>mo\<close> and \<open>so\<close>, every addition of 1 to a counter, and the gauges with
  a registered callback under the number of their registration.\<close>

record telemetry =
  mo :: "instrument option"
  so :: "instrument option"
  adds :: "(instrument \<times> attributes) list"
  callbacks :: "(nat \<times> instrument) list"
  next_reg :: nat

definition add_one :: "instrument \<Rightarrow> attributes \<Rightarrow> telemetry \<Rightarrow> telemetry" where
  "add_one i as t = t\<lparr>adds := adds t @ [(i, as)]\<rparr>"

definition counter_value :: "instrument \<Rightarrow> attributes \<Rightarrow> telemetry \<Rightarrow> nat" where
  "counter_value i as t = length (filter (\<lambda>e. e = (i, as)) (adds t))"

definition mail_counter :: instrument where
  "mail_counter = \<lparr>i_meter = ''pkg/mailer'', i_name = ''mail_sender_total_mail_count'',
     i_description = ''Total mails sent by mailer'', i_unit = ''{call}''\<rparr>"

definition smtp_counter :: instrument where
  "smtp_counter = \<lparr>i_meter = ''smtp-server-meter'', i_name = ''smtp_server_total_received_mail_count'',
     i_description = ''Total mails received by smtp server'', i_unit = ''{call}''\<rparr>"

text \<open>\<open>new_ok\<close> is whether the library makes the instrument.\<close>

definition getMailObservability ::
    "(instrument \<Rightarrow> bool) \<Rightarrow> telemetry \<Rightarrow> (string, instrument) outcome \<times> telemetry" where
  "getMailObservability new_ok t =
     (case mo t of Some i \<Rightarrow> (Ok i, t)
      | None \<Rightarrow> if new_ok mail_counter then (Ok mail_counter, t\<lparr>mo := Some mail_counter\<rparr>)
          else (Err ''failed to create OTEL counter'', t))"

definition getSMTPObservability ::
    "(instrument \<Rightarrow> bool) \<Rightarrow> telemetry \<Rightarrow> (string, instrument) outcome \<times> telemetry" where
  "getSMTPObservability new_ok t =
     (case so t of Some i \<Rightarrow> (Ok i, t)
      | None \<Rightarrow> if new_ok smtp_counter then (Ok smtp_counter, t\<lparr>so := Some smtp_counter\<rparr>)
          else (Err ''failed to create OTEL counter'', t))"

section \<open>The counters of the mailer and of the SMTP server\<close>

text \<open>What \<open>SMTPMailSender.TransmitMail\<close> does after a mail has gone out: a counter that cannot be
  had is only a warning.\<close>

definition count_sent :: "(instrument \<Rightarrow> bool) \<Rightarrow> string \<Rightarrow> telemetry \<Rightarrow> telemetry" where
  "count_sent new_ok endpoint t =
     (case getMailObservability new_ok t of
        (Ok c, t) \<Rightarrow> add_one c [(''impl'', ''smtp''), (''smtp_endpoint'', endpoint)] t
      | (_, t) \<Rightarrow> t)"

definition counted_TransmitMail ::
    "(instrument \<Rightarrow> bool) \<Rightarrow> (smtp_message \<Rightarrow> string option) \<Rightarrow> (nat list \<Rightarrow> string) \<Rightarrow> SMTPMailSender \<Rightarrow> mail option
       \<Rightarrow> telemetry \<Rightarrow> (send_error, unit) outcome \<times> smtp_message list \<times> telemetry" where
  "counted_TransmitMail new_ok deliver rb s m t =
     (case smtp_TransmitMail deliver rb s m of
        (Ok u, ms) \<Rightarrow> (Ok u, ms, count_sent new_ok (smtpHost s) t)
      | (r, ms) \<Rightarrow> (r, ms, t))"

text \<open>What the deferred function of \<open>session.Data\<close> does, on every way out after the check of the
  authentication. On a panic it looks at the error that the last check left: none where the
  handler panics, which has been handed the mail.\<close>

definition count_received :: "(instrument \<Rightarrow> bool) \<Rightarrow> telemetry \<Rightarrow> telemetry" where
  "count_received new_ok t =
     (case getSMTPObservability new_ok t of (Ok c, t) \<Rightarrow> add_one c [] t | (_, t) \<Rightarrow> t)"

definition counted_Data ::
    "(instrument \<Rightarrow> bool) \<Rightarrow> mail_lib \<Rightarrow> 'c backend \<Rightarrow> 'c session \<Rightarrow> bytes \<Rightarrow> telemetry
       \<Rightarrow> (session_error, unit) outcome \<times> ('c \<times> mail) list \<times> 'c session \<times> telemetry" where
  "counted_Data new_ok lib b s r t =
     (case Data lib b s r of
        (Ok u, handed, s') \<Rightarrow> (Ok u, handed, s', count_received new_ok t)
      | (Err e, handed, s') \<Rightarrow> (Err e, handed, s', t)
      | (Panic p, handed, s') \<Rightarrow>
          (Panic p, handed, s', if handed \<noteq> [] \<or> nil_error_at_panic lib r then count_received new_ok t else t))"

section \<open>The dispatcher's instruments\<close>

record DispatcherObservability =
  reg :: "nat option"
  attemptsCounter :: instrument

fun status_text :: "mail_status \<Rightarrow> string" where
  "status_text Submitted = ''submitted''"
| "status_text Processing = ''processing''"
| "status_text Failed = ''failed''"
| "status_text Sent = ''sent''"

definition status_gauge :: instrument where
  "status_gauge = \<lparr>i_meter = ''internal/dispatcher'', i_name = ''mail_status_count'',
     i_description = ''Current number of mails in each status'', i_unit = ''{mail}''\<rparr>"

definition attempts_counter :: instrument where
  "attempts_counter = \<lparr>i_meter = ''internal/dispatcher'', i_name = ''mail_dispatch_attempts_total'',
     i_description = ''Total mail dispatch attempts, by resulting status'', i_unit = ''{attempt}''\<rparr>"

definition initializeQueueObservability ::
    "(instrument \<Rightarrow> bool) \<Rightarrow> bool \<Rightarrow> telemetry \<Rightarrow> (string, DispatcherObservability) outcome \<times> telemetry" where
  "initializeQueueObservability new_ok register_ok t =
     (if \<not> new_ok status_gauge then (Err ''failed to create status gauge'', t)
      else if \<not> new_ok attempts_counter then (Err ''failed to create attempts counter'', t)
      else if \<not> register_ok then (Err ''failed to register status-count callback'', t)
      else (Ok \<lparr>reg = Some (next_reg t), attemptsCounter = attempts_counter\<rparr>,
        t\<lparr>callbacks := (next_reg t, status_gauge) # callbacks t, next_reg := Suc (next_reg t)\<rparr>))"

text \<open>The callback: an observation of the gauge for every row of \<open>CountMailsByStatus\<close>, \<open>None\<close>
  being a statement that failed.\<close>

definition status_callback :: "(mail_status \<times> nat) list option \<Rightarrow> (string, (nat \<times> attributes) list) outcome" where
  "status_callback counts =
     (case counts of None \<Rightarrow> Err ''failed to count mails by status''
      | Some cs \<Rightarrow> Ok (map (\<lambda>(st, n). (n, [(''status'', status_text st)])) cs))"

definition RecordAttempt :: "DispatcherObservability \<Rightarrow> mail_status \<Rightarrow> telemetry \<Rightarrow> telemetry" where
  "RecordAttempt d st t = add_one (attemptsCounter d) [(''status'', status_text st)] t"

definition Close :: "DispatcherObservability \<Rightarrow> telemetry \<Rightarrow> telemetry" where
  "Close d t = (case reg d of None \<Rightarrow> t | Some i \<Rightarrow> t\<lparr>callbacks := filter (\<lambda>c. fst c \<noteq> i) (callbacks t)\<rparr>)"

text \<open>\<open>popAndHandleMail\<close> with its metrics: the deferred function sets the status and records the
  attempt, whatever became of the statement.\<close>

definition counted_popAndHandleMail ::
    "DispatcherObservability \<Rightarrow> 'db queries \<Rightarrow> transmitter \<Rightarrow> address_parser \<Rightarrow> 'db \<times> telemetry
       \<Rightarrow> (handle_error, bool) outcome \<times> (nat \<times> mail) list \<times> 'db \<times> telemetry" where
  "counted_popAndHandleMail d q transmit parse_address s =
     (case PopMailForProcessing q retryFailedIntervalMicroseconds (fst s) of
        (None, db) \<Rightarrow> (Err Pop_Failed, [], db, snd s)
      | (Some [], db) \<Rightarrow> (Ok True, [], db, snd s)
      | (Some [r], db) \<Rightarrow>
          (let (res, attempts, st) = handle_popped transmit parse_address r
           in (res, attempts, snd (SetMailStatus q (ID r) st db), RecordAttempt d st (snd s)))
      | (Some _, db) \<Rightarrow> (Panic Exit, [], db, snd s))"

text \<open>The status is set nowhere else, so the dispatcher's loops with their metrics are the loops over
  queries that record what they set.\<close>

definition recording :: "DispatcherObservability \<Rightarrow> 'db queries \<Rightarrow> ('db \<times> telemetry) queries" where
  "recording d q =
     \<lparr>PopMailForProcessing = (\<lambda>interval (db, t).
        let (rs, db') = PopMailForProcessing q interval db in (rs, (db', t))),
      SetMailStatus = (\<lambda>i st (db, t). let (ok, db') = SetMailStatus q i st db in (ok, (db', RecordAttempt d st t)))\<rparr>"

lemma counted_popAndHandleMail_eq:
  "counted_popAndHandleMail d q transmit pa s = popAndHandleMail (recording d q) transmit pa s"
  by (cases s)
     (auto simp: counted_popAndHandleMail_def popAndHandleMail_def recording_def Let_def
       split: prod.splits option.splits list.splits)

definition counted_HandleMailQueue ::
    "(instrument \<Rightarrow> bool) \<Rightarrow> bool \<Rightarrow> nat \<Rightarrow> nat \<Rightarrow> 'db queries \<Rightarrow> transmitter \<Rightarrow> address_parser \<Rightarrow> 'db \<Rightarrow> telemetry
       \<Rightarrow> ((string, (handle_error, unit) outcome \<times> (nat \<times> mail) list \<times> 'db) outcome \<times> telemetry) option" where
  "counted_HandleMailQueue new_ok register_ok ticks fuel q transmit pa db t =
     (case initializeQueueObservability new_ok register_ok t of
        (Ok d, t) \<Rightarrow> map_option (\<lambda>(res, a, db', t'). (Ok (res, a, db'), Close d t'))
          (HandleMailQueue ticks fuel (recording d q) transmit pa (db, t))
      | (Err e, t) \<Rightarrow> Some (Err e, t)
      | (Panic p, t) \<Rightarrow> Some (Panic p, t))"

section \<open>The counters and the table\<close>

definition recorded :: "DispatcherObservability \<Rightarrow> mail_status \<Rightarrow> telemetry \<Rightarrow> nat" where
  "recorded d st t = counter_value (attemptsCounter d) [(''status'', status_text st)] t"

definition with_status :: "mail_status \<Rightarrow> mails_table \<Rightarrow> nat" where
  "with_status st db = length (filter (\<lambda>r. Status r = st) (rows db))"

lemma status_text_inject [simp]: "status_text s = status_text s' \<longleftrightarrow> s = s'"
  by (cases s; cases s') simp_all

lemma recorded_RecordAttempt: "recorded d st (RecordAttempt d st' t) = recorded d st t + (if st = st' then 1 else 0)"
  by (auto simp: recorded_def RecordAttempt_def counter_value_def add_one_def)

lemma recording_sel:
  "PopMailForProcessing (recording d q) iv (db, t) =
    (fst (PopMailForProcessing q iv db), snd (PopMailForProcessing q iv db), t)"
  "SetMailStatus (recording d q) i st (db, t) =
    (fst (SetMailStatus q i st db), snd (SetMailStatus q i st db), RecordAttempt d st t)"
  by (simp_all add: recording_def split: prod.split)

lemma retry_interval_nonneg: "0 \<le> retryFailedIntervalMicroseconds"
  by (simp add: retryFailedIntervalMicroseconds_def)

text \<open>What a pop of the table does to its rows.\<close>

lemma pg_pop_rows:
  assumes "table_inv db"
    and "PopMailForProcessing (pg_queries up delay choice) retryFailedIntervalMicroseconds db = (rs, db1)"
  shows "(rs \<in> {None, Some []} \<and> rows db1 = rows db)
    \<or> (\<exists>r now. r \<in> set (rows db) \<and> Status r = Submitted \<and> rs = Some [set_processing now (ID r) r]
        \<and> rows db1 = map (set_processing now (ID r)) (rows db))"
  using table_inv_pass [OF assms(1), of delay] retry_interval_nonneg
proof (cases rule: sql_Pop_cases [where choice = choice])
  case none
  with assms(2) show ?thesis by (cases "up db") (auto simp: pg_queries_def pass_def)
next
  case (one r)
  then have r: "r \<in> set (rows db)" by (simp add: pass_def)
  show ?thesis
  proof (cases "up db")
    case True
    with one(3) assms(2) have "rs = Some [set_processing (clock (pass delay db)) (ID r) r]"
      "rows db1 = map (set_processing (clock (pass delay db)) (ID r)) (rows db)"
      by (auto simp: pg_queries_def pass_def)
    with r one(2) show ?thesis by blast
  qed (use assms(2) in \<open>simp add: pg_queries_def\<close>)
qed

text \<open>One round: nothing is taken and nothing recorded, or a submitted mail is taken, handled and
  recorded with the status it was to get.\<close>

lemma recording_round:
  assumes "table_inv db"
    and "popAndHandleMail (recording d (pg_queries up delay choice)) transmit pa (db, t) = (res, a, db', t')"
  shows "(rows db' = rows db \<and> t' = t \<and> table_inv db')
    \<or> (\<exists>r st db1. ID r \<in> submitted db \<and> st \<in> {Failed, Sent} \<and> t' = RecordAttempt d st t
        \<and> PopMailForProcessing (pg_queries up delay choice) retryFailedIntervalMicroseconds db = (Some [r], db1)
        \<and> db' = snd (SetMailStatus (pg_queries up delay choice) (ID r) st db1)
        \<and> table_inv db' \<and> submitted db' = submitted db - {ID r})"
proof -
  let ?q = "pg_queries up delay choice"
  obtain rs db1 where pop: "PopMailForProcessing ?q retryFailedIntervalMicroseconds db = (rs, db1)" by fastforce
  note p = assms(2) [unfolded popAndHandleMail_def recording_sel pop fst_conv snd_conv]
  show ?thesis
  proof (cases rs)
    case None
    with pop have "db1 = db" by (auto simp: pg_queries_def split: if_splits prod.splits)
    with p None assms(1) show ?thesis by simp
  next
    case (Some l)
    from pg_pop [OF assms(1) pop [unfolded Some]] consider "l = []" "table_inv db1"
      | r where "l = [r]" "ID r \<in> submitted db" "submitted db1 = submitted db - {ID r}" "table_inv db1" by blast
    then show ?thesis
    proof cases
      case 1
      with pop Some pg_pop_rows [OF assms(1) pop] have "rows db1 = rows db" by simp
      with p Some 1 show ?thesis by simp
    next
      case 2
      obtain res' a' st where h: "handle_popped transmit pa r = (res', a', st)" by (metis prod_cases3)
      then have st: "st \<in> {Failed, Sent}" by (auto simp: handle_popped_def split: outcome.splits)
      from p Some 2 h have "db' = snd (SetMailStatus ?q (ID r) st db1)" "t' = RecordAttempt d st t"
        by (simp_all add: recording_sel)
      with pg_set [OF 2(4) st, of "ID r" up delay choice] 2 st pop Some show ?thesis by auto
    qed
  qed
qed

text \<open>Whatever becomes of the statements, an attempt is recorded for each mail that is taken.\<close>

definition attempts_made :: "DispatcherObservability \<Rightarrow> telemetry \<Rightarrow> nat" where
  "attempts_made d t = recorded d Failed t + recorded d Sent t"

lemma finite_submitted: "finite (submitted db)"
  by (simp add: submitted_def)

lemma round_attempts:
  assumes "table_inv db"
    and "popAndHandleMail (recording d (pg_queries up delay choice)) transmit pa (db, t) = (res, a, db', t')"
  shows "table_inv db' \<and> attempts_made d t' + card (submitted db') = attempts_made d t + card (submitted db)"
  using recording_round [OF assms]
proof (elim disjE conjE exE)
  assume "rows db' = rows db" "t' = t" "table_inv db'"
  then show ?thesis by (simp add: submitted_def)
next
  fix r st
  assume "ID r \<in> submitted db" "st \<in> {Failed, Sent}" "t' = RecordAttempt d st t" "table_inv db'"
    "submitted db' = submitted db - {ID r}"
  moreover from this have "card (submitted db) = Suc (card (submitted db'))"
    using card.remove [OF finite_submitted, of "ID r" db] by simp
  ultimately show ?thesis by (auto simp: attempts_made_def recorded_RecordAttempt)
qed

text \<open>Where the statements succeed, the counter of a status grows as the gauge does.\<close>

lemma set_one_status:
  assumes "distinct (map ID xs)" and "r \<in> set xs" and "Status r = Submitted" and "st \<noteq> Submitted" and "s \<noteq> Submitted"
    and "\<And>x. x \<in> set xs \<Longrightarrow> Status (f x) = (if ID x = ID r then st else Status x)"
  shows "length (filter (\<lambda>x. Status x = s) (map f xs))
    = length (filter (\<lambda>x. Status x = s) xs) + (if s = st then 1 else 0)"
  using assms
proof (induction xs)
  case (Cons x xs)
  have tl: "Status (f y) = (if ID y = ID r then st else Status y)" if "y \<in> set xs" for y
    using Cons.prems(6) that by simp
  show ?case
  proof (cases "x = r")
    case True
    with Cons.prems(1) have "ID y \<noteq> ID r" if "y \<in> set xs" for y using that by (auto simp: image_iff)
    with tl have "length (filter (\<lambda>x. Status x = s) (map f xs)) = length (filter (\<lambda>x. Status x = s) xs)"
      by (simp add: filter_map o_def cong: filter_cong)
    moreover have "Status (f x) = st" using Cons.prems(6) [of x] True by simp
    ultimately show ?thesis using True Cons.prems(3,5) by auto
  next
    case False
    with Cons.prems(1,2) have r: "r \<in> set xs" "ID x \<noteq> ID r" by auto
    with Cons.prems(6) [of x] have "Status (f x) = Status x" by simp
    with Cons.IH [OF _ r(1) Cons.prems(3-5) tl] Cons.prems(1) show ?thesis by (cases "s = st") auto
  qed
qed simp

lemma round_statuses:
  assumes "table_inv db" and "\<forall>db. up db" and "s \<in> {Failed, Sent}"
    and "popAndHandleMail (recording d (pg_queries up delay choice)) transmit pa (db, t) = (res, a, db', t')"
  shows "recorded d s t' + with_status s db = recorded d s t + with_status s db'"
  using recording_round [OF assms(1,4)]
proof (elim disjE conjE exE)
  assume "rows db' = rows db" "t' = t"
  then show ?thesis by (simp add: with_status_def)
next
  fix r st db1
  assume r: "st \<in> {Failed, Sent}" "t' = RecordAttempt d st t"
    "PopMailForProcessing (pg_queries up delay choice) retryFailedIntervalMicroseconds db = (Some [r], db1)"
    "db' = snd (SetMailStatus (pg_queries up delay choice) (ID r) st db1)"
  from pg_pop_rows [OF assms(1) r(3)] obtain r0 now where r0: "r0 \<in> set (rows db)" "Status r0 = Submitted"
    "r = set_processing now (ID r0) r0" "rows db1 = map (set_processing now (ID r0)) (rows db)" by auto
  define f where "f m = (if ID m = ID r0 then m\<lparr>Status := st\<rparr> else m)" for m :: mail_entry
  have "rows db' = map (f \<circ> set_processing now (ID r0)) (rows db)"
    using r(4) r0(3,4) assms(2) by (simp add: pg_queries_def sql_SetMailStatus_def pass_def f_def [abs_def] o_def)
  moreover have "Status ((f \<circ> set_processing now (ID r0)) m) = (if ID m = ID r0 then st else Status m)" for m
    by (simp add: f_def set_processing_def)
  ultimately have "with_status s db' = with_status s db + (if s = st then 1 else 0)"
    using set_one_status [of "rows db" r0 st s "f \<circ> set_processing now (ID r0)"] r0(1,2) r(1) assms(1,3)
    by (auto simp: with_status_def table_inv_def)
  with r(2) show ?thesis by (simp add: recorded_RecordAttempt)
qed

text \<open>Both laws over the life of a dispatcher, from its initialization to its end.\<close>

lemma initializeQueueObservability_Ok:
  assumes "initializeQueueObservability new_ok register_ok t = (Ok d, t')"
  shows "d = \<lparr>reg = Some (next_reg t), attemptsCounter = attempts_counter\<rparr>"
    and "t' = t\<lparr>callbacks := (next_reg t, status_gauge) # callbacks t, next_reg := Suc (next_reg t)\<rparr>"
  using assms by (simp_all add: initializeQueueObservability_def split: if_splits)

lemma recorded_Close [simp]: "recorded d st (Close d' t) = recorded d st t"
  by (simp add: recorded_def counter_value_def Close_def split: option.split)

lemma recorded_initialize:
  "initializeQueueObservability new_ok register_ok t = (r, t') \<Longrightarrow> recorded d st t' = recorded d st t"
  by (auto simp: initializeQueueObservability_def recorded_def counter_value_def split: if_splits)

definition attempts_of :: "mail_status \<Rightarrow> telemetry \<Rightarrow> nat" where
  "attempts_of st t = counter_value attempts_counter [(''status'', status_text st)] t"

lemma counted_HandleMailQueue_cases:
  assumes "counted_HandleMailQueue new_ok register_ok ticks fuel q transmit pa db t = Some (Ok (res, a, db'), t')"
  obtains d t0 t1 where "initializeQueueObservability new_ok register_ok t = (Ok d, t0)"
    and "HandleMailQueue ticks fuel (recording d q) transmit pa (db, t0) = Some (res, a, db', t1)" and "t' = Close d t1"
    and "\<And>st. recorded d st t0 = attempts_of st t" and "\<And>st. recorded d st t1 = attempts_of st t'"
proof -
  from assms obtain d t0 t1 where i: "initializeQueueObservability new_ok register_ok t = (Ok d, t0)"
    and h: "HandleMailQueue ticks fuel (recording d q) transmit pa (db, t0) = Some (res, a, db', t1)" "t' = Close d t1"
    by (auto simp: counted_HandleMailQueue_def split: prod.splits outcome.splits)
  note d = initializeQueueObservability_Ok(1) [OF i]
  have "recorded d st t0 = attempts_of st t" for st
    using recorded_initialize [OF i, of d st] by (simp add: recorded_def attempts_of_def d)
  moreover have "recorded d st t1 = attempts_of st t'" for st
    using recorded_Close [of d st d t1] by (simp add: recorded_def attempts_of_def d h(2))
  ultimately show thesis using i h that by blast
qed

lemma all_attempts_counted:
  assumes "table_inv db"
    and "counted_HandleMailQueue new_ok register_ok ticks fuel (pg_queries up delay choice) transmit pa db t
      = Some (Ok (res, a, db'), t')"
  shows "attempts_of Failed t' + attempts_of Sent t' + card (submitted db')
    = attempts_of Failed t + attempts_of Sent t + card (submitted db)"
  using assms(2)
proof (rule counted_HandleMailQueue_cases)
  fix d t0 t1
  assume h: "HandleMailQueue ticks fuel (recording d (pg_queries up delay choice)) transmit pa (db, t0) = Some (res, a, db', t1)"
    and r: "\<And>st. recorded d st t0 = attempts_of st t" "\<And>st. recorded d st t1 = attempts_of st t'"
  define P where "P s \<longleftrightarrow> table_inv (fst s)
    \<and> attempts_made d (snd s) + card (submitted (fst s)) = attempts_made d t0 + card (submitted db)" for s
  have "P (db', t1)"
  proof (rule HandleMailQueue_keeps [OF _ _ h])
    show "P (db, t0)" using assms(1) by (simp add: P_def)
    show "P s'" if "P s" "popAndHandleMail (recording d (pg_queries up delay choice)) transmit pa s = (res, b, s')"
      for s res b s'
      using that round_attempts [of "fst s" d up delay choice transmit pa "snd s" res b "fst s'" "snd s'"]
      by (simp add: P_def)
  qed
  then show ?thesis by (simp add: P_def attempts_made_def r)
qed

lemma statuses_counted:
  assumes "table_inv db" and "\<forall>db. up db" and "s \<in> {Failed, Sent}"
    and "counted_HandleMailQueue new_ok register_ok ticks fuel (pg_queries up delay choice) transmit pa db t
      = Some (Ok (res, a, db'), t')"
  shows "attempts_of s t' + with_status s db = attempts_of s t + with_status s db'"
  using assms(4)
proof (rule counted_HandleMailQueue_cases)
  fix d t0 t1
  assume h: "HandleMailQueue ticks fuel (recording d (pg_queries up delay choice)) transmit pa (db, t0) = Some (res, a, db', t1)"
    and r: "\<And>st. recorded d st t0 = attempts_of st t" "\<And>st. recorded d st t1 = attempts_of st t'"
  define P where "P x \<longleftrightarrow> table_inv (fst x)
    \<and> recorded d s (snd x) + with_status s db = recorded d s t0 + with_status s (fst x)" for x
  have "P (db', t1)"
  proof (rule HandleMailQueue_keeps [OF _ _ h])
    show "P (db, t0)" using assms(1) by (simp add: P_def)
    show "P x'" if "P x" "popAndHandleMail (recording d (pg_queries up delay choice)) transmit pa x = (res, b, x')"
      for x res b x'
      using that round_attempts [of "fst x" d up delay choice transmit pa "snd x" res b "fst x'" "snd x'"]
        round_statuses [of "fst x" up s d delay choice transmit pa "snd x" res b "fst x'" "snd x'"] assms(2,3)
      by (simp add: P_def)
  qed
  then show ?thesis by (simp add: P_def r)
qed

section \<open>The dispatcher with its metrics is the dispatcher\<close>

lemma recording_pop:
  "PopMailForProcessing (recording d q) iv s = (rs, s') \<Longrightarrow>
    PopMailForProcessing q iv (fst s) = (rs, fst s') \<and> snd s' = snd s"
  by (cases s; cases s') (simp add: recording_sel prod_eq_iff)

lemma recording_set: "fst (snd (SetMailStatus (recording d q) i st s)) = snd (SetMailStatus q i st (fst s))"
  by (cases s) (simp add: recording_sel)

context mail_queries begin

lemma recording_queries: "mail_queries (recording d q) (\<lambda>s. inv (fst s)) (\<lambda>s. waiting (fst s))"
proof
  show "finite (waiting (fst s))" for s :: "'db \<times> telemetry" by (rule finite_waiting)
next
  fix s s' :: "'db \<times> telemetry"
  assume "inv (fst s)" "PopMailForProcessing (recording d q) retryFailedIntervalMicroseconds s = (None, s')"
  with recording_pop [of d q] pop_fails [of "fst s" "fst s'"] show "s' = s" by (metis prod_eqI)
next
  fix s rs and s' :: "'db \<times> telemetry"
  assume i: "inv (fst s)" and p: "PopMailForProcessing (recording d q) retryFailedIntervalMicroseconds s = (Some rs, s')"
  from pop_gives [OF i conjunct1 [OF recording_pop [OF p]]]
  show "(rs = [] \<and> waiting (fst s) = {} \<and> waiting (fst s') = {} \<and> inv (fst s'))
      \<or> (\<exists>r. rs = [r] \<and> ID r \<in> waiting (fst s) \<and> waiting (fst s') = waiting (fst s) - {ID r} \<and> inv (fst s'))" .
next
  fix s r st and s' :: "'db \<times> telemetry"
  assume i: "inv (fst s)" and st: "st \<in> {Failed, Sent}"
    and p: "PopMailForProcessing (recording d q) retryFailedIntervalMicroseconds s = (Some [r], s')"
  from set_keeps [OF i conjunct1 [OF recording_pop [OF p]] st]
  show "inv (fst (snd (SetMailStatus (recording d q) (ID r) st s')))
      \<and> waiting (fst (snd (SetMailStatus (recording d q) (ID r) st s'))) = waiting (fst s')"
    unfolding recording_set .
qed

end

interpretation counted: mail_queries "recording d (pg_queries up delay choice)" "\<lambda>s. queue_ok good (fst s)"
    "\<lambda>s. submitted (fst s)"
  for d up delay choice good
  by (rule pg.recording_queries)

text \<open>Its inner loop ends, with the metrics as without, and it goes through its ticks where the handling of
  no row panics.\<close>

lemma counted_HandleMailQueue_no_panic:
  assumes "table_inv db" and "all_rows (row_handled transmit pa) db"
    and "counted_HandleMailQueue new_ok register_ok ticks fuel (pg_queries up delay choice) transmit pa db t
      = Some (Ok (res, a, db'), t')"
  shows "res = Ok ()"
  using assms(3)
proof (rule counted_HandleMailQueue_cases)
  fix d t0 t1
  assume h: "HandleMailQueue ticks fuel (recording d (pg_queries up delay choice)) transmit pa (db, t0) = Some (res, a, db', t1)"
  show ?thesis
  proof (rule counted.HandleMailQueue_no_panic [where good = "\<lambda>_. row_handled transmit pa", OF _ _ h])
    show "queue_ok (\<lambda>_. row_handled transmit pa) (fst (db, t0))" using assms(1,2) by simp
    show "\<forall>s r s'. queue_ok (\<lambda>_. row_handled transmit pa) (fst s)
      \<longrightarrow> PopMailForProcessing (recording d (pg_queries up delay choice)) retryFailedIntervalMicroseconds s = (Some [r], s')
      \<longrightarrow> \<not> panics (fst (handle_popped transmit pa r))"
      using stored_rows_pop(2) handle_popped_no_panic recording_pop by blast
  qed
qed

lemma counted_drain_ends:
  assumes "table_inv db" and "card (submitted db) < n"
  shows "drain n (recording d (pg_queries up delay choice)) transmit pa (db, t) \<noteq> None"
  using assms by (intro counted.drain_ends [where good = "\<lambda>_ _. True"]) (simp_all add: stored_rows_def list_all_iff)

lemma counted_HandleMailQueue_returns:
  assumes "table_inv db" and "card (submitted db) < fuel"
  shows "counted_HandleMailQueue new_ok register_ok ticks fuel (pg_queries up delay choice) transmit pa db t \<noteq> None"
proof -
  have "HandleMailQueue ticks fuel (recording d (pg_queries up delay choice)) transmit pa (db, t0) \<noteq> None" for d t0
    using assms by (intro counted.HandleMailQueue_returns [where good = "\<lambda>_ _. True"]) (simp_all add: stored_rows_def list_all_iff)
  then show ?thesis
    by (simp add: counted_HandleMailQueue_def split: prod.split outcome.split)
qed

lemma counted_HandleMailQueue_starts:
  assumes "new_ok status_gauge" and "new_ok attempts_counter" and "register_ok" and "table_inv db"
    and "card (submitted db) < fuel"
  shows "\<exists>res a db' t'. counted_HandleMailQueue new_ok register_ok ticks fuel (pg_queries up delay choice) transmit pa db t
    = Some (Ok (res, a, db'), t')"
  using counted_HandleMailQueue_returns [OF assms(4,5), of new_ok register_ok ticks up delay choice transmit pa t] assms(1-3)
  by (auto simp: counted_HandleMailQueue_def initializeQueueObservability_def)

section \<open>The gauge\<close>

text \<open>The callback observes each status once, and each mail in one of them.\<close>

lemma status_callback_observes:
  assumes "status_callback (Some (sql_CountMailsByStatus db)) = Ok obs"
  shows "map snd obs = map (\<lambda>s. [(''status'', status_text s)]) [Submitted, Processing, Failed, Sent]"
    and "sum_list (map fst obs) = length (rows db)"
proof -
  from assms show "map snd obs = map (\<lambda>s. [(''status'', status_text s)]) [Submitted, Processing, Failed, Sent]"
    by (auto simp: status_callback_def sql_CountMailsByStatus_def)
  have "sum_list (map (\<lambda>s. length (filter (\<lambda>r. Status r = s) xs)) [Submitted, Processing, Failed, Sent]) = length xs"
    for xs :: "mail_entry list"
  proof (induction xs)
    case (Cons x xs)
    then show ?case by (cases "Status x") simp_all
  qed simp
  with assms show "sum_list (map fst obs) = length (rows db)"
    by (auto simp: status_callback_def sql_CountMailsByStatus_def)
qed

text \<open>A dispatcher that ends has unregistered its callback.\<close>

definition regs_ok :: "telemetry \<Rightarrow> bool" where
  "regs_ok t \<longleftrightarrow> (\<forall>c \<in> set (callbacks t). fst c < next_reg t)"

lemma callbacks_recording:
  "popAndHandleMail (recording d q) transmit pa s = (res, a, s') \<Longrightarrow> callbacks (snd s') = callbacks (snd s)"
  by (cases s)
     (auto simp: popAndHandleMail_def recording_def RecordAttempt_def add_one_def
       split: prod.splits option.splits list.splits)

lemma callbacks_unregistered:
  assumes "regs_ok t" and "counted_HandleMailQueue new_ok register_ok ticks fuel q transmit pa db t = Some (r, t')"
  shows "callbacks t' = callbacks t"
proof (cases r)
  case (Ok x)
  then obtain res a db' where "r = Ok (res, a, db')" by (cases x) simp
  with assms(2) have "counted_HandleMailQueue new_ok register_ok ticks fuel q transmit pa db t = Some (Ok (res, a, db'), t')"
    by simp
  then show ?thesis
  proof (rule counted_HandleMailQueue_cases)
    fix d t0 t1
    assume i: "initializeQueueObservability new_ok register_ok t = (Ok d, t0)"
      and h: "HandleMailQueue ticks fuel (recording d q) transmit pa (db, t0) = Some (res, a, db', t1)" "t' = Close d t1"
    from h(1) have "callbacks (snd (db', t1)) = callbacks t0"
      by (rule HandleMailQueue_keeps [of "\<lambda>s. callbacks (snd s) = callbacks t0", rotated 2])
         (simp_all add: callbacks_recording)
    moreover have "filter (\<lambda>c. fst c \<noteq> next_reg t) (callbacks t) = callbacks t"
      using assms(1) by (intro filter_True) (auto simp: regs_ok_def)
    ultimately show ?thesis
      using initializeQueueObservability_Ok [OF i] h(2) by (simp add: Close_def)
  qed
qed (use assms(2) in \<open>auto simp: counted_HandleMailQueue_def initializeQueueObservability_def split: if_splits\<close>)

section \<open>Counted mails\<close>

text \<open>A mail is counted exactly where the SMTP server behind the sender has taken it; the Graph
  sender, which is a \<^verbatim>\<open>MailSender\<close> too, does not count.\<close>

lemma counted_TransmitMail_count:
  assumes "counted_TransmitMail new_ok deliver rb s m t = (r, ms, t')" and "mo t = Some c"
  shows "adds t' = adds t @ (if r = Ok () then [(c, [(''impl'', ''smtp''), (''smtp_endpoint'', smtpHost s)])] else [])"
  using assms
  by (auto simp: counted_TransmitMail_def count_sent_def getMailObservability_def add_one_def
      split: prod.splits outcome.splits)

end
