(* ===== verification/Cli_Commands.thy ===== *)
theory Cli_Commands
  imports Api_Server Observability
begin

text \<open>
  \<^verbatim>\<open>internal/cli/commands.go\<close>: the two subcommands with their middlewares, which log the
  configuration and set up and shut down the providers of traces and metrics, and the exit status
  of the process; the group of tasks of the SMTP proxy (\<^verbatim>\<open>internal/cli/actions/smtp-proxy.go\<close>).
  The command-line library, which picks the subcommand, and the parser of log levels are
  parameters.
\<close>

section \<open>Runs of a command\<close>

datatype provider = Tracer_Provider | Meter_Provider "reader list"

datatype run_event =
    Level_Set string
  | Startup_Log string "(string \<times> string) list"
  | Set_Up provider
  | Shut_Down provider

text \<open>A run gives its outcome and what happened, in order; a middleware wraps a run.\<close>

type_synonym command_run = "(string, unit) outcome \<times> run_event list"

definition after :: "run_event list \<Rightarrow> command_run \<Rightarrow> command_run" where
  "after es r = (fst r, es @ snd r)"

definition chain :: "command_run \<Rightarrow> (command_run \<Rightarrow> command_run) list \<Rightarrow> command_run" where
  "chain run mws = foldr (\<lambda>mw r. mw r) mws run"

definition withStartupLog :: "string \<Rightarrow> string \<Rightarrow> flag list \<Rightarrow> struct_field list \<Rightarrow> command_run \<Rightarrow> command_run" where
  "withStartupLog cmd_name mode fs cfg next =
     (case ConfigFields mode fs cfg of
        Err e \<Rightarrow> (Err e, [])
      | Panic p \<Rightarrow> (Panic p, [])
      | Ok None \<Rightarrow> next
      | Ok (Some logged) \<Rightarrow> after [Startup_Log cmd_name logged] next)"

section \<open>Observability\<close>

record run_world = exporter_world +
  resource_merges :: bool
  shuts_down :: "provider \<Rightarrow> bool"

record observability_flags =
  ExportOtelTraces :: bool
  ExportOtelMetrics :: bool

text \<open>A deferred shutdown, which joins its error to the one that is returned. It runs on every way
  out but the end of the process by a fatal log entry.\<close>

definition defer_shutdown :: "run_world \<Rightarrow> string \<Rightarrow> provider \<Rightarrow> command_run \<Rightarrow> command_run" where
  "defer_shutdown w msg p run =
     (if fst run = Panic Exit then run
      else (case fst run of
          Panic x \<Rightarrow> Panic x
        | Err e \<Rightarrow> Err (if shuts_down w p then e else e @ [LF] @ msg)
        | Ok _ \<Rightarrow> if shuts_down w p then Ok () else Err msg,
        snd run @ [Shut_Down p]))"

definition with_metrics :: "run_world \<Rightarrow> observability_flags \<Rightarrow> command_run \<Rightarrow> command_run" where
  "with_metrics w og next =
     (case SetupMetrics (exporter_world.truncate w) (ExportOtelMetrics og) of
        Err e \<Rightarrow> (Err (''failed to setup observability (metrics): '' @ e), [])
      | Panic x \<Rightarrow> (Panic x, [])
      | Ok rs \<Rightarrow> defer_shutdown w ''failed to shutdown metricsprovider'' (Meter_Provider rs)
          (after [Set_Up (Meter_Provider rs)] next))"

definition withObservability :: "run_world \<Rightarrow> observability_flags \<Rightarrow> command_run \<Rightarrow> command_run" where
  "withObservability w og next =
     (if \<not> resource_merges w then (Err ''failed to create resource'', [])
      else if ExportOtelTraces og then
        (case SetupTracer (exporter_world.truncate w) of
           Err e \<Rightarrow> (Err (''failed to setup observability (tracer): '' @ e), [])
         | Panic x \<Rightarrow> (Panic x, [])
         | Ok _ \<Rightarrow> defer_shutdown w ''failed to shutdown tracerprovider'' Tracer_Provider
             (after [Set_Up Tracer_Provider] (with_metrics w og next)))
      else with_metrics w og next)"

section \<open>The subcommands\<close>

text \<open>The tasks of the SMTP proxy. Their group hangs below a background context: the context of the
  command, which a signal ends, does not reach \<open>HandleSMTPProxy\<close>.\<close>

datatype proxy_task = Serve_Proxy_Metrics | Stop_Proxy_Metrics | Serve_SMTP | Stop_SMTP

definition proxy_tasks :: "proxy_task list" where
  "proxy_tasks = [Serve_Proxy_Metrics, Stop_Proxy_Metrics, Serve_SMTP, Stop_SMTP]"

definition run_HandleSMTPProxy ::
    "bool \<Rightarrow> (string \<Rightarrow> string \<Rightarrow> bool) \<Rightarrow> token_world \<Rightarrow> int64 \<Rightarrow> proxy_settings \<Rightarrow> string option list
       \<Rightarrow> (api_error, unit) outcome" where
  "run_HandleSMTPProxy client_ok load_key_pair tw now c ends =
     (case HandleSMTPProxy client_ok load_key_pair tw now c of
        Err e \<Rightarrow> Err (Not_Started e)
      | Panic p \<Rightarrow> Panic p
      | Ok _ \<Rightarrow> Err (Group_Failed (group_wait ends)))"

text \<open>Whether the context of a group is done: its parent is, or a task has failed.\<close>

datatype parent_context = Background | Command_Context

definition group_done :: "parent_context \<Rightarrow> bool \<Rightarrow> string option list \<Rightarrow> bool" where
  "group_done parent signalled ends \<longleftrightarrow> (parent = Command_Context \<and> signalled) \<or> group_wait ends \<noteq> None"

definition proxy_group_done :: "bool \<Rightarrow> string option list \<Rightarrow> bool" where
  "proxy_group_done = group_done Background"

definition api_group_done :: "bool \<Rightarrow> string option list \<Rightarrow> bool" where
  "api_group_done = group_done Command_Context"

text \<open>A handler's outcome as the run of a command; \<open>describe\<close> gives the texts of its errors.\<close>

definition handler_run :: "(api_error \<Rightarrow> string) \<Rightarrow> (api_error, unit) outcome \<Rightarrow> command_run" where
  "handler_run describe r =
     (case r of Ok u \<Rightarrow> Ok u | Err e \<Rightarrow> Err (describe e) | Panic p \<Rightarrow> Panic p, [])"

text \<open>The configuration of the API, as the flags have set it.\<close>

definition api_config_of :: "flag list \<Rightarrow> api_config" where
  "api_config_of fs = \<lparr>a_LoggingOnly = bool_at fs ''LoggingOnly'', a_GrpcUnauthenticated = bool_at fs ''GrpcUnauthenticated'',
     a_BackendSelection = string_at fs ''BackendSelection'', a_SMTPEndpoint = string_at fs ''SMTPTargetConfig.Endpoint'',
     a_SMTPSenderName = string_at fs ''SMTPTargetConfig.DefaultSenderName'',
     a_SMTPSenderAddress = string_at fs ''SMTPTargetConfig.DefaultSenderAddress'',
     a_SMTPAuthUsername = string_at fs ''SMTPTargetConfig.AuthUsername'',
     a_SMTPAuthPassword = string_at fs ''SMTPTargetConfig.AuthPassword'',
     a_SMTPMessageIDSuffix = string_at fs ''SMTPTargetConfig.MessageIDSuffix'',
     a_GraphTenantID = string_at fs ''MsGraphAPITargetConfig.TenantID'',
     a_GraphClientID = string_at fs ''MsGraphAPITargetConfig.ClientID'',
     a_GraphClientSecret = string_at fs ''MsGraphAPITargetConfig.ClientSecret'',
     a_GraphSenderAddress = string_at fs ''MsGraphAPITargetConfig.SenderAddress'',
     a_GraphMessageIDSuffix = string_at fs ''MsGraphAPITargetConfig.MessageIDSuffix'',
     a_DatabaseDSN = string_at fs ''DatabaseDSN'', a_DatabaseMigrationsDir = string_at fs ''DatabaseMigrationsDir'',
     a_OIDCIssuerURL = string_at fs ''OIDCConfig.OIDCIssuerURL'', a_OIDCClientID = string_at fs ''OIDCConfig.OIDCClientID'',
     a_OIDCJWKSURL = string_at fs ''OIDCConfig.OIDCJWKSURL''\<rparr>"

text \<open>The subcommands: what they run, \<open>run\<close>, is a function of the flags, as their actions read the
  configuration that these set.\<close>

definition getSMTPProxyCommand ::
    "run_world \<Rightarrow> observability_flags \<Rightarrow> string \<Rightarrow> flag list \<Rightarrow> (flag list \<Rightarrow> command_run) \<Rightarrow> command_run" where
  "getSMTPProxyCommand w og mode fs run =
     chain (run fs) [withStartupLog ''smtp-proxy'' mode fs SMTPProxyConfig_fields, withObservability w og]"

definition getGrpcApiCommand ::
    "run_world \<Rightarrow> observability_flags \<Rightarrow> string \<Rightarrow> flag list \<Rightarrow> (flag list \<Rightarrow> command_run) \<Rightarrow> command_run" where
  "getGrpcApiCommand w og mode fs run =
     chain (run fs) [withStartupLog ''grpc-api'' mode fs APIConfig_fields, withObservability w og]"

section \<open>The process\<close>

definition PersistentPreRunE :: "(string \<Rightarrow> string option) \<Rightarrow> string \<Rightarrow> command_run" where
  "PersistentPreRunE parse_level level =
     (case parse_level level of
        None \<Rightarrow> (Err ''failed to parse env-set log level'', [])
      | Some l \<Rightarrow> (Ok (), [Level_Set l]))"

text \<open>What the command line asks for, as the library reads it.\<close>

datatype invocation = Smtp_Proxy_Command | Grpc_Api_Command | Show_Help | Bad_Usage

definition ExecuteContext ::
    "(string \<Rightarrow> string option) \<Rightarrow> string \<Rightarrow> invocation \<Rightarrow> command_run \<Rightarrow> command_run \<Rightarrow> command_run" where
  "ExecuteContext parse_level level i proxy_run api_run =
     (case i of
        Show_Help \<Rightarrow> (Ok (), [])
      | Bad_Usage \<Rightarrow> (Err ''usage'', [])
      | _ \<Rightarrow> (case PersistentPreRunE parse_level level of
            (Ok _, es) \<Rightarrow> after es (if i = Smtp_Proxy_Command then proxy_run else api_run)
          | r \<Rightarrow> r))"

text \<open>The status that the process exits with: a fatal log entry gives 1, a panic 2.\<close>

definition exit_status :: "(string, unit) outcome \<Rightarrow> nat" where
  "exit_status r = (case r of Ok _ \<Rightarrow> 0 | Err _ \<Rightarrow> 1 | Panic p \<Rightarrow> if p = Exit then 1 else 2)"

definition Execute ::
    "(string \<Rightarrow> string option) \<Rightarrow> string \<Rightarrow> invocation \<Rightarrow> command_run \<Rightarrow> command_run \<Rightarrow> nat \<times> run_event list" where
  "Execute parse_level level i proxy_run api_run =
     (let r = ExecuteContext parse_level level i proxy_run api_run in (exit_status (fst r), snd r))"

text \<open>The root command with its flags and its subcommands, and the main function of the bundled program.
  The log level is that of the command line, if it names one, or the flag's default.\<close>

definition Init :: "environment \<Rightarrow> flag list \<times> (string \<times> flag list) list" where
  "Init env = (RegisterCommon env, [(''smtp-proxy'', RegisterSMTPProxy env), (''grpc-api'', RegisterAPI env)])"

definition flag_string :: "string \<Rightarrow> flag list \<Rightarrow> string" where
  "flag_string n fs = (case find (\<lambda>f. fname f = n) fs of
      Some f \<Rightarrow> (case fvalue f of SString s \<Rightarrow> s | SBool b \<Rightarrow> []) | None \<Rightarrow> [])"

definition bundled_main ::
    "environment \<Rightarrow> (string \<Rightarrow> string option) \<Rightarrow> string option \<Rightarrow> invocation \<Rightarrow> command_run \<Rightarrow> command_run \<Rightarrow> nat \<times> run_event list" where
  "bundled_main env parse_level named_level i proxy_run api_run =
     Execute parse_level (case named_level of Some l \<Rightarrow> l | None \<Rightarrow> flag_string ''log-level'' (fst (Init env)))
       i proxy_run api_run"

lemma bundled_log_level:
  "flag_string ''log-level'' (fst (Init env)) = EnvOrDefault env ''LOG_LEVEL'' ''info''"
  by (simp add: flag_string_def Init_def RegisterCommon_def str_flag_def bool_flag_def)

text \<open>A log level that does not parse ends every subcommand before it has done anything.\<close>

lemma bundled_bad_level:
  assumes "parse_level (EnvOrDefault env ''LOG_LEVEL'' ''info'') = None" and "i \<in> {Smtp_Proxy_Command, Grpc_Api_Command}"
  shows "bundled_main env parse_level None i proxy_run api_run = (1, [])"
  using assms
  by (auto simp: bundled_main_def Execute_def ExecuteContext_def PersistentPreRunE_def bundled_log_level exit_status_def Let_def)

section \<open>Every provider is shut down\<close>

fun provider_event :: "run_event \<Rightarrow> bool" where
  "provider_event (Set_Up p) = True"
| "provider_event (Shut_Down p) = True"
| "provider_event _ = False"

text \<open>The providers \<open>ps\<close> are set up in this order around \<open>served\<close>, and shut down in reverse after
  it unless the process was ended.\<close>

definition bracketed :: "provider list \<Rightarrow> run_event list \<Rightarrow> command_run \<Rightarrow> bool" where
  "bracketed ps served run \<longleftrightarrow> snd run = map Set_Up ps @ served
     @ (if fst run = Panic Exit then [] else map Shut_Down (rev ps))"

lemma bracketed_defer:
  assumes "bracketed ps served run"
  shows "bracketed (p # ps) served (defer_shutdown w msg p (after [Set_Up p] run))"
  using assms
  by (cases "fst run") (auto simp: bracketed_def defer_shutdown_def after_def)

lemma defer_shutdown_Ok: "fst (defer_shutdown w msg p run) = Ok () \<Longrightarrow> fst run = Ok ()"
  by (cases "fst run") (auto simp: defer_shutdown_def split: if_splits)

lemma with_metrics_bracketed:
  "\<exists>ps served. bracketed ps served (with_metrics w og run) \<and> ps \<in> {[], [Meter_Provider [Prometheus_Reader]],
      [Meter_Provider [Periodic_Otlp, Prometheus_Reader]]}
    \<and> (if ps = [] then served = [] \<and> fst (with_metrics w og run) \<noteq> Ok () else served = snd run)
    \<and> (fst (with_metrics w og run) = Ok () \<longrightarrow> fst run = Ok ())"
proof (cases "SetupMetrics (exporter_world.truncate w) (ExportOtelMetrics og)")
  case (Ok rs)
  have "bracketed [Meter_Provider rs] (snd run) (with_metrics w og run)"
    using bracketed_defer [of "[]" "snd run" run] Ok by (simp add: with_metrics_def bracketed_def)
  moreover have "rs \<in> {[Prometheus_Reader], [Periodic_Otlp, Prometheus_Reader]}"
    using Ok by (auto simp: SetupMetrics_def split: if_splits)
  moreover have "fst (with_metrics w og run) = Ok () \<longrightarrow> fst run = Ok ()"
    using defer_shutdown_Ok Ok by (fastforce simp: with_metrics_def after_def)
  ultimately show ?thesis by (intro exI [of _ "[Meter_Provider rs]"] exI [of _ "snd run"]) auto
next
  case (Err e)
  then show ?thesis by (intro exI [of _ "[]"]) (simp add: with_metrics_def bracketed_def)
next
  case (Panic x)
  then show ?thesis by (auto simp: SetupMetrics_def split: if_splits)
qed

text \<open>What is set up where: the providers in order, and whether the command itself was run.\<close>

definition observed_run :: "observability_flags \<Rightarrow> command_run \<Rightarrow> provider list \<Rightarrow> run_event list \<Rightarrow> command_run \<Rightarrow> bool" where
  "observed_run og run ps served r \<longleftrightarrow> bracketed ps served r \<and> distinct ps
     \<and> (Tracer_Provider \<in> set ps \<longrightarrow> ExportOtelTraces og)
     \<and> (if \<exists>rs. Meter_Provider rs \<in> set ps then served = snd run else served = [] \<and> fst r \<noteq> Ok ())
     \<and> (fst r = Ok () \<longrightarrow> fst run = Ok ())"

lemma with_metrics_observed: "\<exists>ps served. observed_run og run ps served (with_metrics w og run) \<and> Tracer_Provider \<notin> set ps"
  using with_metrics_bracketed [of w og run] unfolding observed_run_def
  by (elim exE conjE, intro exI conjI) (auto split: if_splits)

lemma withObservability_observed: "\<exists>ps served. observed_run og run ps served (withObservability w og run)"
proof -
  from with_metrics_observed [of og run w] obtain ps served where m:
    "observed_run og run ps served (with_metrics w og run)" "Tracer_Provider \<notin> set ps" by blast
  have none: "observed_run og run [] [] (Err e, [])" for e
    by (simp add: observed_run_def bracketed_def)
  consider "\<not> resource_merges w" | "resource_merges w" "\<not> ExportOtelTraces og"
    | "resource_merges w" "ExportOtelTraces og" "\<not> traces_exporter w"
    | "resource_merges w" "ExportOtelTraces og" "traces_exporter w" by blast
  then show ?thesis
  proof cases
    case 4
    let ?r = "defer_shutdown w ''failed to shutdown tracerprovider'' Tracer_Provider
      (after [Set_Up Tracer_Provider] (with_metrics w og run))"
    have r: "withObservability w og run = ?r"
      using 4 by (simp add: withObservability_def SetupTracer_def exporter_world.defs)
    have ok: "fst ?r = Ok () \<longrightarrow> fst (with_metrics w og run) = Ok ()"
      using defer_shutdown_Ok by (fastforce simp: after_def)
    have "observed_run og run (Tracer_Provider # ps) served ?r"
      using m 4(2) ok bracketed_defer [of ps served "with_metrics w og run" Tracer_Provider w]
      by (auto simp: observed_run_def split: if_splits)
    with r show ?thesis by metis
  next
    case 3
    then have "withObservability w og run = (Err (''failed to setup observability (tracer): ''
        @ ''failed to startup otlp traces grpc exporter''), [])"
      by (simp add: withObservability_def SetupTracer_def exporter_world.defs)
    with none show ?thesis by metis
  qed (use m(1) none in \<open>auto simp: withObservability_def\<close>)
qed

text \<open>A subcommand: at most one entry of the startup log, then the observed run.\<close>

definition subcommand :: "run_world \<Rightarrow> observability_flags \<Rightarrow> string \<Rightarrow> string \<Rightarrow> flag list \<Rightarrow> struct_field list
    \<Rightarrow> command_run \<Rightarrow> command_run" where
  "subcommand w og name mode fs cfg run = chain run [withStartupLog name mode fs cfg, withObservability w og]"

lemma subcommand_observed:
  "\<exists>log r. subcommand w og name mode fs cfg run = after log r
    \<and> (log = [] \<or> (\<exists>l. log = [Startup_Log name l] \<and> ConfigFields mode fs cfg = Ok (Some l)))
    \<and> (\<exists>ps served. observed_run og run ps served r)"
proof (cases "ConfigFields mode fs cfg")
  case (Ok l)
  define log where "log = (case l of None \<Rightarrow> [] | Some x \<Rightarrow> [Startup_Log name x])"
  have "subcommand w og name mode fs cfg run = after log (withObservability w og run)"
    using Ok by (simp add: subcommand_def chain_def withStartupLog_def after_def log_def split: option.split)
  moreover have "log = [] \<or> (\<exists>l. log = [Startup_Log name l] \<and> ConfigFields mode fs cfg = Ok (Some l))"
    using Ok by (simp add: log_def split: option.split)
  ultimately show ?thesis using withObservability_observed [of og run w] by blast
next
  case (Err e)
  have "observed_run og run [] [] (Err e, [])" by (simp add: observed_run_def bracketed_def)
  with Err show ?thesis
    by (intro exI [of _ "[]"] exI [of _ "(Err e, [])"]) (auto simp: subcommand_def chain_def withStartupLog_def after_def)
next
  case (Panic x)
  then show ?thesis by (simp add: ConfigFields_def Let_def split: if_splits)
qed

text \<open>Order, for the events of a subcommand as they are.\<close>

lemma subcommand_events:
  "\<exists>log ps served. snd (subcommand w og name mode fs cfg run) = log @ map Set_Up ps @ served
      @ (if fst (subcommand w og name mode fs cfg run) = Panic Exit then [] else map Shut_Down (rev ps))
    \<and> (\<forall>e \<in> set log. \<not> provider_event e) \<and> distinct ps \<and> (Tracer_Provider \<in> set ps \<longrightarrow> ExportOtelTraces og)
    \<and> (if \<exists>rs. Meter_Provider rs \<in> set ps then served = snd run
       else served = [] \<and> fst (subcommand w og name mode fs cfg run) \<noteq> Ok ())
    \<and> (fst (subcommand w og name mode fs cfg run) = Ok () \<longrightarrow> fst run = Ok ())"
proof -
  from subcommand_observed [of w og name mode fs cfg run] obtain log r ps served where
    s: "subcommand w og name mode fs cfg run = after log r" "observed_run og run ps served r"
    and log: "log = [] \<or> (\<exists>l. log = [Startup_Log name l])" by blast
  have "\<forall>e \<in> set log. \<not> provider_event e" using log by auto
  moreover have "snd (after log r) = log @ snd r" "fst (after log r) = fst r" by (simp_all add: after_def)
  ultimately show ?thesis
    using s(2) unfolding s(1) observed_run_def bracketed_def
    by (intro exI [of _ log] exI [of _ ps] exI [of _ served]) (simp split: if_splits)
qed

lemma commands_eq:
  "getSMTPProxyCommand w og mode fs run = subcommand w og ''smtp-proxy'' mode fs SMTPProxyConfig_fields (run fs)"
  "getGrpcApiCommand w og mode fs run = subcommand w og ''grpc-api'' mode fs APIConfig_fields (run fs)"
  by (simp_all add: getSMTPProxyCommand_def getGrpcApiCommand_def subcommand_def)

section \<open>How the process ends\<close>

lemma run_HandleSMTPProxy_never_Ok: "run_HandleSMTPProxy client_ok lkp tw now c ends \<noteq> Ok u"
  by (simp add: run_HandleSMTPProxy_def split: outcome.split)

lemma exit_status_0: "exit_status r = 0 \<longleftrightarrow> r = Ok ()"
  by (cases r) (auto simp: exit_status_def)

text \<open>A subcommand that was run never ends with status 0, a regular shutdown included.\<close>

lemma Execute_status:
  assumes "i \<in> {Smtp_Proxy_Command, Grpc_Api_Command}"
    and "proxy_run = getSMTPProxyCommand w og mode fs (\<lambda>fs. handler_run d (run_HandleSMTPProxy client_ok lkp tw now (proxy_settings_of fs) ends))"
    and "api_run = getGrpcApiCommand w og mode' fs' (\<lambda>fs. handler_run d (HandleNotificationsAPI sw (api_config_of fs) ends))"
  shows "fst (Execute parse_level level i proxy_run api_run) \<noteq> 0"
proof -
  have "fst (handler_run d r) = Ok () \<Longrightarrow> r = Ok ()" for r :: "(api_error, unit) outcome"
    by (cases r) (simp_all add: handler_run_def)
  with run_HandleSMTPProxy_never_Ok HandleNotificationsAPI_never_Ok subcommand_events assms(2,3)
  have "fst proxy_run \<noteq> Ok ()" "fst api_run \<noteq> Ok ()" unfolding commands_eq by metis+
  with assms(1) show ?thesis
    by (auto simp: Execute_def Let_def exit_status_0 ExecuteContext_def PersistentPreRunE_def after_def
        split: option.splits)
qed

text \<open>Under redaction a subcommand writes one entry to the log before anything else, and that entry is the
  same for flags that agree in public.\<close>

lemma startup_log_redacted:
  assumes "same_public cfg fs gs"
  shows "\<exists>entries. \<forall>r. subcommand w og name ''redact-confidential'' fs cfg r
        = after [Startup_Log name entries] (withObservability w og r)
    \<and> subcommand w og name ''redact-confidential'' gs cfg r = after [Startup_Log name entries] (withObservability w og r)"
proof -
  obtain l where l: "ConfigFields ''redact-confidential'' fs cfg = Ok (Some l)" by (simp add: ConfigFields_def)
  then have "ConfigFields ''redact-confidential'' gs cfg = Ok (Some l)" by (simp add: ConfigFields_redacts [OF assms])
  with l show ?thesis by (intro exI [of _ l]) (simp add: subcommand_def chain_def withStartupLog_def)
qed

text \<open>A signal ends the group of the API; the proxy's group goes on until one of its tasks fails.\<close>

lemma signal_reaches_api_only:
  "api_group_done True ends" "proxy_group_done signalled ends = proxy_group_done False ends"
  by (simp_all add: api_group_done_def proxy_group_done_def group_done_def)

end
