(* ===== verification/Props_Cli.thy ===== *)
theory Props_Cli
  imports Props_Smtp Cli_Commands
begin

text \<open>
  The properties of the commands and of their metrics: what is logged at the start, what is set up
  and shut down, and what the counters of the dispatcher say.
\<close>

section \<open>The commands\<close>

text \<open>
  C33: every provider is shut down. Whatever a subcommand does, it sets up each of its providers
  at most once, runs only between the set-up and the shutdown, and on every way out, but a fatal
  log entry, shuts down exactly the providers that were set up, in reverse order; it is run only
  with a meter provider, and succeeds only where it was run and succeeded itself.
\<close>

theorem providers_shut_down:
  assumes "command \<in> {getSMTPProxyCommand w og mode fs run, getGrpcApiCommand w og mode fs run}"
  shows "\<exists>log ps served. snd command = log @ map Set_Up ps @ served
      @ (if fst command = Panic Exit then [] else map Shut_Down (rev ps))
    \<and> (\<forall>e \<in> set log. \<not> provider_event e) \<and> distinct ps \<and> (Tracer_Provider \<in> set ps \<longrightarrow> ExportOtelTraces og)
    \<and> (if \<exists>rs. Meter_Provider rs \<in> set ps then served = snd (run fs) else served = [] \<and> fst command \<noteq> Ok ())
    \<and> (fst command = Ok () \<longrightarrow> fst (run fs) = Ok ())"
proof -
  from assms obtain name cfg where eq: "command = subcommand w og name mode fs cfg (run fs)"
    unfolding commands_eq by blast
  show ?thesis unfolding eq by (rule subcommand_events)
qed

definition sample_run_world :: run_world where
  "sample_run_world = \<lparr>traces_exporter = True, metrics_exporter = True, prometheus_exporter = True,
     resource_merges = True, shuts_down = (\<lambda>p. p \<noteq> Tracer_Provider)\<rparr>"

text \<open>The run of the API's command, whose database cannot be opened, and of the proxy's.\<close>

abbreviation no_database :: startup_world where
  "no_database \<equiv> \<lparr>open_db = (\<lambda>_. False), exec_migrations = (\<lambda>_ _. None), close_db = (\<lambda>_. True), new_pool = (\<lambda>_. False),
     fetch_jwks = (\<lambda>_. True), host_of_url = (\<lambda>_. Some ''relay'')\<rparr>"

definition sample_api_run :: "flag list \<Rightarrow> command_run" where
  "sample_api_run fs = handler_run (\<lambda>_. ''failed'') (HandleNotificationsAPI no_database (api_config_of fs) [])"

definition sample_proxy_run :: "flag list \<Rightarrow> command_run" where
  "sample_proxy_run fs = handler_run (\<lambda>_. ''failed'')
     (run_HandleSMTPProxy True (\<lambda>_ _. True) sample_token_world 100 (proxy_settings_of fs) [Some ''closed''])"

lemma providers_shut_down_witness:
  "\<exists>log ps. snd (getGrpcApiCommand sample_run_world \<lparr>ExportOtelTraces = True, ExportOtelMetrics = False\<rparr> ''none'' []
      sample_api_run) = log @ map Set_Up ps @ map Shut_Down (rev ps) \<and> ps \<noteq> []"
proof -
  let ?c = "getGrpcApiCommand sample_run_world \<lparr>ExportOtelTraces = True, ExportOtelMetrics = False\<rparr> ''none'' []
      sample_api_run"
  have "fst ?c \<noteq> Panic Exit" "Set_Up Tracer_Provider \<in> set (snd ?c)" by code_simp+
  moreover have "snd (sample_api_run []) = []" by code_simp
  ultimately show ?thesis
    using providers_shut_down [of ?c sample_run_world "\<lparr>ExportOtelTraces = True, ExportOtelMetrics = False\<rparr>" "''none''" "[]"
      sample_api_run]
    by (fastforce split: if_splits)
qed

text \<open>
  Under the mode \<open>redact-confidential\<close> the startup log does not depend on the confidential
  fields of the configuration: flags that differ in their values alone give the same log.
\<close>

lemma confidential_not_logged:
  assumes "list_all2 (\<lambda>f g. fname f = fname g \<and> dest f = dest g
      \<and> (dest f \<notin> set (collectConfidential cfg) \<longrightarrow> fvalue f = fvalue g)) fs gs"
  shows "withStartupLog cmd_name ''redact-confidential'' fs cfg run = withStartupLog cmd_name ''redact-confidential'' gs cfg run"
  using ConfigFields_redacts [of cfg fs gs] assms by (simp add: withStartupLog_def same_public_def)

lemma confidential_not_logged_witness:
  "withStartupLog ''grpc-api'' ''redact-confidential'' [\<lparr>fname = ''database-url'', dest = ''DatabaseDSN'', fvalue = SString ''a''\<rparr>]
      APIConfig_fields (Ok (), [])
    = withStartupLog ''grpc-api'' ''redact-confidential'' [\<lparr>fname = ''database-url'', dest = ''DatabaseDSN'', fvalue = SString ''b''\<rparr>]
      APIConfig_fields (Ok (), [])"
  by (rule confidential_not_logged) (simp add: confidential_fields)

text \<open>The flags of the two commands, with the environment variables that give their defaults. Every
  field of the configuration is set by exactly one flag, and no flag is registered twice.\<close>

definition api_flags :: "environment \<Rightarrow> flag list" where
  "api_flags env = RegisterCommon env @ RegisterAPI env"

definition proxy_flags :: "environment \<Rightarrow> flag list" where
  "proxy_flags env = RegisterCommon env @ RegisterSMTPProxy env"

lemmas flag_defs = RegisterCommon_def RegisterObservability_def RegisterAPI_def RegisterSMTPProxy_def str_flag_def bool_flag_def

lemma flags_cover_fields:
  "distinct (map fname (api_flags env))" "distinct (map fname (proxy_flags env))"
  "distinct (map dest (api_flags env))" "distinct (map dest (proxy_flags env))"
  "set (collectConfidential APIConfig_fields) \<subseteq> set (map dest (api_flags env))"
  "set (collectConfidential SMTPProxyConfig_fields) \<subseteq> set (map dest (proxy_flags env))"
  by (simp_all add: api_flags_def proxy_flags_def flag_defs confidential_fields)

definition secret_variables :: "string set" where
  "secret_variables = {''SMTP_AUTH_LOGIN_PASSWORD'', ''MS_GRAPH_SP_CLIENT_SECRET'', ''SIP_AUTH_OIDC_CLIENT_SECRET'', ''POSTGRES_DSN''}"

definition agree_but_secrets :: "environment \<Rightarrow> environment \<Rightarrow> bool" where
  "agree_but_secrets env env' \<longleftrightarrow> (\<forall>v. v \<notin> secret_variables \<longrightarrow> env v = env' v)"

lemma EnvOrDefault_agree:
  "agree_but_secrets env env' \<Longrightarrow> v \<notin> secret_variables \<Longrightarrow> EnvOrDefault env v d = EnvOrDefault env' v d"
  by (simp add: agree_but_secrets_def EnvOrDefault_def)

lemma flags_same_public:
  assumes "agree_but_secrets env env'"
  shows "same_public APIConfig_fields (api_flags env) (api_flags env')"
    and "same_public SMTPProxyConfig_fields (proxy_flags env) (proxy_flags env')"
  by (simp_all add: same_public_def api_flags_def proxy_flags_def flag_defs confidential_fields
      EnvOrDefault_agree [OF assms] secret_variables_def)

text \<open>
  C34: secrets do not get into the startup log. Let two environments differ only in the variables
  that hold the SMTP password, the client secrets and the address of the database. Under the default
  mode either command first writes one entry to the log, the same one in both environments; what
  follows are the events of its providers and of its own action, which may depend on the secrets: the
  log holds nothing of them.
\<close>

theorem secrets_not_logged:
  assumes "agree_but_secrets env env'"
  shows "\<exists>api_log proxy_log.
      (\<forall>e \<in> {env, env'}. getGrpcApiCommand w og ''redact-confidential'' (api_flags e) run
          = after [Startup_Log ''grpc-api'' api_log] (withObservability w og (run (api_flags e))))
    \<and> (\<forall>e \<in> {env, env'}. getSMTPProxyCommand w og ''redact-confidential'' (proxy_flags e) run'
          = after [Startup_Log ''smtp-proxy'' proxy_log] (withObservability w og (run' (proxy_flags e))))"
proof -
  from startup_log_redacted [OF flags_same_public(1) [OF assms], of w og "''grpc-api''"] obtain l1 where
    1: "subcommand w og ''grpc-api'' ''redact-confidential'' (api_flags e) APIConfig_fields r
      = after [Startup_Log ''grpc-api'' l1] (withObservability w og r)" if "e \<in> {env, env'}" for e r by blast
  from startup_log_redacted [OF flags_same_public(2) [OF assms], of w og "''smtp-proxy''"] obtain l2 where
    2: "subcommand w og ''smtp-proxy'' ''redact-confidential'' (proxy_flags e) SMTPProxyConfig_fields r
      = after [Startup_Log ''smtp-proxy'' l2] (withObservability w og r)" if "e \<in> {env, env'}" for e r by blast
  show ?thesis unfolding commands_eq by (intro exI [of _ l1] exI [of _ l2] conjI ballI 1 2)
qed

abbreviation sample_flags :: observability_flags where
  "sample_flags \<equiv> \<lparr>ExportOtelTraces = True, ExportOtelMetrics = False\<rparr>"

text \<open>With another address of the database, and with an empty client secret, for which the proxy does
  not start.\<close>

definition other_environment :: environment where
  "other_environment = [''POSTGRES_DSN'' \<mapsto> ''postgres://u:pw@db'', ''SIP_AUTH_OIDC_CLIENT_SECRET'' \<mapsto> []]"

lemma secrets_not_logged_witness:
  "hd (snd (getGrpcApiCommand sample_run_world sample_flags ''redact-confidential'' (api_flags (\<lambda>_. None)) sample_api_run))
      = hd (snd (getGrpcApiCommand sample_run_world sample_flags ''redact-confidential'' (api_flags other_environment) sample_api_run))
    \<and> hd (snd (getSMTPProxyCommand sample_run_world sample_flags ''redact-confidential'' (proxy_flags (\<lambda>_. None)) sample_proxy_run))
      = hd (snd (getSMTPProxyCommand sample_run_world sample_flags ''redact-confidential'' (proxy_flags other_environment) sample_proxy_run))
    \<and> s_OIDCClientSecret (proxy_settings_of (proxy_flags (\<lambda>_. None))) \<noteq> s_OIDCClientSecret (proxy_settings_of (proxy_flags other_environment))"
proof -
  have "agree_but_secrets (\<lambda>_. None) other_environment"
    by (simp add: agree_but_secrets_def secret_variables_def other_environment_def)
  from secrets_not_logged [OF this, of sample_run_world sample_flags sample_api_run sample_proxy_run] obtain l1 l2 where l:
    "\<forall>e \<in> {\<lambda>_. None, other_environment}. getGrpcApiCommand sample_run_world sample_flags ''redact-confidential'' (api_flags e) sample_api_run
      = after [Startup_Log ''grpc-api'' l1] (withObservability sample_run_world sample_flags (sample_api_run (api_flags e)))"
    "\<forall>e \<in> {\<lambda>_. None, other_environment}. getSMTPProxyCommand sample_run_world sample_flags ''redact-confidential'' (proxy_flags e) sample_proxy_run
      = after [Startup_Log ''smtp-proxy'' l2] (withObservability sample_run_world sample_flags (sample_proxy_run (proxy_flags e)))" by blast
  have "s_OIDCClientSecret (proxy_settings_of (proxy_flags (\<lambda>_. None))) = ''notifications-api''"
    "s_OIDCClientSecret (proxy_settings_of (proxy_flags other_environment)) = []" by code_simp+
  with l show ?thesis by (simp add: after_def)
qed

section \<open>The dispatcher's counters\<close>

text \<open>
  C22: the counters agree with the table. A dispatcher that starts on a reachable table, with its
  counter, its gauge and the callback registered, either goes through its ticks or is ended by a panic
  over a mail, which it can only be where handling one of the rows panics. Either way it counts one
  attempt for each mail that it takes out of the submitted ones; where the statements succeed, the
  attempts counted as failed and as sent are the growth of the numbers of mails that the gauge shows in
  these states; and no callback of it is left when it ends.
\<close>

theorem attempts_counted:
  assumes "queue_reachable (db, log)" and "card (submitted db) < fuel" and "regs_ok t"
    and "new_ok status_gauge" and "new_ok attempts_counter" and "register_ok"
  shows "\<exists>res a db' t'. counted_HandleMailQueue new_ok register_ok ticks fuel (pg_queries up delay choice) transmit pa db t
      = Some (Ok (res, a, db'), t')
    \<and> (res = Ok () \<or> (panics res \<and> \<not> all_rows (row_handled transmit pa) db))
    \<and> attempts_of Failed t' + attempts_of Sent t' + card (submitted db')
        = attempts_of Failed t + attempts_of Sent t + card (submitted db)
    \<and> ((\<forall>d. up d) \<longrightarrow> (\<forall>s \<in> {Failed, Sent}. attempts_of s t' + with_status s db = attempts_of s t + with_status s db'))
    \<and> callbacks t' = callbacks t"
proof -
  have inv: "table_inv db" using queue_inv_reachable [OF assms(1)] by (simp add: queue_inv_def)
  from counted_HandleMailQueue_starts [OF assms(4-6) inv assms(2)] obtain res a db' t' where
    r: "counted_HandleMailQueue new_ok register_ok ticks fuel (pg_queries up delay choice) transmit pa db t
      = Some (Ok (res, a, db'), t')" by blast
  have "res = Ok () \<or> panics res" using r by (rule counted_HandleMailQueue_cases) (rule HandleMailQueue_ends)
  with counted_HandleMailQueue_no_panic [OF inv _ r]
  have "res = Ok () \<or> (panics res \<and> \<not> all_rows (row_handled transmit pa) db)" by auto
  moreover have "(\<forall>d. up d) \<longrightarrow> (\<forall>s \<in> {Failed, Sent}. attempts_of s t' + with_status s db = attempts_of s t + with_status s db')"
    using statuses_counted [OF inv _ _ r] by blast
  ultimately show ?thesis
    by (intro exI [of _ res] exI [of _ a] exI [of _ db'] exI [of _ t'] conjI)
       (rule r all_attempts_counted [OF inv r] callbacks_unregistered [OF assms(3) r] | assumption)+
qed

definition no_telemetry :: telemetry where
  "no_telemetry = \<lparr>mo = None, so = None, adds = [], callbacks = [], next_reg = 0\<rparr>"

lemma attempts_counted_witness:
  "\<exists>res a db' t'. counted_HandleMailQueue (\<lambda>_. True) True 1 2 steady (\<lambda>_. Err Empty_Mail) sample_parser sample_table no_telemetry
      = Some (Ok (res, a, db'), t') \<and> attempts_of Failed t' + attempts_of Sent t' + card (submitted db') = 1"
  using attempts_counted [OF sample_table_reachable, of 2 no_telemetry "\<lambda>_. True" True 1 "\<lambda>_. True" "\<lambda>_. 1" "\<lambda>_. 0"
      "\<lambda>_. Err Empty_Mail" sample_parser]
  by (auto simp: sample_submitted no_telemetry_def regs_ok_def attempts_of_def counter_value_def)

text \<open>A message that panics while it is read is counted as received where it has a Cc.\<close>

lemma panicking_message_counted:
  "\<exists>handed s t. counted_Data (\<lambda>_. True) panicking_lib (NewBackend (\<lambda>c _. (Ok (), c)) []) open_session ''msg'' no_telemetry
      = (Panic Slice_Bounds, handed, s, t) \<and> handed = [] \<and> counter_value smtp_counter [] t = 1"
proof -
  let ?r = "counted_Data (\<lambda>_. True) panicking_lib (NewBackend (\<lambda>c _. (Ok (), c)) []) open_session ''msg'' no_telemetry"
  have "fst ?r = Panic Slice_Bounds" "fst (snd ?r) = []" "counter_value smtp_counter [] (snd (snd (snd ?r))) = 1"
    by code_simp+
  then show ?thesis by (metis prod.collapse)
qed

end
