(* ===== verification/Task_Group.thy ===== *)
theory Task_Group
  imports Cli_Commands
begin

text \<open>
  Groups of tasks from their start to their end: the error groups of
  \<^verbatim>\<open>internal/cli/actions/grpc-api.go\<close> and \<^verbatim>\<open>internal/cli/actions/smtp-proxy.go\<close>, whose tasks serve,
  wait for the end of the group's context to shut a server down, or work until then. The error group
  and the servers are libraries: of a group the model has that its context is done once the parent is
  or a task has failed, and of a server that serving ends once the server has been shut down. Some tasks
  have to wait before they return: a gRPC server that is stopped gracefully for the calls that are
  pending, and the dispatcher for the transmission it is in, which no context ends.
\<close>

section \<open>Tasks and their group\<close>

datatype server = Http_Metrics | Grpc_Calls | Smtp_Sessions | Auth_Http

text \<open>A task serves, shuts a server down when the context is done, works until the context is done, or
  (in the tests) drives a server, once it is there, and then ends the context.\<close>

datatype task_kind = Serves server | Stops server | Works | Drives server

text \<open>What a task may have to wait for when it is to end: calls under way, with whatever deadline their
  callers have set, and a transmission, of which \<open>smtp.SendMail\<close> takes neither a context nor a deadline.\<close>

datatype activity = Pending_Rpcs | Transmission

text \<open>What a group is made of: its tasks, what they do, which of them may end without an error,
  what they wait for before they end, below which context the group hangs, and the servers that forget
  a shutdown that comes before their task has begun to serve.\<close>

record 't group_spec =
  spec_tasks :: "'t set"
  spec_kind :: "'t \<Rightarrow> task_kind"
  spec_may_succeed :: "'t \<Rightarrow> bool"
  spec_waits_for :: "'t \<Rightarrow> activity option"
  spec_parent :: parent_context
  spec_forgets :: "server \<Rightarrow> bool"

text \<open>The state: whether the parent context is done, the tasks that have not begun, the tasks that
  have not ended, the tasks that have called for the end of their server, the servers that were shut
  down, what is under way, and what the tasks returned, in order.\<close>

record 't group =
  g_cancelled :: bool
  g_unbegun :: "'t set"
  g_running :: "'t set"
  g_stopping :: "'t set"
  g_shut :: "server set"
  g_active :: "activity set"
  g_ends :: "string option list"

definition new_group :: "'t group_spec \<Rightarrow> 't group" where
  "new_group S = \<lparr>g_cancelled = False, g_unbegun = spec_tasks S, g_running = spec_tasks S, g_stopping = {},
     g_shut = {}, g_active = {}, g_ends = []\<rparr>"

definition ctx_done :: "'t group_spec \<Rightarrow> 't group \<Rightarrow> bool" where
  "ctx_done S g \<longleftrightarrow> group_done (spec_parent S) (g_cancelled g) (g_ends g)"

definition end_task :: "'t \<Rightarrow> string option \<Rightarrow> 't group \<Rightarrow> 't group" where
  "end_task t r g = g\<lparr>g_running := g_running g - {t}, g_ends := g_ends g @ [r]\<rparr>"

definition begin_task :: "'t group_spec \<Rightarrow> 't \<Rightarrow> 't group \<Rightarrow> 't group" where
  "begin_task S t g = g\<lparr>g_unbegun := g_unbegun g - {t},
     g_shut := (case spec_kind S t of Serves s \<Rightarrow> if spec_forgets S s then g_shut g - {s} else g_shut g | _ \<Rightarrow> g_shut g)\<rparr>"

definition under_way :: "'t group \<Rightarrow> 't \<Rightarrow> bool" where
  "under_way g t \<longleftrightarrow> t \<in> g_running g \<and> t \<notin> g_unbegun g"

definition returns :: "'t group_spec \<Rightarrow> 't \<Rightarrow> string option \<Rightarrow> bool" where
  "returns S t r \<longleftrightarrow> (r = None \<longrightarrow> spec_may_succeed S t)"

definition blocked :: "'t group_spec \<Rightarrow> 't group \<Rightarrow> 't \<Rightarrow> bool" where
  "blocked S g t \<longleftrightarrow> (case spec_waits_for S t of None \<Rightarrow> False | Some a \<Rightarrow> a \<in> g_active g)"

text \<open>The steps that a group takes by itself. A task that shuts a server down does so in one step, and returns
  in a later one.\<close>

inductive group_step :: "'t group_spec \<Rightarrow> 't group \<Rightarrow> 't group \<Rightarrow> bool" for S where
  begin_step: "t \<in> g_unbegun g \<Longrightarrow> group_step S g (begin_task S t g)"
| served: "under_way g t \<Longrightarrow> spec_kind S t = Serves s \<Longrightarrow> s \<in> g_shut g \<Longrightarrow> \<not> blocked S g t \<Longrightarrow> returns S t r
    \<Longrightarrow> group_step S g (end_task t r g)"
| stopping: "under_way g t \<Longrightarrow> spec_kind S t = Stops s \<Longrightarrow> ctx_done S g \<Longrightarrow> t \<notin> g_stopping g
    \<Longrightarrow> group_step S g (g\<lparr>g_stopping := insert t (g_stopping g), g_shut := insert s (g_shut g)\<rparr>)"
| stopped: "under_way g t \<Longrightarrow> spec_kind S t = Stops s \<Longrightarrow> t \<in> g_stopping g \<Longrightarrow> \<not> blocked S g t \<Longrightarrow> returns S t r
    \<Longrightarrow> group_step S g (end_task t r g)"
| worked: "under_way g t \<Longrightarrow> spec_kind S t = Works \<Longrightarrow> ctx_done S g \<Longrightarrow> \<not> blocked S g t \<Longrightarrow> returns S t r
    \<Longrightarrow> group_step S g (end_task t r g)"
| not_driven: "under_way g t \<Longrightarrow> spec_kind S t = Drives s \<Longrightarrow> ctx_done S g \<Longrightarrow> group_step S g (end_task t None g)"
| driven: "under_way g t \<Longrightarrow> spec_kind S t = Drives s \<Longrightarrow> u \<in> spec_tasks S \<Longrightarrow> spec_kind S u = Serves s
    \<Longrightarrow> u \<notin> g_unbegun g \<Longrightarrow> group_step S g (end_task t r (g\<lparr>g_cancelled := True\<rparr>))"

text \<open>What may come from outside: the end of the parent context, as by a signal; the failure of a
  server or of a worker; a call that comes in while its server has not been stopped, a transmission that
  a worker begins while the context is not done; and the end of what is under way.\<close>

inductive group_event :: "'t group_spec \<Rightarrow> 't group \<Rightarrow> 't group \<Rightarrow> bool" for S where
  cancel: "group_event S g (g\<lparr>g_cancelled := True\<rparr>)"
| fails: "under_way g t \<Longrightarrow> spec_kind S t = Serves s \<or> (spec_kind S t = Works \<and> \<not> blocked S g t)
    \<Longrightarrow> group_event S g (end_task t (Some e) g)"
| arises: "under_way g t \<Longrightarrow> spec_waits_for S t = Some a
    \<Longrightarrow> (\<exists>s. spec_kind S t = Serves s \<and> s \<notin> g_shut g) \<or> (spec_kind S t = Works \<and> \<not> ctx_done S g)
    \<Longrightarrow> group_event S g (g\<lparr>g_active := insert a (g_active g)\<rparr>)"
| ceases: "group_event S g (g\<lparr>g_active := g_active g - {a}\<rparr>)"

inductive group_reachable :: "'t group_spec \<Rightarrow> 't group \<Rightarrow> bool" for S where
  start: "group_reachable S (new_group S)"
| step: "group_reachable S g \<Longrightarrow> group_step S g g' \<Longrightarrow> group_reachable S g'"
| event: "group_reachable S g \<Longrightarrow> group_event S g g' \<Longrightarrow> group_reachable S g'"

definition quiescent :: "'t group_spec \<Rightarrow> 't group \<Rightarrow> bool" where
  "quiescent S g \<longleftrightarrow> \<not> (\<exists>g'. group_step S g g')"

lemma group_reachable_steps: "(group_step S)\<^sup>*\<^sup>* g g' \<Longrightarrow> group_reachable S g \<Longrightarrow> group_reachable S g'"
  by (induction rule: rtranclp_induct) (auto intro: group_reachable.step)

section \<open>What holds of every group\<close>

lemma group_wait_append: "group_wait (es @ fs) = (case group_wait es of None \<Rightarrow> group_wait fs | Some e \<Rightarrow> Some e)"
  by (induction es rule: group_wait.induct) simp_all

lemma end_task_sel [simp]:
  "g_running (end_task t r g) = g_running g - {t}" "g_ends (end_task t r g) = g_ends g @ [r]"
  "g_unbegun (end_task t r g) = g_unbegun g" "g_shut (end_task t r g) = g_shut g"
  "g_cancelled (end_task t r g) = g_cancelled g" "g_stopping (end_task t r g) = g_stopping g"
  "g_active (end_task t r g) = g_active g"
  by (simp_all add: end_task_def)

lemma begin_task_sel [simp]:
  "g_running (begin_task S t g) = g_running g" "g_ends (begin_task S t g) = g_ends g"
  "g_unbegun (begin_task S t g) = g_unbegun g - {t}" "g_cancelled (begin_task S t g) = g_cancelled g"
  "g_stopping (begin_task S t g) = g_stopping g" "g_active (begin_task S t g) = g_active g"
  by (simp_all add: begin_task_def)

lemma begin_task_shut: "g_shut (begin_task S t g) \<subseteq> g_shut g"
  by (auto simp: begin_task_def split: task_kind.split)

text \<open>Each task ends once, and one that cannot succeed leaves an error to wait for.\<close>

definition tasks_inv :: "'t group_spec \<Rightarrow> 't group \<Rightarrow> bool" where
  "tasks_inv S g \<longleftrightarrow> g_unbegun g \<subseteq> g_running g \<and> g_running g \<subseteq> spec_tasks S
     \<and> length (g_ends g) + card (g_running g) = card (spec_tasks S)
     \<and> ((\<exists>t \<in> spec_tasks S - g_running g. \<not> spec_may_succeed S t \<and> (\<forall>s. spec_kind S t \<noteq> Drives s)) \<longrightarrow> group_wait (g_ends g) \<noteq> None)"

lemma tasks_inv_end:
  assumes "tasks_inv S g" and "under_way g t" and "finite (spec_tasks S)"
    and "returns S t r \<or> (\<exists>s. spec_kind S t = Drives s)"
  shows "tasks_inv S (end_task t r g)"
proof -
  have sub: "g_unbegun g \<subseteq> g_running g" "g_running g \<subseteq> spec_tasks S" using assms(1) by (simp_all add: tasks_inv_def)
  then have fin: "finite (g_running g)" using assms(3) by (blast intro: finite_subset)
  have t: "t \<in> g_running g" "t \<notin> g_unbegun g" using assms(2) by (simp_all add: under_way_def)
  then have "card (g_running g) = Suc (card (g_running g - {t}))" using fin by (metis card_Suc_Diff1)
  moreover have "group_wait (g_ends g @ [r]) \<noteq> None"
    if "u \<in> spec_tasks S - (g_running g - {t})" "\<not> spec_may_succeed S u" "\<forall>s. spec_kind S u \<noteq> Drives s" for u
  proof (cases "u = t")
    case True
    then have "r \<noteq> None" using assms(4) that by (auto simp: returns_def)
    then show ?thesis by (auto simp: group_wait_append split: option.split)
  next
    case False
    then have "group_wait (g_ends g) \<noteq> None" using assms(1) that unfolding tasks_inv_def by blast
    then show ?thesis by (auto simp: group_wait_append)
  qed
  ultimately show ?thesis using assms(1) t unfolding tasks_inv_def by auto
qed

lemma tasks_inv_fields:
  "tasks_inv S (g\<lparr>g_stopping := ts, g_shut := x\<rparr>) = tasks_inv S g" "tasks_inv S (g\<lparr>g_cancelled := c\<rparr>) = tasks_inv S g"
  "tasks_inv S (g\<lparr>g_active := as\<rparr>) = tasks_inv S g"
  by (simp_all add: tasks_inv_def)

lemma under_way_fields [simp]:
  "under_way (g\<lparr>g_stopping := ts, g_shut := x\<rparr>) t = under_way g t" "under_way (g\<lparr>g_cancelled := c\<rparr>) t = under_way g t"
  "under_way (g\<lparr>g_active := as\<rparr>) t = under_way g t"
  by (simp_all add: under_way_def)

lemma tasks_inv_step:
  assumes "group_step S g g'" and "tasks_inv S g" and "finite (spec_tasks S)"
  shows "tasks_inv S g'"
  using assms
proof (induction rule: group_step.induct)
  case (begin_step t g)
  then show ?case unfolding tasks_inv_def by auto
next
  case (stopping g t s)
  then show ?case by (simp add: tasks_inv_fields)
next
  case (driven g t s u r)
  then show ?case by (intro tasks_inv_end) (simp_all add: tasks_inv_fields)
qed (simp_all add: tasks_inv_end)

lemma tasks_inv_reachable: "group_reachable S g \<Longrightarrow> finite (spec_tasks S) \<Longrightarrow> tasks_inv S g"
proof (induction rule: group_reachable.induct)
  case start
  then show ?case by (simp add: tasks_inv_def new_group_def)
next
  case (step g g')
  then show ?case using tasks_inv_step by blast
next
  case (event g g')
  from event(2) show ?case
  proof cases
    case (fails t s e)
    with event show ?thesis using tasks_inv_end [of S g t "Some e"] by (simp add: returns_def)
  qed (use event in \<open>simp_all add: tasks_inv_fields\<close>)
qed

text \<open>A group cannot go on for ever by itself: a step begins a task, ends one, or shuts a server down.\<close>

definition steps_left :: "'t group \<Rightarrow> nat" where
  "steps_left g = card (g_unbegun g) + card (g_running g) + card (g_running g - g_stopping g)"

lemma end_task_decreases:
  assumes "finite (g_running g)" and "under_way g t"
  shows "steps_left (end_task t r g) < steps_left g"
proof -
  have "card (g_running g - {t}) < card (g_running g)"
    using assms card_Diff1_less [of "g_running g" t] by (simp add: under_way_def)
  moreover have "card (g_running g - {t} - g_stopping g) \<le> card (g_running g - g_stopping g)"
    using assms(1) by (intro card_mono) auto
  ultimately show ?thesis by (simp add: steps_left_def)
qed

lemma group_step_decreases:
  assumes "group_step S g g'" and "finite (g_running g)" and "g_unbegun g \<subseteq> g_running g"
  shows "steps_left g' < steps_left g"
  using assms
proof (induction rule: group_step.induct)
  case (begin_step t g)
  then have "finite (g_unbegun g)" by (blast intro: finite_subset)
  with begin_step show ?case using card_Diff1_less [of "g_unbegun g" t] by (simp add: steps_left_def del: card_Diff_singleton)
next
  case (stopping g t s)
  then have "card (g_running g - g_stopping g - {t}) < card (g_running g - g_stopping g)"
    by (intro card_Diff1_less) (auto simp: under_way_def)
  moreover have "g_running g - insert t (g_stopping g) = g_running g - g_stopping g - {t}" by blast
  ultimately show ?case by (simp add: steps_left_def)
next
  case (driven g t s u r)
  then show ?case using end_task_decreases [of "g\<lparr>g_cancelled := True\<rparr>" t r] by (simp add: steps_left_def)
qed (simp_all add: end_task_decreases)

lemma group_steps_bounded:
  assumes "(group_step S ^^ n) g g'" and "group_reachable S g" and "finite (spec_tasks S)"
  shows "n + steps_left g' \<le> steps_left g"
  using assms(1)
proof (induction n arbitrary: g')
  case (Suc n)
  then obtain h where h: "(group_step S ^^ n) g h" "group_step S h g'" by auto
  then have "group_reachable S h"
    using group_reachable_steps assms(2) by (metis relpowp_imp_rtranclp)
  then have "tasks_inv S h" using assms(3) by (rule tasks_inv_reachable)
  then have "finite (g_running h)" "g_unbegun h \<subseteq> g_running h"
    using assms(3) by (auto simp: tasks_inv_def intro: finite_subset)
  with group_step_decreases [OF h(2)] Suc.IH [OF h(1)] show ?case by simp
qed simp

text \<open>So it comes to a point where it does not go on.\<close>

lemma group_settles:
  assumes "finite (spec_tasks S)"
  shows "group_reachable S g \<Longrightarrow> \<exists>g'. (group_step S)\<^sup>*\<^sup>* g g' \<and> quiescent S g'"
proof (induction "steps_left g" arbitrary: g rule: less_induct)
  case less
  show ?case
  proof (cases "quiescent S g")
    case False
    then obtain h where h: "group_step S g h" by (auto simp: quiescent_def)
    have "tasks_inv S g" using less.prems assms by (rule tasks_inv_reachable)
    then have "steps_left h < steps_left g"
      using assms by (intro group_step_decreases [OF h]) (auto simp: tasks_inv_def intro: finite_subset)
    then obtain g' where "(group_step S)\<^sup>*\<^sup>* h g'" "quiescent S g'"
      using less.hyps group_reachable.step [OF less.prems h] by blast
    with h show ?thesis by (meson converse_rtranclp_into_rtranclp)
  qed blast
qed

text \<open>A group whose context is done stays so.\<close>

lemma ctx_done_end [simp]: "ctx_done S g \<Longrightarrow> ctx_done S (end_task t r g)"
  by (auto simp: ctx_done_def group_done_def group_wait_append)

lemma ctx_done_fields [simp]:
  "ctx_done S (g\<lparr>g_stopping := ts, g_shut := x\<rparr>) = ctx_done S g" "ctx_done S g \<Longrightarrow> ctx_done S (g\<lparr>g_cancelled := True\<rparr>)"
  "ctx_done S (begin_task S t g) = ctx_done S g" "ctx_done S (g\<lparr>g_active := as\<rparr>) = ctx_done S g"
  by (auto simp: ctx_done_def group_done_def)

lemma ctx_done_step: "group_step S g g' \<Longrightarrow> ctx_done S g \<Longrightarrow> ctx_done S g'"
  by (induction rule: group_step.induct) simp_all

lemma ctx_done_steps: "(group_step S)\<^sup>*\<^sup>* g g' \<Longrightarrow> ctx_done S g \<Longrightarrow> ctx_done S g'"
  by (induction rule: rtranclp_induct) (auto intro: ctx_done_step)

text \<open>What is under way goes on while the group takes its own steps, and a task that waits for it does not
  end in the meantime.\<close>

lemma group_step_active: "group_step S g g' \<Longrightarrow> g_active g' = g_active g"
  by (induction rule: group_step.induct) simp_all

lemma group_steps_active: "(group_step S)\<^sup>*\<^sup>* g g' \<Longrightarrow> g_active g' = g_active g"
  by (induction rule: rtranclp_induct) (simp_all add: group_step_active)

lemma blocked_steps: "(group_step S)\<^sup>*\<^sup>* g g' \<Longrightarrow> blocked S g' t = blocked S g t"
  by (simp add: blocked_def group_steps_active cong: option.case_cong)

lemma blocked_runs_step:
  "group_step S g g' \<Longrightarrow> t \<in> g_running g \<Longrightarrow> blocked S g t \<Longrightarrow> \<forall>s. spec_kind S t \<noteq> Drives s \<Longrightarrow> t \<in> g_running g'"
  by (induction rule: group_step.induct) auto

lemma blocked_runs:
  "(group_step S)\<^sup>*\<^sup>* g g' \<Longrightarrow> t \<in> g_running g \<Longrightarrow> blocked S g t \<Longrightarrow> \<forall>s. spec_kind S t \<noteq> Drives s \<Longrightarrow> t \<in> g_running g'"
proof (induction rule: rtranclp_induct)
  case (step h g')
  then show ?case using blocked_runs_step [OF step(2), of t] blocked_steps [OF step(1), of t] by simp
qed

lemma running_decreases: "(group_step S)\<^sup>*\<^sup>* g g' \<Longrightarrow> g_running g' \<subseteq> g_running g"
proof (induction rule: rtranclp_induct)
  case (step h g')
  from step(2) have "g_running g' \<subseteq> g_running h" by (induction rule: group_step.induct) auto
  with step(3) show ?case by blast
qed simp

text \<open>A server is shut down only where the context is done.\<close>

definition untouched :: "'t group \<Rightarrow> bool" where
  "untouched g \<longleftrightarrow> g_shut g = {} \<and> g_stopping g = {}"

lemma shut_done_step: "group_step S g g' \<Longrightarrow> (untouched g \<or> ctx_done S g) \<Longrightarrow> (untouched g' \<or> ctx_done S g')"
proof (induction rule: group_step.induct)
  case (begin_step t g)
  then show ?case using begin_task_shut [of S t g] by (auto simp: untouched_def)
qed (auto simp: untouched_def)

lemma shut_done_reachable: "group_reachable S g \<Longrightarrow> untouched g \<or> ctx_done S g"
proof (induction rule: group_reachable.induct)
  case start
  show ?case by (simp add: new_group_def untouched_def)
next
  case (step g g')
  then show ?case using shut_done_step by blast
next
  case (event g g')
  from event(2,3) show ?case by cases (auto simp: untouched_def)
qed

section \<open>Groups that come to an end\<close>

text \<open>A task that shuts a server down and has called for that or has ended has done so.\<close>

definition stops_done :: "'t group_spec \<Rightarrow> 't group \<Rightarrow> bool" where
  "stops_done S g \<longleftrightarrow> (\<forall>t \<in> spec_tasks S. \<forall>s. spec_kind S t = Stops s \<longrightarrow>
     (t \<in> g_stopping g \<longrightarrow> s \<in> g_shut g) \<and> (t \<notin> g_running g \<longrightarrow> t \<in> g_stopping g))"

text \<open>Every server of the group has a task that shuts it down, and does not forget that it was.\<close>

locale stoppable_group =
  fixes S :: "'t group_spec"
  assumes finite_tasks: "finite (spec_tasks S)"
    and stopper: "t \<in> spec_tasks S \<Longrightarrow> spec_kind S t = Serves s \<Longrightarrow> \<exists>u \<in> spec_tasks S. spec_kind S u = Stops s"
    and remembers: "t \<in> spec_tasks S \<Longrightarrow> spec_kind S t = Serves s \<Longrightarrow> \<not> spec_forgets S s"
begin

lemma tasks_inv: "group_reachable S g \<Longrightarrow> tasks_inv S g"
  using finite_tasks by (rule tasks_inv_reachable [rotated])

lemma begin_keeps_shut:
  assumes "tasks_inv S g" and "t \<in> g_unbegun g"
  shows "g_shut (begin_task S t g) = g_shut g"
  using remembers [of t] assms by (auto simp: begin_task_def tasks_inv_def split: task_kind.split)

lemma stops_done_step: "group_step S g g' \<Longrightarrow> tasks_inv S g \<Longrightarrow> stops_done S g \<Longrightarrow> stops_done S g'"
proof (induction rule: group_step.induct)
  case (begin_step t g)
  then show ?case using begin_keeps_shut [of g t] by (simp add: stops_done_def)
qed (auto simp: stops_done_def)

lemma stops_done_reachable: "group_reachable S g \<Longrightarrow> stops_done S g"
proof (induction rule: group_reachable.induct)
  case start
  show ?case by (simp add: stops_done_def new_group_def)
next
  case (step g g')
  then show ?case using stops_done_step tasks_inv by blast
next
  case (event g g')
  from event(2,3) show ?case by cases (auto simp: stops_done_def)
qed

text \<open>Once the context is done the group does not get stuck before all of its tasks have ended but those
  that have to wait.\<close>

lemma goes_on:
  assumes "group_reachable S g" and "ctx_done S g" and "t \<in> g_running g" and "\<not> blocked S g t"
  shows "\<exists>g'. group_step S g g'"
proof -
  have ts: "u \<in> spec_tasks S" if "u \<in> g_running g" for u using tasks_inv [OF assms(1)] that by (auto simp: tasks_inv_def)
  have err: "returns S u (Some e)" for u e by (simp add: returns_def)
  have stop: "\<exists>g'. group_step S g g'" if "under_way g u" "spec_kind S u = Stops s" "u \<notin> g_stopping g" for u s
    using group_step.stopping [OF that(1,2) assms(2) that(3)] by blast
  show ?thesis
  proof (cases "g_unbegun g = {}")
    case False
    then obtain u where "u \<in> g_unbegun g" by blast
    from group_step.begin_step [OF this, of S] show ?thesis by blast
  next
    case True
    then have way: "under_way g u" if "u \<in> g_running g" for u using that by (simp add: under_way_def)
    show ?thesis
    proof (cases "spec_kind S t")
      case (Serves s)
      then obtain u where u: "u \<in> spec_tasks S" "spec_kind S u = Stops s" using stopper [OF ts [OF assms(3)]] by blast
      note stops = stops_done_reachable [OF assms(1), unfolded stops_done_def, rule_format, OF u]
      show ?thesis
      proof (cases "u \<in> g_stopping g")
        case False
        then have "u \<in> g_running g" using stops by blast
        with stop [OF way u(2) False] show ?thesis by blast
      next
        case True
        then have "s \<in> g_shut g" using stops by blast
        with group_step.served [OF way [OF assms(3)] Serves _ assms(4) err] show ?thesis by blast
      qed
    next
      case (Stops s)
      with stop [OF way [OF assms(3)]] group_step.stopped [OF way [OF assms(3)] Stops _ assms(4) err] show ?thesis by blast
    next
      case Works
      with group_step.worked [OF way [OF assms(3)] _ assms(2,4) err] show ?thesis by blast
    next
      case (Drives s)
      with group_step.not_driven [OF way [OF assms(3)] _ assms(2)] show ?thesis by blast
    qed
  qed
qed

lemma ended_group:
  assumes "group_reachable S g" and "g_running g = {}"
  shows "length (g_ends g) = card (spec_tasks S)"
    and "t \<in> spec_tasks S \<Longrightarrow> \<not> spec_may_succeed S t \<Longrightarrow> \<forall>s. spec_kind S t \<noteq> Drives s \<Longrightarrow> group_wait (g_ends g) \<noteq> None"
  using tasks_inv [OF assms(1)] assms(2) by (auto simp: tasks_inv_def)

lemma shuts_down:
  assumes "group_reachable S g" and "ctx_done S g"
  shows "(group_step S ^^ n) g g' \<Longrightarrow> n \<le> 3 * card (spec_tasks S)"
    and "(group_step S)\<^sup>*\<^sup>* g g' \<Longrightarrow> quiescent S g' \<Longrightarrow> g_running g' \<subseteq> {t \<in> g_running g. blocked S g t}"
proof -
  have "g_unbegun g \<subseteq> g_running g" "g_running g \<subseteq> spec_tasks S" using tasks_inv [OF assms(1)] by (simp_all add: tasks_inv_def)
  then have "card (g_unbegun g) \<le> card (spec_tasks S)" "card (g_running g) \<le> card (spec_tasks S)"
    "card (g_running g - g_stopping g) \<le> card (spec_tasks S)"
    using finite_tasks by (auto intro!: card_mono)
  then show "n \<le> 3 * card (spec_tasks S)" if "(group_step S ^^ n) g g'"
    using group_steps_bounded [OF that assms(1) finite_tasks] by (simp add: steps_left_def)
  show "g_running g' \<subseteq> {t \<in> g_running g. blocked S g t}" if "(group_step S)\<^sup>*\<^sup>* g g'" "quiescent S g'"
  proof
    fix t
    assume t: "t \<in> g_running g'"
    with goes_on [OF group_reachable_steps [OF that(1) assms(1)] ctx_done_steps [OF that(1) assms(2)]] that(2)
    have "blocked S g' t" unfolding quiescent_def by blast
    with t running_decreases [OF that(1)] blocked_steps [OF that(1)] show "t \<in> {t \<in> g_running g. blocked S g t}" by auto
  qed
qed

end

text \<open>A group with a task that drives one of its servers and then ends the context comes to an end by
  itself.\<close>

locale driven_group = stoppable_group +
  assumes cancellable: "spec_parent S = Command_Context"
    and driver: "\<exists>t \<in> spec_tasks S. \<exists>s. spec_kind S t = Drives s \<and> (\<exists>u \<in> spec_tasks S. spec_kind S u = Serves s)"
begin

lemma driver_ended_step:
  assumes "group_step S g g'" and "t \<in> spec_tasks S" and "spec_kind S t = Drives s"
    and "t \<notin> g_running g \<longrightarrow> ctx_done S g"
  shows "t \<notin> g_running g' \<longrightarrow> ctx_done S g'"
  using assms
proof (induction rule: group_step.induct)
  case (driven g u s' v r)
  have "ctx_done S (g\<lparr>g_cancelled := True\<rparr>)" using cancellable by (simp add: ctx_done_def group_done_def)
  then show ?case by simp
qed auto

lemma driver_ended:
  assumes "t \<in> spec_tasks S" and "spec_kind S t = Drives s" and "group_reachable S g"
  shows "t \<notin> g_running g \<longrightarrow> ctx_done S g"
  using assms(3)
proof (induction rule: group_reachable.induct)
  case start
  show ?case using assms(1) by (simp add: new_group_def)
next
  case (step g g')
  then show ?case using driver_ended_step [OF _ assms(1,2)] by blast
next
  case (event g g')
  from event(2,3) show ?case using assms(2) by cases auto
qed

lemma ends_by_itself:
  assumes "group_reachable S g" and "quiescent S g" and "g_active g = {}"
  shows "g_running g = {}"
proof -
  obtain t s u where t: "t \<in> spec_tasks S" "spec_kind S t = Drives s" "u \<in> spec_tasks S" "spec_kind S u = Serves s"
    using driver by blast
  have un: "g_unbegun g = {}"
    using assms(2) group_step.begin_step [of _ g S] unfolding quiescent_def by blast
  have "t \<notin> g_running g"
  proof
    assume "t \<in> g_running g"
    then have "under_way g t" using un by (simp add: under_way_def)
    from group_step.driven [OF this t(2-4)] un assms(2) show False by (auto simp: quiescent_def)
  qed
  then have "ctx_done S g" using driver_ended [OF t(1,2) assms(1)] by blast
  from shuts_down(2) [OF assms(1) this rtranclp.rtrancl_refl assms(2)] show ?thesis
    using assms(3) by (auto simp: blocked_def split: option.splits)
qed

end

section \<open>The group of the API\<close>

fun api_task_kind :: "task \<Rightarrow> task_kind" where
  "api_task_kind Serve_Metrics = Serves Http_Metrics"
| "api_task_kind Stop_Metrics = Stops Http_Metrics"
| "api_task_kind Handle_Mail_Queue = Works"
| "api_task_kind Delete_Old_Mails = Works"
| "api_task_kind Serve_Grpc = Serves Grpc_Calls"
| "api_task_kind Stop_Grpc = Stops Grpc_Calls"

text \<open>\<open>GracefulStop\<close>, which the API calls without a deadline, blocks until all pending calls have finished,
  and \<open>Serve\<close> returns after it; the dispatcher looks at its context between two mails only.\<close>

fun api_waits_for :: "task \<Rightarrow> activity option" where
  "api_waits_for Serve_Grpc = Some Pending_Rpcs"
| "api_waits_for Stop_Grpc = Some Pending_Rpcs"
| "api_waits_for Handle_Mail_Queue = Some Transmission"
| "api_waits_for _ = None"

text \<open>The dispatcher's tasks give the error of the context, and serving the metrics is always an error.
  Whether a server of the library forgets an early shutdown is a parameter.\<close>

definition api_group :: "(server \<Rightarrow> bool) \<Rightarrow> api_config \<Rightarrow> task group_spec" where
  "api_group forgets c = \<lparr>spec_tasks = set (group_tasks c), spec_kind = api_task_kind,
     spec_may_succeed = (\<lambda>t. t \<in> {Stop_Metrics, Serve_Grpc, Stop_Grpc}), spec_waits_for = api_waits_for,
     spec_parent = Command_Context, spec_forgets = forgets\<rparr>"

text \<open>Of \<^verbatim>\<open>net/http\<close> and of gRPC it is documented that a server that was shut down is not served any
  more.\<close>

definition early_stops_count :: "(server \<Rightarrow> bool) \<Rightarrow> bool" where
  "early_stops_count forgets \<longleftrightarrow> \<not> forgets Http_Metrics \<and> \<not> forgets Grpc_Calls"

lemma api_group_sel [simp]:
  "spec_tasks (api_group f c) = set (group_tasks c)" "spec_kind (api_group f c) = api_task_kind"
  "spec_parent (api_group f c) = Command_Context" "spec_waits_for (api_group f c) = api_waits_for"
  "spec_forgets (api_group f c) = f"
  "spec_may_succeed (api_group f c) t \<longleftrightarrow> t \<in> {Stop_Metrics, Serve_Grpc, Stop_Grpc}"
  by (simp_all add: api_group_def)

interpretation api: stoppable_group "api_group (\<lambda>s. s \<noteq> Http_Metrics \<and> s \<noteq> Grpc_Calls \<and> forgets s) c" for forgets c
proof
  fix t s
  assume t: "spec_kind (api_group (\<lambda>s. s \<noteq> Http_Metrics \<and> s \<noteq> Grpc_Calls \<and> forgets s) c) t = Serves s"
  then show "\<not> spec_forgets (api_group (\<lambda>s. s \<noteq> Http_Metrics \<and> s \<noteq> Grpc_Calls \<and> forgets s) c) s"
    by (cases t) auto
  from t show "\<exists>u \<in> spec_tasks (api_group (\<lambda>s. s \<noteq> Http_Metrics \<and> s \<noteq> Grpc_Calls \<and> forgets s) c).
      spec_kind (api_group (\<lambda>s. s \<noteq> Http_Metrics \<and> s \<noteq> Grpc_Calls \<and> forgets s) c) u = Stops s"
    by (cases t) (auto simp: group_tasks_def)
qed simp

lemma early_stops_api: "early_stops_count forgets \<Longrightarrow>
    api_group (\<lambda>s. s \<noteq> Http_Metrics \<and> s \<noteq> Grpc_Calls \<and> forgets s) c = api_group forgets c"
  unfolding early_stops_count_def by (rule arg_cong [where f = "\<lambda>f. api_group f c"]) auto

section \<open>The group of the proxy\<close>

fun proxy_task_kind :: "proxy_task \<Rightarrow> task_kind" where
  "proxy_task_kind Serve_Proxy_Metrics = Serves Http_Metrics"
| "proxy_task_kind Stop_Proxy_Metrics = Stops Http_Metrics"
| "proxy_task_kind Serve_SMTP = Serves Smtp_Sessions"
| "proxy_task_kind Stop_SMTP = Stops Smtp_Sessions"

text \<open>Both shutdowns have a context that ends them: no task waits. The metrics server is a variable that its task assigns when it begins: a shutdown before that is
  one of the zero value, and is lost.\<close>

definition proxy_group :: "(server \<Rightarrow> bool) \<Rightarrow> proxy_task group_spec" where
  "proxy_group forgets = \<lparr>spec_tasks = set proxy_tasks, spec_kind = proxy_task_kind,
     spec_may_succeed = (\<lambda>t. t \<in> {Stop_Proxy_Metrics, Stop_SMTP}), spec_waits_for = (\<lambda>_. None), spec_parent = Background,
     spec_forgets = (\<lambda>s. s = Http_Metrics \<or> forgets s)\<rparr>"

text \<open>As long as no task has failed the group goes on, whatever becomes of the context of the command.\<close>

lemma proxy_undisturbed_step:
  assumes "group_step (proxy_group f) g g'" and "g_ends g = []" and "untouched g"
  shows "g_ends g' = [] \<and> untouched g' \<and> g_running g' = g_running g"
proof -
  have n: "\<not> ctx_done (proxy_group f) g" using assms(2) by (simp add: ctx_done_def group_done_def proxy_group_def)
  from assms(1) show ?thesis
  proof cases
    case (begin_step t)
    then show ?thesis using assms(2,3) begin_task_shut [of "proxy_group f" t g] by (auto simp: untouched_def)
  next
    case (driven t s u r)
    then show ?thesis by (cases t) (simp_all add: proxy_group_def)
  qed (use n assms(3) in \<open>auto simp: untouched_def\<close>)
qed

lemma proxy_undisturbed:
  assumes "group_reachable (proxy_group f) g" and "g_ends g = []" and "(group_step (proxy_group f))\<^sup>*\<^sup>* g g'"
  shows "g_ends g' = []" and "g_running g' = set proxy_tasks"
proof -
  have "\<not> ctx_done (proxy_group f) g" using assms(2) by (simp add: ctx_done_def group_done_def proxy_group_def)
  then have shut: "untouched g" using shut_done_reachable [OF assms(1)] by blast
  have "tasks_inv (proxy_group f) g" using assms(1) by (rule tasks_inv_reachable) (simp add: proxy_group_def)
  then have "g_running g \<subseteq> set proxy_tasks" "card (g_running g) = card (set proxy_tasks)"
    using assms(2) by (simp_all add: tasks_inv_def proxy_group_def)
  then have run: "g_running g = set proxy_tasks" by (simp add: card_subset_eq)
  from assms(3) have "g_ends g' = [] \<and> untouched g' \<and> g_running g' = g_running g"
  proof (induction rule: rtranclp_induct)
    case (step h g')
    then show ?case using proxy_undisturbed_step [of f h g'] by simp
  qed (use assms(2) shut in simp)
  with run show "g_ends g' = []" "g_running g' = set proxy_tasks" by simp_all
qed

text \<open>If the SMTP server fails at once, the tasks that shut down may come before the one that assigns the
  metrics server: then that one serves for ever, and with it the group waits.\<close>

definition proxy_stuck :: "proxy_task group" where
  "proxy_stuck = \<lparr>g_cancelled = False, g_unbegun = {}, g_running = {Serve_Proxy_Metrics},
     g_stopping = {Stop_Proxy_Metrics, Stop_SMTP}, g_shut = {Smtp_Sessions}, g_active = {},
     g_ends = [Some ''failed to serve SMTP server'', None, None]\<rparr>"

lemma reach_step: "group_reachable S g \<Longrightarrow> group_step S g h \<Longrightarrow> h = g' \<Longrightarrow> group_reachable S g'"
  by (blast intro: group_reachable.step)

lemma reach_event: "group_reachable S g \<Longrightarrow> group_event S g h \<Longrightarrow> h = g' \<Longrightarrow> group_reachable S g'"
  by (blast intro: group_reachable.event)

lemma proxy_stuck_reachable: "group_reachable (proxy_group f) proxy_stuck"
proof -
  let ?S = "proxy_group f"
  let ?g = "\<lambda>un ru st sh es. \<lparr>g_cancelled = False, g_unbegun = un, g_running = ru, g_stopping = st, g_shut = sh,
      g_active = {}, g_ends = es\<rparr>"
  let ?e = "Some ''failed to serve SMTP server''"
  let ?M = Serve_Proxy_Metrics and ?P = Stop_Proxy_Metrics and ?T = Stop_SMTP
  note S = proxy_group_def begin_task_def end_task_def new_group_def proxy_tasks_def
  note C = under_way_def ctx_done_def group_done_def returns_def blocked_def
  have r0: "group_reachable ?S (?g {?M, ?P, ?T, Serve_SMTP} {?M, ?P, ?T, Serve_SMTP} {} {} [])"
    using group_reachable.start [of ?S] by (simp add: S insert_commute)
  have r1: "group_reachable ?S (?g {?M, ?P, ?T} {?M, ?P, ?T, Serve_SMTP} {} {} [])"
    by (rule reach_step [OF r0 group_step.begin_step [of Serve_SMTP]]) (auto simp: S)
  have r2: "group_reachable ?S (?g {?M, ?P, ?T} {?M, ?P, ?T} {} {} [?e])"
    by (rule reach_event [OF r1 group_event.fails [of _ Serve_SMTP _ Smtp_Sessions]]) (auto simp: S under_way_def)
  have r3: "group_reachable ?S (?g {?M, ?T} {?M, ?P, ?T} {} {} [?e])"
    by (rule reach_step [OF r2 group_step.begin_step [of ?P]]) (auto simp: S)
  have r4: "group_reachable ?S (?g {?M} {?M, ?P, ?T} {} {} [?e])"
    by (rule reach_step [OF r3 group_step.begin_step [of ?T]]) (auto simp: S)
  have r5: "group_reachable ?S (?g {?M} {?M, ?P, ?T} {?P} {Http_Metrics} [?e])"
    by (rule reach_step [OF r4 group_step.stopping [of _ ?P _ Http_Metrics]]) (auto simp: S C)
  have r6: "group_reachable ?S (?g {?M} {?M, ?T} {?P} {Http_Metrics} [?e, None])"
    by (rule reach_step [OF r5 group_step.stopped [of _ ?P _ Http_Metrics None]]) (auto simp: S C)
  have r7: "group_reachable ?S (?g {?M} {?M, ?T} {?P, ?T} {Smtp_Sessions, Http_Metrics} [?e, None])"
    by (rule reach_step [OF r6 group_step.stopping [of _ ?T _ Smtp_Sessions]]) (auto simp: S C)
  have r8: "group_reachable ?S (?g {?M} {?M} {?P, ?T} {Smtp_Sessions, Http_Metrics} [?e, None, None])"
    by (rule reach_step [OF r7 group_step.stopped [of _ ?T _ Smtp_Sessions None]]) (auto simp: S C)
  show ?thesis
    by (rule reach_step [OF r8 group_step.begin_step [of ?M]]) (auto simp: S proxy_stuck_def insert_Diff_if)
qed

lemma proxy_stuck_quiescent: "quiescent (proxy_group f) proxy_stuck" "ctx_done (proxy_group f) proxy_stuck"
proof -
  show "quiescent (proxy_group f) proxy_stuck"
    unfolding quiescent_def
  proof
    assume "\<exists>g'. group_step (proxy_group f) proxy_stuck g'"
    then obtain g' where "group_step (proxy_group f) proxy_stuck g'" by blast
    then show False by cases (auto simp: proxy_stuck_def proxy_group_def under_way_def)
  qed
  show "ctx_done (proxy_group f) proxy_stuck" by (simp add: ctx_done_def group_done_def proxy_stuck_def)
qed

end
