(* ===== verification/Test_Environment.thy ===== *)
theory Test_Environment
  imports Auth_Mock Smtp_Api Task_Group
begin

text \<open>
  The environment of the integration tests (\<^verbatim>\<open>internal/testutil\<close>): the proxy, the mail service and
  the mock authentication server as the tests put them together, with the group of tasks that a test
  runs, and the command that runs the mock server alone (\<^verbatim>\<open>cmd/auth-mock\<close>). The test library and
  the listeners are parameters.
\<close>

section \<open>The mock server as a command\<close>

definition auth_mock_flags :: "environment \<Rightarrow> flag list" where
  "auth_mock_flags env =
     [str_flag env ''addr'' ''listen-addr'' ''LISTEN_ADDR'' '':8081'',
      str_flag env ''issuerURL'' ''issuer-url'' ''ISSUER_URL'' ''localhost:8081'']"

text \<open>How serving ends: \<open>None\<close> is the error that says the server was closed.\<close>

definition auth_mock_main ::
    "bool \<Rightarrow> mock_world \<Rightarrow> (string \<Rightarrow> bool) \<Rightarrow> string option \<Rightarrow> string \<Rightarrow> string \<Rightarrow> (mock_error, string) outcome" where
  "auth_mock_main key_ok w listen serve_error addr issuerURL =
     (case obind (NewAuthMockServerHandle key_ok w AuthMockUserUsername AuthMockUserPassword)
         (StartHttpMockServer listen addr issuerURL) of
        Err _ \<Rightarrow> Panic Exit
      | Panic p \<Rightarrow> Panic p
      | Ok h \<Rightarrow> if serve_error \<noteq> None then Panic Exit else Ok (URL h))"

section \<open>The proxy and the service of the tests\<close>

definition AuthMockServerJWKSPath :: string where "AuthMockServerJWKSPath = ''/jwks''"
definition AuthMockServerTokenPath :: string where "AuthMockServerTokenPath = ''/token''"

definition test_proxy_config :: "string option \<Rightarrow> SMTPProxyConfig" where
  "test_proxy_config authMock =
     (let cfg = \<lparr>smtpAuthMode = SMTPAuthNone, SMTPEnsureSender = False, grpcAuthMode = GrpcAuthNone, OidcConfig = None,
            TokenProviderOptions = [], LoggingOnly = False, UseQueuing = False\<rparr>
      in (case authMock of None \<Rightarrow> cfg
        | Some url \<Rightarrow> cfg\<lparr>smtpAuthMode := SMTPAuthPlain, grpcAuthMode := SMTPPassthrough,
            OidcConfig := Some (NewOIDCConfig (url @ AuthMockServerTokenPath) AuthMockClientID AuthMockUserPassword)\<rparr>))"

text \<open>\<open>GetSMTPProxy\<close>: a failure is noted, and the nil server is then written to.\<close>

definition GetSMTPProxy ::
    "token_world \<Rightarrow> int64 \<Rightarrow> string option \<Rightarrow> bool \<Rightarrow> (provider_error, smtp_server \<times> OidcTokenProvider option) outcome" where
  "GetSMTPProxy tw now authMock tls =
     (case GetSMTPServer (test_proxy_config authMock) tw now of
        Err _ \<Rightarrow> Panic Nil_Deref
      | Panic p \<Rightarrow> Panic p
      | Ok (tp, needs_auth) \<Rightarrow> Ok (\<lparr>srv_addr = [], srv_domain = [], srv_require_tls = tls, srv_has_tls = tls,
          srv_allow_insecure = (\<not> tls), srv_auth = needs_auth\<rparr>, tp))"

text \<open>\<open>GetMockMailerGRPCServer\<close>: the server, and with an authentication server its interceptor's keys,
  issuer and client.\<close>

definition getGrpcAuthOpts ::
    "(string \<Rightarrow> bool) \<Rightarrow> string option \<Rightarrow> (string, (key_source \<times> string \<times> string) option) outcome" where
  "getGrpcAuthOpts fetch authMock =
     (case authMock of None \<Rightarrow> Ok None
      | Some url \<Rightarrow> if fetch (url @ AuthMockServerJWKSPath)
          then Ok (Some (Jwks (url @ AuthMockServerJWKSPath), url, AuthMockClientID)) else Panic Exit)"

definition GetMockMailerGRPCServer ::
    "(string \<Rightarrow> bool) \<Rightarrow> string option \<Rightarrow> (string, MailServer \<times> (key_source \<times> string \<times> string) option) outcome" where
  "GetMockMailerGRPCServer fetch authMock =
     obind (getGrpcAuthOpts fetch authMock) (\<lambda>opts. Ok (NewMailServer False (authMock = None), opts))"

section \<open>The tests run what they are meant to run\<close>

text \<open>The service authenticates exactly where the proxy does, and both trust the same server.\<close>

lemma test_environment_consistent:
  assumes "GetSMTPProxy tw now authMock tls = Ok (srv, tp)" and "GetMockMailerGRPCServer fetch authMock = Ok (ms, opts)"
  shows "srv_auth srv \<longleftrightarrow> \<not> unauthenticated ms" and "opts = None \<longleftrightarrow> \<not> srv_auth srv"
    and "srv_auth srv \<longrightarrow> srv_has_tls srv \<or> srv_allow_insecure srv" and "\<not> loggingOnly ms"
  using assms
  by (auto simp: GetSMTPProxy_def GetSMTPServer_def test_proxy_config_def GetMockMailerGRPCServer_def
      getGrpcAuthOpts_def NewMailServer_def obind_eq_Ok split: option.splits if_splits)

section \<open>The tasks of a test\<close>

datatype test_task = Close_Auth | Serve_Mail_Grpc | Stop_Mail_Grpc | Serve_Test_SMTP | Stop_Test_SMTP | Queue_Handler | Smtp_Client

text \<open>The group of a test with its tasks in order, whether the test has failed, and whether the context
  has been ended before the group runs.\<close>

record test_environment =
  te_Eg :: "test_task list"
  te_failed :: bool
  te_cancelled :: bool

text \<open>A fatal failure ends the test.\<close>

datatype test_end = Fatal

definition NewTestEnvironment :: test_environment where
  "NewTestEnvironment = \<lparr>te_Eg = [], te_failed = False, te_cancelled = False\<rparr>"

definition te_Go :: "test_task list \<Rightarrow> test_environment \<Rightarrow> test_environment" where
  "te_Go ts te = te\<lparr>te_Eg := te_Eg te @ ts\<rparr>"

definition te_Fail :: "test_environment \<Rightarrow> test_environment" where
  "te_Fail te = te\<lparr>te_failed := True, te_cancelled := True\<rparr>"

definition StartAuthMockServer ::
    "bool \<Rightarrow> mock_world \<Rightarrow> string \<Rightarrow> test_environment
       \<Rightarrow> (test_end, AuthMockServerHandle \<times> test_environment) outcome" where
  "StartAuthMockServer key_ok w url te =
     (case obind (NewAuthMockServerHandle key_ok w AuthMockUserUsername AuthMockUserPassword) (StartHttpTestServer url) of
        Ok h \<Rightarrow> Ok (h, te_Go [Close_Auth] te) | Err _ \<Rightarrow> Err Fatal | Panic p \<Rightarrow> Panic p)"

definition StartGRPCMailServer :: "bool \<Rightarrow> bool \<Rightarrow> test_environment \<Rightarrow> (test_end, test_environment) outcome" where
  "StartGRPCMailServer listens client_ok te =
     (if \<not> listens then Err Fatal
      else if \<not> client_ok then Err Fatal
      else Ok (te_Go [Serve_Mail_Grpc, Stop_Mail_Grpc] te))"

definition StartSMTPProxyServer :: "smtp_server \<Rightarrow> test_environment \<Rightarrow> smtp_server \<times> test_environment" where
  "StartSMTPProxyServer srv te = (srv\<lparr>srv_addr := ''localhost:0''\<rparr>, te_Go [Serve_Test_SMTP, Stop_Test_SMTP] te)"

definition StartQueueHandler :: "test_environment \<Rightarrow> test_environment" where
  "StartQueueHandler te = te_Go [Queue_Handler] te"

text \<open>\<open>TestSMTPClient\<close> adds the client to the group and waits for it; \<open>ends\<close> is what the tasks returned.\<close>

definition TestSMTPClient :: "string option list \<Rightarrow> test_environment \<Rightarrow> test_environment" where
  "TestSMTPClient ends te =
     (let te = te_Go [Smtp_Client] te
      in case group_wait ends of None \<Rightarrow> te | Some _ \<Rightarrow> te\<lparr>te_failed := True\<rparr>)"

text \<open>The certificate of the tests: the server's own, which its clients trust.\<close>

definition LoadTestingTLSConfig :: "bool \<Rightarrow> bool \<Rightarrow> test_environment \<Rightarrow> (string \<times> string) option \<times> test_environment" where
  "LoadTestingTLSConfig loads parses te =
     (if \<not> loads \<or> \<not> parses then (None, te_Fail te)
      else (Some (''../../testdata/test-server.crt'', ''../../testdata/test-server.key''), te))"

fun test_task_kind :: "test_task \<Rightarrow> task_kind" where
  "test_task_kind Close_Auth = Stops Auth_Http"
| "test_task_kind Serve_Mail_Grpc = Serves Grpc_Calls"
| "test_task_kind Stop_Mail_Grpc = Stops Grpc_Calls"
| "test_task_kind Serve_Test_SMTP = Serves Smtp_Sessions"
| "test_task_kind Stop_Test_SMTP = Stops Smtp_Sessions"
| "test_task_kind Queue_Handler = Works"
| "test_task_kind Smtp_Client = Drives Smtp_Sessions"

text \<open>The mail server of a test is stopped gracefully too.\<close>

fun test_waits_for :: "test_task \<Rightarrow> activity option" where
  "test_waits_for Serve_Mail_Grpc = Some Pending_Rpcs"
| "test_waits_for Stop_Mail_Grpc = Some Pending_Rpcs"
| "test_waits_for Queue_Handler = Some Transmission"
| "test_waits_for _ = None"

definition test_group :: "(server \<Rightarrow> bool) \<Rightarrow> test_environment \<Rightarrow> test_task group_spec" where
  "test_group forgets te = \<lparr>spec_tasks = set (te_Eg te), spec_kind = test_task_kind,
     spec_may_succeed = (\<lambda>t. t \<noteq> Queue_Handler), spec_waits_for = test_waits_for,
     spec_parent = Command_Context, spec_forgets = forgets\<rparr>"

text \<open>The tests of the proxy (\<^verbatim>\<open>smtp-proxy_test.go\<close>) put their environment together in this order, then
  wait for the client.\<close>

definition smtp_test_setup ::
    "bool \<Rightarrow> mock_world \<Rightarrow> string option \<Rightarrow> bool \<Rightarrow> bool \<Rightarrow> smtp_server \<Rightarrow> (test_end, test_environment) outcome" where
  "smtp_test_setup key_ok w authMock listens client_ok srv =
     obind (case authMock of None \<Rightarrow> Ok NewTestEnvironment
        | Some url \<Rightarrow> obind (StartAuthMockServer key_ok w url NewTestEnvironment) (\<lambda>(h, te). Ok te)) (\<lambda>te.
     obind (StartGRPCMailServer listens client_ok te) (\<lambda>te.
     Ok (TestSMTPClient [] (snd (StartSMTPProxyServer srv te)))))"

lemma smtp_test_tasks:
  assumes "smtp_test_setup key_ok w authMock listens client_ok srv = Ok te"
  shows "te_Eg te = (if authMock = None then [] else [Close_Auth])
    @ [Serve_Mail_Grpc, Stop_Mail_Grpc, Serve_Test_SMTP, Stop_Test_SMTP, Smtp_Client]"
  using assms
  by (auto simp: smtp_test_setup_def StartAuthMockServer_def NewAuthMockServerHandle_def StartGRPCMailServer_def StartSMTPProxyServer_def
      StartHttpTestServer_def TestSMTPClient_def NewTestEnvironment_def te_Go_def obind_eq_Ok split: option.splits if_splits)

text \<open>What is assumed of the servers of a test: neither forgets an early shutdown.\<close>

definition tests_stop_count :: "(server \<Rightarrow> bool) \<Rightarrow> bool" where
  "tests_stop_count forgets \<longleftrightarrow> \<not> forgets Grpc_Calls \<and> \<not> forgets Smtp_Sessions"

definition smtp_test_group :: "(server \<Rightarrow> bool) \<Rightarrow> bool \<Rightarrow> test_task group_spec" where
  "smtp_test_group forgets with_auth =
     test_group (\<lambda>s. s \<noteq> Grpc_Calls \<and> s \<noteq> Smtp_Sessions \<and> forgets s)
       \<lparr>te_Eg = (if with_auth then [Close_Auth] else [])
          @ [Serve_Mail_Grpc, Stop_Mail_Grpc, Serve_Test_SMTP, Stop_Test_SMTP, Smtp_Client],
        te_failed = False, te_cancelled = False\<rparr>"

lemma smtp_test_group_sel:
  "spec_tasks (smtp_test_group f a) = (if a then {Close_Auth} else {})
     \<union> {Serve_Mail_Grpc, Stop_Mail_Grpc, Serve_Test_SMTP, Stop_Test_SMTP, Smtp_Client}"
  "spec_kind (smtp_test_group f a) = test_task_kind" "spec_parent (smtp_test_group f a) = Command_Context"
  "spec_forgets (smtp_test_group f a) s \<longleftrightarrow> s \<noteq> Grpc_Calls \<and> s \<noteq> Smtp_Sessions \<and> f s"
  by (auto simp: smtp_test_group_def test_group_def)

interpretation smtp_test: driven_group "smtp_test_group forgets with_auth" for forgets with_auth
proof
  fix t s
  assume t: "spec_kind (smtp_test_group forgets with_auth) t = Serves s"
  then show "\<not> spec_forgets (smtp_test_group forgets with_auth) s" by (cases t) (auto simp: smtp_test_group_sel)
  from t show "\<exists>u \<in> spec_tasks (smtp_test_group forgets with_auth). spec_kind (smtp_test_group forgets with_auth) u = Stops s"
    by (cases t) (auto simp: smtp_test_group_sel)
qed (auto simp: smtp_test_group_sel)

lemma test_group_smtp:
  assumes "smtp_test_setup key_ok w authMock listens client_ok srv = Ok te" and "tests_stop_count forgets"
  shows "test_group forgets te = smtp_test_group forgets (authMock \<noteq> None)"
proof -
  have "(\<lambda>s. s \<noteq> Grpc_Calls \<and> s \<noteq> Smtp_Sessions \<and> forgets s) = forgets"
    using assms(2) by (auto simp: tests_stop_count_def)
  then show ?thesis using smtp_test_tasks [OF assms(1)] by (simp add: smtp_test_group_def test_group_def)
qed

text \<open>A test of the proxy comes to an end by itself, once no call is pending at its mail server: the group
  of its tasks gets stuck only when all of them have ended.\<close>

lemma smtp_test_ends:
  assumes "smtp_test_setup key_ok w authMock listens client_ok srv = Ok te" and "tests_stop_count forgets"
    and "group_reachable (test_group forgets te) g" and "quiescent (test_group forgets te) g" and "g_active g = {}"
  shows "g_running g = {}" and "length (g_ends g) = length (te_Eg te)"
proof -
  note eq = test_group_smtp [OF assms(1,2)]
  show run: "g_running g = {}" using assms(3-5) unfolding eq by (rule smtp_test.ends_by_itself)
  have "length (g_ends g) = card (spec_tasks (smtp_test_group forgets (authMock \<noteq> None)))"
    using assms(3) run unfolding eq by (rule smtp_test.ended_group)
  then show "length (g_ends g) = length (te_Eg te)"
    by (simp add: smtp_test_group_sel smtp_test_tasks [OF assms(1)])
qed

section \<open>The mock server as token endpoint\<close>

text \<open>A request of the provider as the mock server gets it, and its answer.\<close>

definition mock_post :: "mock_world \<Rightarrow> string \<Rightarrow> token_request \<Rightarrow> (int \<times> bytes option) option" where
  "mock_post mw url req =
     (if has_prefix (request_url req) url then
        (let r = mock_handler mw AuthMockUserUsername AuthMockUserPassword url
               \<lparr>mr_path = drop (length url) (request_url req), mr_authorization = [request_auth req]\<rparr>
         in Some (case resp_status r of None \<Rightarrow> 200 | Some st \<Rightarrow> int st, Some (resp_body r)))
      else None)"

text \<open>That is what the server answers which the tests start.\<close>

lemma mock_post_serves:
  assumes "StartAuthMockServer True mw url te = Ok (h, te')"
  shows "mock_post mw url (req\<lparr>request_url := url @ path\<rparr>)
    = (let r = serve_mock h \<lparr>mr_path = path, mr_authorization = [request_auth req]\<rparr>
       in Some (case resp_status r of None \<Rightarrow> 200 | Some st \<Rightarrow> int st, Some (resp_body r)))"
  using assms
  by (simp add: StartAuthMockServer_def NewAuthMockServerHandle_def StartHttpTestServer_def mock_post_def serve_mock_def
      has_prefix_iff obind_eq_Ok split: outcome.splits if_splits) (auto simp: Let_def)

text \<open>The worlds in which the token endpoint is the mock server, at any time.\<close>

definition mock_token_worlds :: "mock_world set \<Rightarrow> string \<Rightarrow> token_world set" where
  "mock_token_worlds MW url = {tw. \<exists>mw \<in> MW. http_post tw = mock_post mw url}"

text \<open>What the JWT library is to do with the keys of the mock server: it takes only tokens that the mock
  server has signed, and an empty token is none.\<close>

definition mock_verified :: "mock_world set \<Rightarrow> string \<Rightarrow> jwt_parser \<Rightarrow> bool" where
  "mock_verified MW url jwt \<longleftrightarrow> jwt url AuthMockClientID [] = None
     \<and> (\<forall>t c. jwt url AuthMockClientID t = Some (c, True) \<longrightarrow>
          (\<exists>mw \<in> MW. mk_sign mw (mock_claims mw url) = Some t \<and> c = claims_of_json (mock_claims mw url)))"

lemma credentials_split:
  "u @ c # p = a @ c # b \<Longrightarrow> c \<notin> set a \<Longrightarrow> c \<notin> set b \<Longrightarrow> u = a \<and> p = b"
proof (induction u arbitrary: a)
  case Nil
  then show ?case by (cases a) auto
next
  case (Cons x u)
  show ?case
  proof (cases a)
    case Nil
    with Cons.prems have "c \<in> set b" by (metis append_Cons append_Nil in_set_conv_decomp list.inject)
    with Cons.prems(3) show ?thesis by simp
  qed (use Cons in auto)
qed

text \<open>Only the credentials of the test's user are answered with success.\<close>

lemma mock_answers_only_user:
  assumes "answered_with tw (user_request (url @ AuthMockServerTokenPath) u p) t" and "http_post tw = mock_post mw url"
  shows "u = AuthMockUserUsername \<and> p = AuthMockUserPassword"
proof -
  define acc where "acc = \<lparr>sa_ClientID = u, sa_ClientSecret = p\<rparr>"
  define tp where "tp = NewOidcTokenProvider (url @ AuthMockServerTokenPath) u p []"
  define cred where "cred = sa_ClientID acc @ '':'' @ sa_ClientSecret acc"
  define mock where "mock = mock_token mw AuthMockUserUsername AuthMockUserPassword url [request_auth (token_request_of tp acc)]"
  have req: "user_request (url @ AuthMockServerTokenPath) u p = token_request_of tp acc"
    by (simp add: user_request_def tp_def acc_def)
  have url: "request_url (token_request_of tp acc) = url @ ''/token''"
    by (simp add: token_request_of_def tp_def NewOidcTokenProvider_def AuthMockServerTokenPath_def)
  have "http_post tw (token_request_of tp acc)
      = Some (case resp_status mock of None \<Rightarrow> 200 | Some st \<Rightarrow> int st, Some (resp_body mock))"
    using url by (simp add: assms(2) mock_post_def mock_handler_def mock_def has_prefix_iff Let_def)
  then have ok: "case resp_status mock of None \<Rightarrow> True | Some st \<Rightarrow> 200 \<le> st \<and> st < 300"
    using assms(1) by (auto simp: answered_with_def req split: option.splits)
  have "cred = AuthMockUserUsername @ '':'' @ AuthMockUserPassword"
  proof (rule ccontr)
    assume neq: "cred \<noteq> AuthMockUserUsername @ '':'' @ AuthMockUserPassword"
    have "mock = (let body = take (length cred - length cred mod 3) cred;
         r = (if length cred mod 3 = 0 then no_response
              else write_body (''Failed to decode Authorization header: '' @ mk_b64_error mw (b64_encode cred))
                (write_header 400 no_response))
     in if body \<noteq> AuthMockUserUsername @ '':'' @ AuthMockUserPassword then
          write_body (''Expected Authorization header to be '' @ [SQUOTE] @ AuthMockUserUsername @ '':'' @ AuthMockUserPassword
            @ [SQUOTE] @ '', got '' @ [SQUOTE] @ body @ [SQUOTE]) (write_header 401 r)
        else issue_token mw url r)"
      unfolding mock_def by (rule mock_token_request [OF cred_def])
    then have "resp_status mock \<in> {Some 400, Some 401}"
      using neq by (auto simp: Let_def status_issue_token)
    with ok show False by auto
  qed
  then have "u @ CHR '':'' # p = AuthMockUserUsername @ CHR '':'' # AuthMockUserPassword"
    by (simp add: cred_def acc_def)
  then show ?thesis
    by (rule credentials_split) (simp_all add: AuthMockUserUsername_def AuthMockUserPassword_def)
qed

text \<open>A token of the mock server allows the one sender of the tests.\<close>

lemma mock_token_sender:
  assumes "token_allows jwt url AuthMockClientID t m" and "mock_verified MW url jwt"
  shows "Address (From m) = ''test-from@local''" and "t \<noteq> []"
proof -
  from assms(1) obtain parsed client roles where p: "jwt url AuthMockClientID t = Some (parsed, True)"
    "ResourceAccess parsed AuthMockClientID = Some client" "client ''roles'' = Some roles"
    "''mail-sender:'' @ Address (From m) \<in> set roles"
    unfolding token_allows_def by blast
  then show "t \<noteq> []" using assms(2) by (auto simp: mock_verified_def)
  from p(1) assms(2) obtain mw where "parsed = claims_of_json (mock_claims mw url)" by (auto simp: mock_verified_def)
  then have "roles = [''mail'', ''mail-sender:test-from@local'']"
    using p(2,3) mock_roles [of mw url] by (simp add: getRoles_def)
  with p(4) show "Address (From m) = ''test-from@local''" by auto
qed

end
