(* ===== verification/Props_Groups.thy ===== *)
theory Props_Groups
  imports Props_Gateway Test_Environment
begin

text \<open>
  The properties of the groups of tasks, which say how the two commands come to their end, and of the
  environment of the integration tests, in which the proxy, the service and the mock authentication
  server work together.
\<close>

section \<open>How the API ends\<close>






section \<open>How the proxy does not\<close>

text \<open>
  The proxy's group hangs below a background context: as long as no task has failed, all of them
  go on after a signal.
\<close>

lemma proxy_ignores_signal:
  assumes "group_reachable (proxy_group forgets) g" and "g_ends g = []"
    and "(group_step (proxy_group forgets))\<^sup>*\<^sup>* (g\<lparr>g_cancelled := True\<rparr>) g'"
  shows "g_running g' = set proxy_tasks \<and> g_ends g' = []"
  using proxy_undisturbed [OF group_reachable.event [OF assms(1) group_event.cancel] _ assms(3)] assms(2) by simp

lemma proxy_ignores_signal_witness:
  "g_running (new_group (proxy_group (\<lambda>_. False))\<lparr>g_cancelled := True\<rparr>) = set proxy_tasks"
  using proxy_ignores_signal [OF group_reachable.start _ rtranclp.rtrancl_refl] by (simp add: new_group_def)

text \<open>
  C36: a proxy whose SMTP server fails at its start may hang. The task of the metrics server assigns
  the variable that the task which shuts it down reads; if that one comes first, its shutdown is lost.
  There is a run of the proxy's group after which the context is done, all other tasks have
  returned and none can go on, but the metrics server serves, so that \<open>Wait\<close> does not return.
\<close>

theorem proxy_group_hangs:
  "\<exists>g. group_reachable (proxy_group forgets) g \<and> ctx_done (proxy_group forgets) g
    \<and> quiescent (proxy_group forgets) g \<and> g_running g = {Serve_Proxy_Metrics}"
  using proxy_stuck_reachable proxy_stuck_quiescent
  by (intro exI [of _ proxy_stuck]) (simp add: proxy_stuck_def)

section \<open>The test environment\<close>

text \<open>
  C14: in the environment of the integration tests, with the mock server as token endpoint and as
  issuer, whatever a mail that a session hands over makes the service do, the session is that of the
  test's user, with the user's password, and the mail is sent from the one address that the tokens of
  the mock server name, with the recipients and the subject of the one that was handed over.
\<close>

theorem test_sessions_send_as_test_user:
  assumes "session_reachable lib (proxy_backends (test_proxy_config (Some url)) (range (api_mail_client jwt api))
      (mock_token_worlds MW url)) (s, newer @ Handed ctx m # older)"
    and "GetMockMailerGRPCServer fetch (Some url)
      = Ok (api_mail_server api, Some (api_keys api, api_issuer api, api_client api))"
    and "mock_verified MW url (jwt (api_keys api))" and "tw \<in> mock_token_worlds MW url"
    and "e \<in> set (relayed_effects jwt api w (test_proxy_config (Some url)) tw now rb \<lparr>injected = own, of_session = ctx\<rparr> m)"
  shows "logged_in_as older = Some (AuthMockUserUsername, AuthMockUserPassword)
    \<and> (\<exists>m0. effect_of m0 e \<and> Address (From m0) = ''test-from@local'' \<and> From m0 = w_GetSender w (From m)
        \<and> To m0 = To m \<and> Cc m0 = Cc m \<and> Bcc m0 = Bcc m \<and> Subject m0 = Subject m \<and> ValidateMail m0 = Ok ())"
proof -
  have "api_mail_server api = NewMailServer False False"
    and api: "api_issuer api = url" "api_client api = AuthMockClientID"
    using assms(2) by (auto simp: GetMockMailerGRPCServer_def getGrpcAuthOpts_def obind_eq_Ok split: if_splits)
  then have unauth: "\<not> unauthenticated (api_mail_server api)" by (simp add: NewMailServer_def)
  define oc where "oc = NewOIDCConfig (url @ AuthMockServerTokenPath) AuthMockClientID AuthMockUserPassword"
  have modes: "smtpAuthMode (test_proxy_config (Some url)) = SMTPAuthPlain"
    "grpcAuthMode (test_proxy_config (Some url)) = SMTPPassthrough"
    "TokenProviderOptions (test_proxy_config (Some url)) = []" "OidcConfig (test_proxy_config (Some url)) = Some oc"
    "oidcTokenEndpoint oc = url @ AuthMockServerTokenPath"
    by (simp_all add: test_proxy_config_def oc_def NewOIDCConfig_def Let_def)
  from session_mail_effect [OF assms(1) modes(1-4) unauth assms(4,5)] obtain u p t m0 where u:
    "logged_in_as older = Some (u, p)"
    "token_for (mock_token_worlds MW url) (oidcTokenEndpoint oc) u p t \<or> (u = [] \<and> p = [] \<and> t = [])"
    "token_allows (jwt (api_keys api)) (api_issuer api) (api_client api) t m0" "effect_of m0 e"
    "To m0 = To m" "Cc m0 = Cc m" "Bcc m0 = Bcc m" "Subject m0 = Subject m"
    "From m0 = w_GetSender w (From m)" "ValidateMail m0 = Ok ()" by blast
  note sender = mock_token_sender [OF u(3) [unfolded api(1,2)] assms(3)]
  then have "token_for (mock_token_worlds MW url) (url @ AuthMockServerTokenPath) u p t" using u(2) modes(5) by auto
  then obtain tw' mw where "answered_with tw' (user_request (url @ AuthMockServerTokenPath) u p) t"
    "http_post tw' = mock_post mw url" by (auto simp: token_for_def mock_token_worlds_def)
  then have "u = AuthMockUserUsername" "p = AuthMockUserPassword" by (auto dest: mock_answers_only_user)
  with u(1,4-10) sender(1) show ?thesis by (intro conjI exI [of _ m0]) simp_all
qed

text \<open>The test's user logs in at a mock server and sends a message from the address of its tokens.\<close>

definition test_mock :: mock_world where
  "test_mock = sample_mock\<lparr>mk_sign := (\<lambda>_. Some ''a.e30.c'')\<rparr>"

definition test_token_world :: token_world where
  "test_token_world = \<lparr>url_ok = (\<lambda>_. True), http_post = mock_post test_mock ''http://mock'',
     json_access_token = (\<lambda>b. if b = ''token'' then Some ''a.e30.c'' else None), json_exp = (\<lambda>_. Some 1000)\<rparr>"

definition test_jwt :: "key_source \<Rightarrow> jwt_parser" where
  "test_jwt k iss aud tok = (if k = Jwks ''http://mock/jwks'' \<and> iss = ''http://mock'' \<and> aud = AuthMockClientID \<and> tok = ''a.e30.c''
     then Some (claims_of_json (mock_claims test_mock ''http://mock''), True) else None)"

definition test_api :: notifications_api where
  "test_api = sample_api\<lparr>api_keys := Jwks ''http://mock/jwks'', api_issuer := ''http://mock'', api_client := AuthMockClientID,
     api_mail_server := NewMailServer False False\<rparr>"

definition test_lib :: mail_lib where
  "test_lib = sample_lib\<lparr>lib_ParseAddressList := (\<lambda>s. Some [\<lparr>Name = [],
     Address = if s = ''ann'' then ''test-from@local'' else ''bob@vis.ch''\<rparr>])\<rparr>"

definition test_mail :: mail where
  "test_mail = gateway_mail\<lparr>From := \<lparr>Name = [], Address = ''test-from@local''\<rparr>\<rparr>"

definition test_world :: mail_world where
  "test_world = sample_world\<lparr>w_parse_address := plain_parser (all_addresses test_mail)\<rparr>"

abbreviation test_backend :: "OidcTokenProvider option backend" where
  "test_backend \<equiv> proxy_backend (test_proxy_config (Some ''http://mock'')) (api_mail_client test_jwt test_api test_world)
     test_token_world 100 (\<lambda>_. ''b'') None"

definition test_login :: "(session_error, unit) outcome \<times> OidcTokenProvider option session" where
  "test_login = AuthPlain test_backend (NewSession None) AuthMockUserUsername AuthMockUserPassword"

definition test_session :: "OidcTokenProvider option session" where
  "test_session = snd (Rcpt test_backend (snd (Mail test_backend (snd test_login) ''test-from@local'')) ''bob@vis.ch'')"

abbreviation test_backends :: "OidcTokenProvider option backend set" where
  "test_backends \<equiv> proxy_backends (test_proxy_config (Some ''http://mock'')) (range (api_mail_client test_jwt test_api))
     (mock_token_worlds {test_mock} ''http://mock'')"

abbreviation test_effects :: "mail_effect list" where
  "test_effects \<equiv> relayed_effects test_jwt test_api test_world (test_proxy_config (Some ''http://mock'')) test_token_world 100
     (\<lambda>_. ''b'') \<lparr>injected = None, of_session = sctx test_session\<rparr> test_mail"

lemma test_world_mock: "test_token_world \<in> mock_token_worlds {test_mock} ''http://mock''"
  by (simp add: test_token_world_def mock_token_worlds_def)

lemma test_backend_mem: "test_backend \<in> test_backends"
  by (rule proxy_backends_mem) (simp_all add: test_world_mock)

lemma test_session_reachable:
  "session_reachable test_lib test_backends (test_session, [Logged_In AuthMockUserUsername AuthMockUserPassword])"
proof -
  have "fst (AuthPlain test_backend (NewSession None) AuthMockUserUsername AuthMockUserPassword) = Ok ()" by code_simp
  from session_logs_in [OF session_reachable.start test_backend_mem this] show ?thesis
    unfolding test_session_def test_login_def
    by (intro session_reachable.step [OF _ session_step.rcpt] session_reachable.step [OF _ session_step.mail]
        test_backend_mem)
qed

lemma test_handed: "fst (snd (Data test_lib test_backend test_session ''msg'')) = [(sctx test_session, test_mail)]"
  by code_simp

lemma test_api_server:
  "GetMockMailerGRPCServer (\<lambda>_. True) (Some ''http://mock'')
     = Ok (api_mail_server test_api, Some (api_keys test_api, api_issuer test_api, api_client test_api))"
  by (simp add: GetMockMailerGRPCServer_def getGrpcAuthOpts_def test_api_def AuthMockServerJWKSPath_def)

lemma test_sessions_send_as_test_user_witness:
  "\<exists>m0. effect_of m0 (hd test_effects) \<and> Address (From m0) = ''test-from@local''"
proof -
  let ?s = "snd (snd (Data test_lib test_backend test_session ''msg''))"
  have "session_reachable test_lib test_backends
      (?s, Handed (sctx test_session) test_mail # [Logged_In AuthMockUserUsername AuthMockUserPassword])"
    by (rule session_hands_over [OF test_session_reachable test_backend_mem test_handed])
  then have r: "session_reachable test_lib test_backends
      (?s, [] @ Handed (sctx test_session) test_mail # [Logged_In AuthMockUserUsername AuthMockUserPassword])" by simp
  have v: "mock_verified {test_mock} ''http://mock'' (test_jwt (api_keys test_api))"
    by (auto simp: mock_verified_def test_jwt_def test_api_def test_mock_def split: if_splits)
  have "test_effects \<noteq> []" by code_simp
  then have "hd test_effects \<in> set test_effects" by simp
  from test_sessions_send_as_test_user [OF r test_api_server v test_world_mock this] show ?thesis by blast
qed

end
