(* ===== verification/Spec2Isabelle.thy ===== *)
theory Spec2Isabelle
  imports Props_Gateway Props_Mailer Props_Queue Props_Grpc Props_Cli Props_Groups
begin

text \<open>
  A model of the notifications API (\<^verbatim>\<open>src/\<close>, Go) and the proofs of what makes it correct.

  \<^bold>\<open>The program.\<close> Clients call a gRPC service to send or to queue mails, or to post to Slack; an
  SMTP proxy offers the mail part over SMTP. A request is authenticated by an interceptor,
  converted to a mail, checked against the caller's roles, and either transmitted at once or
  stored in a PostgreSQL table, from which a dispatcher takes the queued mails and transmits
  them. A mail is transmitted over SMTP or through the Microsoft Graph API, in Internet Message
  Format in both cases.

  \<^bold>\<open>The model.\<close> A Go call that can fail is a function into \<open>outcome\<close>: a value, an error, or a
  panic (a call through nil, a write to a nil map, a slice out of bounds, a fatal log entry). Bytes
  and strings are lists of characters, state is passed explicitly, a 64-bit time is a word of 64
  bits. The theories, by component:

    \<^item> \<open>Prelude\<close>: outcomes, the loop that stops at an error (\<open>traverse\<close>), facts on lists.
    \<^item> \<open>Go_Strings\<close>, \<open>Go_Transfer\<close>, \<open>Go_Quoted_Printable\<close>, \<open>Go_Media_Type\<close>, \<open>Go_Address\<close>,
      \<open>Go_Time\<close>, \<open>Newlines\<close>: what the code uses of the Go library, written out: UTF-8, canonical
      header keys, encoded words, Base64, quoted-printable, media types, the printing of addresses
      and dates, line ends. The locale \<open>transfer_codec\<close> states what a transfer encoding promises,
      and is interpreted on Base64 and on quoted-printable.
    \<^item> \<open>Mailer_Encoding\<close> (\<^verbatim>\<open>pkg/mailer/encoding.go\<close>): the choice of a transfer encoding.
    \<^item> \<open>Mailer_Part\<close> (\<^verbatim>\<open>pkg/mailer/part.go\<close>): body parts, their validation and encoding.
    \<^item> \<open>Mailer_Mail\<close> (\<^verbatim>\<open>pkg/mailer/mail.go\<close>, \<^verbatim>\<open>imf.go\<close>): the mail, \<open>ValidateMail\<close>,
      \<open>GetInternetMessageFormat\<close>; the shape of the rendered message.
    \<^item> \<open>Mailer_Senders\<close> (\<^verbatim>\<open>pkg/mailer/smtp.go\<close>, \<^verbatim>\<open>graphapi.go\<close>): the two senders; the locale
      \<open>mail_sender\<close> is the interface \<^verbatim>\<open>MailSender\<close>, interpreted on both.
    \<^item> \<open>Auth_Claims\<close> (\<^verbatim>\<open>internal/auth/token.go\<close>, \<^verbatim>\<open>interceptor.go\<close>) and \<open>Auth_Token_Provider\<close>
      (\<^verbatim>\<open>service_account.go\<close>): roles and interceptor; the provider of access tokens.
      \<open>Token_Concurrent\<close>: overlapping calls on one provider, cut at its reads and writes.
    \<^item> \<open>Database_Mail\<close> (\<^verbatim>\<open>internal/database/mail.go\<close>): mails as rows, JSON included.
    \<^item> \<open>Mail_Queue\<close> (\<^verbatim>\<open>sql/queries/mail.sql\<close>, \<^verbatim>\<open>internal/dispatcher/queuehandler.go\<close>): the SQL
      statements on a table, the dispatcher over any query interface; the locale \<open>mail_queries\<close> has
      the laws the dispatcher relies on, interpreted on the table. \<open>queue_step\<close> is everything that
      happens to the queue, concurrent dispatchers, failing statements and dying processes included.
    \<^item> \<open>Grpc_Mailer\<close>, \<open>Grpc_Mail\<close> (\<^verbatim>\<open>internal/grpcservers/mailer.go\<close>, \<^verbatim>\<open>mail.go\<close>): the conversion of
      requests and the three calls; a call gives its effects as an ordered list.
    \<^item> \<open>Smtp_Server\<close> (\<^verbatim>\<open>pkg/smtpserver/server.go\<close>): sessions and the reading of messages;
      \<open>session_step\<close> are the commands of a client in any order, each served by any of a set of back
      ends, so that what is outside of the server may change between them; a log says who logged in
      and what was handed over.
    \<^item> \<open>Smtp_Proxy\<close>, \<open>Smtp_Gateway\<close> (\<^verbatim>\<open>internal/smtp-proxy\<close>): the handlers, and the server with them;
      \<open>proxy_backends\<close> is the proxy over time, and the provider of a session keeps its tokens from message
      to message.
    \<^item> \<open>Slack\<close> (\<^verbatim>\<open>pkg/slack\<close>, \<^verbatim>\<open>internal/grpcservers/slack.go\<close>): retries, the cache of users.
      \<open>Slack_Concurrent\<close>: overlapping calls on one client, with the locks they hold; a call on its own is
      a run of the sequential one.
    \<^item> \<open>Cli_Config\<close> (\<^verbatim>\<open>internal/cli\<close>, \<^verbatim>\<open>internal/util.go\<close>, \<^verbatim>\<open>cmd/mail-sender\<close>): flags, redaction,
      checks at the start, the choice of the backend. \<open>Cli_Commands\<close> (\<^verbatim>\<open>internal/cli/commands.go\<close>): the
      root command and the subcommands with their middlewares as runs with ordered events, the exit status
      and the main function. \<open>Task_Group\<close> (\<^verbatim>\<open>internal/cli/actions\<close>): the groups of tasks of both commands,
      from their start over a signal or a failure to their end; the locale \<open>stoppable_group\<close> says what makes
      a group end, and is interpreted on the API's, its extension \<open>driven_group\<close> on that of the tests.
    \<^item> \<open>Observability\<close> (\<^verbatim>\<open>internal/observability\<close> and the files \<^verbatim>\<open>observability.go\<close>): exporters, counters
      and gauge; the dispatcher with its metrics is the dispatcher over queries that record
      (\<open>recording\<close>), and the locale \<open>mail_queries\<close> is interpreted on these as well.
    \<^item> \<open>Api_Server\<close> (\<^verbatim>\<open>internal/cli/actions/grpc-api.go\<close>, \<^verbatim>\<open>internal/grpcservers/server.go\<close>,
      \<^verbatim>\<open>internal/database/database.go\<close>): the start of the API, its group of tasks. \<open>Service\<close>: the API at work, in which the effects of calls
      and the pops, transmissions and status updates of any number of dispatchers interleave
      (\<open>service_step\<close>), with two invariants; a round of \<open>popAndHandleMail\<close> is a run of it.
    \<^item> \<open>Smtp_Api\<close>: the proxy in front of the API, whose client is the API's own service behind its
      interceptor.
    \<^item> \<open>Auth_Mock\<close> (\<^verbatim>\<open>internal/auth/mock/server.go\<close>): the authentication server for tests.
      \<open>Test_Environment\<close> (\<^verbatim>\<open>internal/testutil\<close>, \<^verbatim>\<open>cmd/auth-mock\<close>): how the tests put the parts together, the
      tasks they run, and the mock server as token endpoint.
    \<^item> \<open>Samples\<close>: concrete inputs. \<open>Props_Service\<close>, \<open>Props_Gateway\<close>, \<open>Props_Mailer\<close>, \<open>Props_Queue\<close>,
      \<open>Props_Grpc\<close>, \<open>Props_Smtp\<close>, \<open>Props_Cli\<close>, \<open>Props_Groups\<close> and this theory: the properties, each with an instance at a concrete input.

  \<^bold>\<open>What is shown.\<close> End to end: whatever interleaves, the mails that leave the service are ones that
  callers asked for with a token that allows them, and each queued mail leaves at most once; what
  comes in over SMTP is sent with a token that was given for the credentials of the user who is logged
  in, and a message that was accepted is put into the queue, from which a dispatcher that runs with a
  healthy database hands it to its transmitter once, for all recipients of the envelope.
  Rendering: no header injection, reserved fields once, 7bit output, CRLF form,
  lines of at most 998 bytes, and the text comes back. Storage: a mail comes back unchanged. Queue:
  a mail is handed to a sender at most once; the inner loop ends and the queue empties,
  exactly the waiting mails whose rows decode having been transmitted. Service:
  nothing is sent or stored without a verified token whose roles allow it; accepted mails are well
  formed and render. Proxy: the request carries the mail; mails are relayed on behalf of an
  authenticated user. Tokens are fresh in 64-bit arithmetic. Slack messages go to listed users
  however calls overlap. Commands shut down what they set up; after a signal the API comes to its
  end; the dispatcher's counters agree with the table. The integration tests send as their one user. Several properties state behaviour that
  the code's documentation contradicts or that loses mail (dry runs that send, dropped extra headers,
  failed mails that stay, empty texts, empty credentials, exhausted retries, Bcc through Graph, maps and
  tokens shared without a lock, a proxy that a signal does not end and that may hang).

  \<^bold>\<open>Bounds and fuel.\<close> \<open>drain\<close> takes the number of its rounds: more than there are submitted mails are
  enough (\<open>drain_terminates\<close>). \<open>HandleMailQueue\<close>, which runs until its context is done, takes the
  number of ticks. \<open>parsePart\<close> takes the depth of nesting: more than the body has bytes is enough
  where the parts of a multipart lie within its body, and more does not change the result
  (\<open>parse_part_ends\<close>). The tries of a Slack call are the code's own bound. A group of
  tasks takes at most two steps for each task.

  \<^bold>\<open>Parameters.\<close> \<^verbatim>\<open>mail.ParseAddress\<close>, the JWT library, HTTP, SMTP and gRPC peers, the Slack API, the
  clock, UUIDs, random multipart boundaries, whether a statement of the database succeeds and which row
  \<open>LIMIT 1\<close> takes, the readers of messages, dates, multiparts and charsets, the file system. Where a
  property relies on one of them it says so in a hypothesis.

  \<^bold>\<open>Not modelled.\<close> Logging, and traces but for those of the Slack calls; listeners, the serving of
  connections and the deadlines of a shutdown, which are library calls; the parsing of the command line;
  keys and signatures of tokens; certificates; generated code. In the sessions of \<open>Smtp_Gateway\<close> the
  provider that all of them share, where the proxy injects its own token, is any provider at every command
  (\<open>Token_Concurrent\<close> has its state under overlapping calls).
\<close>

section \<open>From one server to another\<close>

text \<open>The library's reader of quoted-printable reads more than its writer writes, soft line breaks
  without CR and lower-case digits among it; of its documentation only this is used, that it reads back
  what the writer has written.\<close>

lemma decodeTransferEncoding_encoded:
  assumes "encodeBytes has8 b = (s, cte)" and "in_crlf_form b"
    and "\<forall>x. in_crlf_form x \<longrightarrow> lib_qp_read lib (qp_encode x) = Some x"
  shows "decodeTransferEncoding lib cte (normalize_newlines s) = Some b"
proof -
  have cte: "normalizeCTE ''7bit'' = ''7bit'' \<and> normalizeCTE ''8bit'' = ''8bit''
      \<and> normalizeCTE ''quoted-printable'' = ''quoted-printable'' \<and> normalizeCTE ''base64'' = ''base64''"
    by code_simp
  from assms(1) show ?thesis
  proof (cases rule: encodeBytes_cases)
    case qp
    then show ?thesis
      using assms(2,3) cte
      by (simp add: decodeTransferEncoding_def normalize_newlines_eq crlf_form_id qp_encode_in_crlf_form)
  next
    case b64
    then show ?thesis using cte by (simp add: decodeTransferEncoding_def normalize_newlines_eq b64_decode_wrapped)
  qed (use assms(2) cte in \<open>simp_all add: decodeTransferEncoding_def normalize_newlines_eq crlf_form_id\<close>)
qed

text \<open>
  C13: what the mailer writes, the SMTP server reads. Let the library read back the quoted-printable
  that it writes. A text in UTF-8 and in CRLF form that the mailer encodes, whichever transfer encoding
  it chooses, is read by the SMTP server, given a header that names the encoding and a text type whose
  charset is UTF-8, as the same text with line feeds alone.
\<close>

theorem text_received:
  assumes "encodeBytes has8 b = (s, cte)" and "in_crlf_form b" and "valid_utf8 b"
    and "header_get h ''Content-Transfer-Encoding'' = cte" and "part_type h = (mt, ps)"
    and "has_prefix mt ''text/''" and "to_lower (trim_space (get_param ps ''charset'')) = ''utf-8''"
    and "\<forall>x. in_crlf_form x \<longrightarrow> lib_qp_read lib (qp_encode x) = Some x"
  shows "parsePart n lib h (normalize_newlines s) = Some (Ok (Text (replace_all b CRLF [LF])))"
proof -
  have "decodeTransferEncoding lib cte (normalize_newlines s) = Some b"
    using assms(1,2,8) by (rule decodeTransferEncoding_encoded)
  moreover have "decodeText lib b (get_param ps ''charset'') = b"
    using assms(7) by (simp add: decodeText_def normalizeCTE_def)
  moreover have "\<not> has_prefix mt ''multipart/''"
    using assms(6) by (auto simp: has_prefix_iff)
  ultimately show ?thesis
    using assms(3-6) by (simp add: parsePart.simps [of n] leaf_part_def)
qed

definition sample_text_header :: mime_map where
  "sample_text_header = [(''Content-Type'', [''text/plain; charset=utf-8'']),
     (''Content-Transfer-Encoding'', [''quoted-printable''])]"

lemma text_received_witness:
  "parsePart 0 sample_lib sample_text_header (normalize_newlines (''a'' @ CRLF @ ''=C3=A9''))
    = Some (Ok (Text [CHR ''a'', LF, CHR 0xC3, CHR 0xA9]))"
proof -
  let ?b = "[CHR ''a'', CR, LF, CHR 0xC3, CHR 0xA9]"
  have "replace_all ?b CRLF [LF] = [CHR ''a'', LF, CHR 0xC3, CHR 0xA9]" by code_simp
  moreover have "encodeBytes False ?b = (''a'' @ CRLF @ ''=C3=A9'', ''quoted-printable'')" by code_simp
  moreover have "part_type sample_text_header = (''text/plain'', [(''charset'', ''utf-8'')])" by code_simp
  moreover have "in_crlf_form ?b" "valid_utf8 ?b"
    "header_get sample_text_header ''Content-Transfer-Encoding'' = ''quoted-printable''"
    "has_prefix ''text/plain'' ''text/''" "to_lower (trim_space (get_param [(''charset'', ''utf-8'')] ''charset'')) = ''utf-8''"
    by code_simp+
  moreover have "\<forall>x. in_crlf_form x \<longrightarrow> lib_qp_read sample_lib (qp_encode x) = Some x"
    by (simp add: sample_lib_def qp_decode_encode)
  ultimately show ?thesis
    using text_received [of False ?b "''a'' @ CRLF @ ''=C3=A9''" "''quoted-printable''" sample_text_header
        "''text/plain''" "[(''charset'', ''utf-8'')]" sample_lib 0]
    by simp
qed

end
